(* ===== verification/Cyw_Prelude.thy ===== *)
theory Cyw_Prelude
  imports Main "HOL-Library.Word" "HOL-Library.Monad_Syntax" "HOL-Library.State_Monad"
begin

text \<open>
  Shared vocabulary of the development.

  \<^item> The C integer types: \<open>UCHAR\<close>, \<open>USHORT\<close>, \<open>ULONG\<close> and \<open>ULONG64\<close> are words of
    8, 16, 32 and 64 bits.  Lengths and offsets of the wire parsers (\<open>size_t\<close> and
    \<open>unsigned\<close>) are natural numbers whose subtractions are checked: \<open>csub\<close> has the
    value \<open>None\<close> where the C subtraction would wrap around.
  \<^item> Buffers are lists of bytes.  \<open>rd8\<close> has the value \<open>None\<close> for a read outside of the
    buffer.  A parser of type \<open>_ option\<close> therefore returns \<open>None\<close> exactly when the C code
    would read out of bounds or wrap an unsigned length, and a theorem that it returns
    \<open>Some\<close> is a memory-safety theorem.
  \<^item> \<open>NTSTATUS\<close> codes are 32-bit words with the values of \<open>ntstatus.h\<close>; \<open>NDIS_STATUS\<close>
    codes are only ever compared and are a datatype.
  \<^item> Stateful code runs in the state monad of the library; \<open>wp\<close> is its weakest
    precondition, computed by the rules of the collection \<open>wp_rules\<close>.
\<close>

unbundle bit_operations_syntax

type_synonym u8 = "8 word"
type_synonym u16 = "16 word"
type_synonym u32 = "32 word"
type_synonym u64 = "64 word"
type_synonym bytes = "u8 list"

named_theorems wire_simps \<open>unfolding of the checked buffer accessors\<close>
named_theorems wp_rules \<open>weakest preconditions of the state monad\<close>
named_theorems yields_intros \<open>computations whose every result has a property\<close>
named_theorems keeps_intros \<open>computations that keep a relation between the states before and after\<close>

subsection \<open>Status codes\<close>

type_synonym NTSTATUS = u32

abbreviation (input) "STATUS_SUCCESS \<equiv> (0 :: NTSTATUS)"
abbreviation (input) "STATUS_TIMEOUT \<equiv> (0x102 :: NTSTATUS)"
abbreviation (input) "STATUS_PENDING \<equiv> (0x103 :: NTSTATUS)"
abbreviation (input) "STATUS_DEVICE_BUSY \<equiv> (0x80000011 :: NTSTATUS)"
abbreviation (input) "STATUS_NO_MORE_ENTRIES \<equiv> (0x8000001A :: NTSTATUS)"
abbreviation (input) "STATUS_UNSUCCESSFUL \<equiv> (0xC0000001 :: NTSTATUS)"
abbreviation (input) "STATUS_INVALID_PARAMETER \<equiv> (0xC000000D :: NTSTATUS)"
abbreviation (input) "STATUS_INVALID_DEVICE_REQUEST \<equiv> (0xC0000010 :: NTSTATUS)"
abbreviation (input) "STATUS_INSUFFICIENT_RESOURCES \<equiv> (0xC000009A :: NTSTATUS)"
abbreviation (input) "STATUS_DEVICE_DATA_ERROR \<equiv> (0xC000009C :: NTSTATUS)"
abbreviation (input) "STATUS_DEVICE_NOT_READY \<equiv> (0xC00000A3 :: NTSTATUS)"
abbreviation (input) "STATUS_IO_TIMEOUT \<equiv> (0xC00000B5 :: NTSTATUS)"
abbreviation (input) "STATUS_INVALID_IMAGE_FORMAT \<equiv> (0xC000007B :: NTSTATUS)"
abbreviation (input) "STATUS_INTERNAL_ERROR \<equiv> (0xC00000E5 :: NTSTATUS)"
abbreviation (input) "STATUS_NOT_SUPPORTED \<equiv> (0xC00000BB :: NTSTATUS)"
abbreviation (input) "STATUS_CANCELLED \<equiv> (0xC0000120 :: NTSTATUS)"
abbreviation (input) "STATUS_DEVICE_CONFIGURATION_ERROR \<equiv> (0xC0000182 :: NTSTATUS)"
abbreviation (input) "STATUS_INVALID_DEVICE_STATE \<equiv> (0xC0000184 :: NTSTATUS)"
abbreviation (input) "STATUS_IO_DEVICE_ERROR \<equiv> (0xC0000185 :: NTSTATUS)"
abbreviation (input) "STATUS_INVALID_BUFFER_SIZE \<equiv> (0xC0000206 :: NTSTATUS)"

text \<open>\<open>NT_SUCCESS\<close> is the test \<open>(NTSTATUS)(Status) >= 0\<close>: the sign bit is clear.\<close>

definition NT_SUCCESS :: "NTSTATUS \<Rightarrow> bool" where
  "NT_SUCCESS s \<longleftrightarrow> s < 0x80000000"

lemma NT_SUCCESS_0 [simp]: "NT_SUCCESS 0"
  by (simp add: NT_SUCCESS_def)

lemma NT_SUCCESS_numeral [simp]: "NT_SUCCESS (numeral n) \<longleftrightarrow> (numeral n :: u32) < 0x80000000"
  by (simp add: NT_SUCCESS_def)

datatype ndis_status =
    NDIS_STATUS_SUCCESS
  | NDIS_STATUS_PENDING
  | NDIS_STATUS_FAILURE
  | NDIS_STATUS_RESOURCES
  | NDIS_STATUS_INVALID_LENGTH
  | NDIS_STATUS_SEND_ABORTED
  | NDIS_STATUS_PAUSED
  | NDIS_STATUS_LOW_POWER_STATE
  | NDIS_STATUS_MEDIA_DISCONNECTED

subsection \<open>Checked lengths and buffer accesses\<close>

definition csub :: "nat \<Rightarrow> nat \<Rightarrow> nat option" where
  "csub a b = (if b \<le> a then Some (a - b) else None)"

definition rd8 :: "bytes \<Rightarrow> nat \<Rightarrow> u8 option" where
  "rd8 p i = (if i < length p then Some (p ! i) else None)"

definition wr8 :: "bytes \<Rightarrow> nat \<Rightarrow> u8 \<Rightarrow> bytes option" where
  "wr8 p i v = (if i < length p then Some (p[i := v]) else None)"

lemma csub_Some [wire_simps]: "b \<le> a \<Longrightarrow> csub a b = Some (a - b)"
  by (simp add: csub_def)

lemma csub_eq_Some_iff [simp]: "csub a b = Some c \<longleftrightarrow> b \<le> a \<and> c = a - b"
  by (auto simp: csub_def)

lemma rd8_Some [wire_simps]: "i < length p \<Longrightarrow> rd8 p i = Some (p ! i)"
  by (simp add: rd8_def)

lemma rd8_eq_Some_iff [simp]: "rd8 p i = Some b \<longleftrightarrow> i < length p \<and> b = p ! i"
  by (auto simp: rd8_def)

lemma wr8_Some [wire_simps]: "i < length p \<Longrightarrow> wr8 p i v = Some (p[i := v])"
  by (simp add: wr8_def)

text \<open>Sub-buffer \<open>p[off .. off+n)\<close> and an in-place copy into a buffer.\<close>

definition sub_bytes :: "bytes \<Rightarrow> nat \<Rightarrow> nat \<Rightarrow> bytes" where
  "sub_bytes p off n = take n (drop off p)"

definition rdn :: "bytes \<Rightarrow> nat \<Rightarrow> nat \<Rightarrow> bytes option" where
  "rdn p off n = (if off + n \<le> length p then Some (sub_bytes p off n) else None)"

definition wrn :: "bytes \<Rightarrow> nat \<Rightarrow> bytes \<Rightarrow> bytes option" where
  "wrn p off d = (if off + length d \<le> length p
     then Some (take off p @ d @ drop (off + length d) p) else None)"

lemma rdn_Some [wire_simps]: "off + n \<le> length p \<Longrightarrow> rdn p off n = Some (sub_bytes p off n)"
  by (simp add: rdn_def)

lemma wrn_Some [wire_simps]: "off + length d \<le> length p \<Longrightarrow>
    wrn p off d = Some (take off p @ d @ drop (off + length d) p)"
  by (simp add: wrn_def)

lemma length_sub_bytes [simp]: "off + n \<le> length p \<Longrightarrow> length (sub_bytes p off n) = n"
  by (simp add: sub_bytes_def)

lemma sub_bytes_nth [simp]: "off + n \<le> length p \<Longrightarrow> i < n \<Longrightarrow> sub_bytes p off n ! i = p ! (off + i)"
  by (simp add: sub_bytes_def)

subsection \<open>Little- and big-endian loads and stores\<close>

definition le16 :: "u8 \<Rightarrow> u8 \<Rightarrow> u16" where
  "le16 a b = ucast a OR push_bit 8 (ucast b)"

definition le32 :: "u8 \<Rightarrow> u8 \<Rightarrow> u8 \<Rightarrow> u8 \<Rightarrow> u32" where
  "le32 a b c d = ucast a OR push_bit 8 (ucast b) OR push_bit 16 (ucast c) OR push_bit 24 (ucast d)"

lemma or_push_bit_add:
  fixes x y :: nat
  assumes "x < 2 ^ k"
  shows "x OR push_bit k y = x + 2 ^ k * y"
proof -
  have low: "n < k" if "bit x n" for n
  proof -
    have "bit (take_bit k x) n"
      using that assms by (simp add: take_bit_nat_eq_self)
    then show ?thesis by (simp add: bit_take_bit_iff)
  qed
  have "x AND push_bit k y = 0"
    by (rule bit_eqI) (auto simp: bit_simps dest: low)
  then have "x + push_bit k y = x OR push_bit k y"
    by (rule disjunctive_add_eq_or)
  then show ?thesis
    by (simp add: push_bit_nat_def mult.commute)
qed

lemma unat_u8_less [simp]: "unat (b :: u8) < 256"
  using unsigned_less [of b] by simp

lemma unat_u16_less [simp]: "unat (w :: u16) < 65536"
  using unsigned_less [of w] by simp

lemma unat_u32_less [simp]: "unat (w :: u32) < 4294967296"
  using unsigned_less [of w] by simp

lemma unat_u64_le [simp]: "unat (w :: u64) \<le> 18446744073709551615"
proof -
  have "unat w < 2 ^ 64" using unsigned_less [of w] by simp
  then show ?thesis by simp
qed

lemma unat_u8_le [simp]: "unat (b :: u8) \<le> 255"
  using unat_u8_less [of b] by linarith

lemma unat_u16_le [simp]: "unat (w :: u16) \<le> 65535"
  using unat_u16_less [of w] by linarith

lemma take_bit_u8 [simp]: "8 \<le> n \<Longrightarrow> take_bit n (unat (b :: u8)) = unat b"
proof (rule take_bit_nat_eq_self)
  assume "8 \<le> n"
  then have "(2::nat) ^ 8 \<le> 2 ^ n" by (rule power_increasing) simp
  then show "unat b < 2 ^ n" by (intro less_le_trans [OF unat_u8_less]) simp
qed

lemma unat_push_bit_u8:
  assumes "k + 8 \<le> LENGTH('a::len)"
  shows "unat (push_bit k (ucast (b :: u8)) :: 'a word) = push_bit k (unat b)"
proof -
  have "unat b * 2 ^ k < 2 ^ 8 * 2 ^ k"
    by (rule mult_strict_right_mono) simp_all
  also have "\<dots> \<le> 2 ^ LENGTH('a)"
    using assms by (metis add.commute power_add power_increasing one_le_numeral)
  finally show ?thesis
    using assms by (simp add: unsigned_push_bit_eq unsigned_ucast_eq push_bit_nat_def
        take_bit_nat_eq_self)
qed

lemma unat_le16: "unat (le16 a b) = unat a + 256 * unat b"
proof -
  have "unat (le16 a b) = unat a OR push_bit 8 (unat b)"
    by (simp add: le16_def unsigned_or_eq unat_push_bit_u8 unsigned_ucast_eq)
  also have "\<dots> = unat a + 256 * unat b"
    using or_push_bit_add [of "unat a" 8 "unat b"] by simp
  finally show ?thesis .
qed

lemma unat_le32:
  "unat (le32 a b c d) = unat a + 256 * unat b + 65536 * unat c + 16777216 * unat d"
proof -
  have "unat (le32 a b c d) =
      ((unat a OR push_bit 8 (unat b)) OR push_bit 16 (unat c)) OR push_bit 24 (unat d)"
    by (simp add: le32_def unsigned_or_eq unat_push_bit_u8 unsigned_ucast_eq or.assoc)
  also have "unat a OR push_bit 8 (unat b) = unat a + 256 * unat b"
    using or_push_bit_add [of "unat a" 8 "unat b"] by simp
  also have "\<dots> OR push_bit 16 (unat c) = unat a + 256 * unat b + 65536 * unat c"
    using or_push_bit_add [of "unat a + 256 * unat b" 16 "unat c"]
      unat_u8_le [of a] unat_u8_le [of b] by simp
  also have "\<dots> OR push_bit 24 (unat d) =
      unat a + 256 * unat b + 65536 * unat c + 16777216 * unat d"
    using or_push_bit_add [of "unat a + 256 * unat b + 65536 * unat c" 24 "unat d"]
      unat_u8_le [of a] unat_u8_le [of b] unat_u8_le [of c] by simp
  finally show ?thesis .
qed

text \<open>The bytes \<open>(uint8_t)v\<close>, \<open>(uint8_t)(v>>8)\<close>, \<dots> of a stored value.\<close>

definition byte_of :: "nat \<Rightarrow> 'a::len word \<Rightarrow> u8" where
  "byte_of k v = ucast (drop_bit (8 * k) v)"

lemma unat_byte_of: "unat (byte_of k v) = unat v div 2 ^ (8 * k) mod 256"
  by (simp add: byte_of_def unsigned_ucast_eq unat_drop_bit_eq drop_bit_nat_def take_bit_nat_def)

lemma base256_2: "n < 65536 \<Longrightarrow> n mod 256 + 256 * (n div 256 mod 256) = (n::nat)"
  using less_mult_imp_div_less [of n 256 256] by simp

lemma base256_4:
  assumes "n < 4294967296"
  shows "n mod 256 + 256 * (n div 256 mod 256) + 65536 * (n div 65536 mod 256) +
    16777216 * (n div 16777216 mod 256) = (n::nat)"
proof -
  have e: "n div 65536 = n div 256 div 256" "n div 16777216 = n div 256 div 256 div 256"
    by (simp_all flip: div_mult2_eq)
  have "n div 16777216 < 256"
    using less_mult_imp_div_less [of n 256 16777216] assms by simp
  then have "n div 16777216 mod 256 = n div 256 div 256 div 256"
    by (simp add: e)
  then show ?thesis
    using div_mult_mod_eq [of n 256] div_mult_mod_eq [of "n div 256" 256]
      div_mult_mod_eq [of "n div 256 div 256" 256] unfolding e by linarith
qed

lemma le16_byte_of [simp]: "le16 (byte_of 0 v) (byte_of (Suc 0) v) = v"
proof -
  have "unat (le16 (byte_of 0 v) (byte_of 1 v)) = unat v"
    by (simp add: unat_le16 unat_byte_of base256_2)
  then show ?thesis
    by (simp add: word_unat_eq_iff)
qed

lemma le32_byte_of [simp]:
  "le32 (byte_of 0 v) (byte_of (Suc 0) v) (byte_of 2 v) (byte_of 3 v) = v"
proof -
  have "unat (le32 (byte_of 0 v) (byte_of 1 v) (byte_of 2 v) (byte_of 3 v)) = unat v"
    by (simp add: unat_le32 unat_byte_of base256_4)
  then show ?thesis
    by (simp add: word_unat_eq_iff)
qed

subsection \<open>Word arithmetic shared by the components\<close>

text \<open>Saturating 64-bit addition, as the driver's counters and accumulators use it.\<close>

lemma unat_add_no_wrap:
  fixes a b :: "'a::len word"
  assumes "unat a + unat b < 2 ^ LENGTH('a)"
  shows "unat (a + b) = unat a + unat b"
  using assms by (simp add: unat_word_ariths)

lemma unat_word_of_nat_u32: "n < 4294967296 \<Longrightarrow> unat (word_of_nat n :: u32) = n"
  by (simp add: unat_of_nat)

lemma unat_Suc_no_wrap:
  fixes a :: "'a::len word"
  assumes "a \<noteq> - 1"
  shows "unat (a + 1) = Suc (unat a)"
  by (metis Suc_eq_plus1 add.commute assms add.inverse_inverse add_eq_0_iff unatSuc)

lemma unat_inc_less:
  fixes w v :: "'a::len word"
  assumes "w < v"
  shows "unat (w + 1) = Suc (unat w)"
proof -
  have "w \<noteq> - 1" using assms word_n1_ge [of v] by (metis leD)
  then show ?thesis by (rule unat_Suc_no_wrap)
qed

subsection \<open>Weakest preconditions of the state monad\<close>

definition wp :: "('s, 'a) state \<Rightarrow> ('a \<Rightarrow> 's \<Rightarrow> bool) \<Rightarrow> 's \<Rightarrow> bool" where
  "wp m Q s = (case run_state m s of (x, s') \<Rightarrow> Q x s')"

lemma wp_return [wp_rules]: "wp (State_Monad.return x) Q s = Q x s"
  by (simp add: wp_def)

lemma wp_bind [wp_rules]: "wp (State_Monad.bind m f) Q s = wp m (\<lambda>x. wp (f x) Q) s"
  by (simp add: wp_def split: prod.split)

lemma wp_get [wp_rules]: "wp State_Monad.get Q s = Q s s"
  by (simp add: wp_def)

lemma wp_set [wp_rules]: "wp (State_Monad.set t) Q s = Q () t"
  by (simp add: wp_def)

lemma wp_update [wp_rules]: "wp (State_Monad.update f) Q s = Q () (f s)"
  by (simp add: wp_def State_Monad.update_def)

lemma wp_if [wp_rules]: "wp (if b then m else n) Q s = (if b then wp m Q s else wp n Q s)"
  by simp

lemma wp_State [wp_rules]: "wp (State f) Q s = (case f s of (x, s') \<Rightarrow> Q x s')"
  by (simp add: wp_def)

lemma wp_mono:
  assumes "wp m P s" and "\<And>x t. P x t \<Longrightarrow> Q x t"
  shows "wp m Q s"
  using assms by (auto simp: wp_def split: prod.splits)

lemma wp_any: "(\<And>x t. Q x t) \<Longrightarrow> wp m Q s"
  by (simp add: wp_def split: prod.split)

lemma wp_conj: "wp m (\<lambda>x t. P x t \<and> Q x t) s \<longleftrightarrow> wp m P s \<and> wp m Q s"
  by (simp add: wp_def split: prod.split)

lemma wp_run: "wp m Q s \<Longrightarrow> run_state m s = (x, t) \<Longrightarrow> Q x t"
  by (simp add: wp_def)

text \<open>
  The macro \<open>TRY(x)\<close> of \<open>network.c\<close>: run \<open>x\<close> and leave with its status unless it succeeded.
\<close>

definition tryS :: "('s, NTSTATUS) state \<Rightarrow> ('s, NTSTATUS) state \<Rightarrow> ('s, NTSTATUS) state" where
  "tryS m k = do { st \<leftarrow> m; if NT_SUCCESS st then k else State_Monad.return st }"

lemma wp_tryS [wp_rules]:
  "wp (tryS m k) Q s = wp m (\<lambda>st t. if NT_SUCCESS st then wp k Q t else Q st t) s"
  by (simp add: tryS_def wp_def split: prod.split)

subsection \<open>Frames\<close>

text \<open>
  \<open>keeps R m\<close>: the states before and after \<open>m\<close> are related.  For a reflexive and transitive \<open>R\<close> this is closed under
  sequencing and branching, so it is established for a function of the driver from its calls.
\<close>

definition keeps :: "('s \<Rightarrow> 's \<Rightarrow> bool) \<Rightarrow> ('s, 'a) state \<Rightarrow> bool" where
  "keeps R m \<longleftrightarrow> (\<forall>s. R s (snd (run_state m s)))"

lemma keepsD: "keeps R m \<Longrightarrow> run_state m s = (x, t) \<Longrightarrow> R s t"
  by (metis keeps_def snd_conv)

lemma wp_keeps: "keeps R m \<Longrightarrow> wp m (\<lambda>_ t. R s t) s"
  by (simp add: keeps_def wp_def split: prod.split) (metis snd_conv)

lemma keeps_if [keeps_intros]: "(b \<Longrightarrow> keeps R m) \<Longrightarrow> (\<not> b \<Longrightarrow> keeps R n) \<Longrightarrow> keeps R (if b then m else n)"
  by simp

lemma keeps_prod [keeps_intros]: "(\<And>x y. keeps R (f x y)) \<Longrightarrow> keeps R (case p of (x, y) \<Rightarrow> f x y)"
  by (cases p) simp

lemma keeps_sum [keeps_intros]:
  "(\<And>x. keeps R (f x)) \<Longrightarrow> (\<And>y. keeps R (g y)) \<Longrightarrow> keeps R (case r of Inl x \<Rightarrow> f x | Inr y \<Rightarrow> g y)"
  by (cases r) simp_all

lemma keeps_option [keeps_intros]:
  "keeps R m \<Longrightarrow> (\<And>x. keeps R (f x)) \<Longrightarrow> keeps R (case r of None \<Rightarrow> m | Some x \<Rightarrow> f x)"
  by (cases r) simp_all

locale frame_relation =
  fixes R :: "'s \<Rightarrow> 's \<Rightarrow> bool"
  assumes frame_refl: "R s s"
    and frame_trans: "R s t \<Longrightarrow> R t u \<Longrightarrow> R s u"
begin

lemma keeps_snd: "keeps R m \<Longrightarrow> R s (snd (run_state m s))"
  by (simp add: keeps_def)

lemma keeps_return [keeps_intros]: "keeps R (State_Monad.return x)"
  by (simp add: keeps_def frame_refl)

lemma keeps_bind [keeps_intros]: "keeps R m \<Longrightarrow> (\<And>x. keeps R (f x)) \<Longrightarrow> keeps R (State_Monad.bind m f)"
  by (simp add: keeps_def split: prod.split) (metis frame_trans snd_conv)

end

subsection \<open>Results\<close>

text \<open>\<open>yields P m\<close>: whatever the state, the result of \<open>m\<close> has the property \<open>P\<close>.\<close>

definition yields :: "('a \<Rightarrow> bool) \<Rightarrow> ('s, 'a) state \<Rightarrow> bool" where
  "yields P m \<longleftrightarrow> (\<forall>s. P (fst (run_state m s)))"

lemma wp_yields: "yields P m \<Longrightarrow> (\<And>x t. P x \<Longrightarrow> Q x t) \<Longrightarrow> wp m Q s"
  by (simp add: yields_def wp_def split: prod.split) (metis fst_conv)

lemma yields_return [yields_intros]: "P x \<Longrightarrow> yields P (State_Monad.return x)"
  by (simp add: yields_def)

lemma yields_bind [yields_intros]: "(\<And>x. yields P (f x)) \<Longrightarrow> yields P (State_Monad.bind m f)"
  by (simp add: yields_def split: prod.split)

lemma yields_bind_of: "yields Q m \<Longrightarrow> (\<And>x. Q x \<Longrightarrow> yields P (f x)) \<Longrightarrow> yields P (State_Monad.bind m f)"
  by (simp add: yields_def split: prod.split) (metis fst_conv)

lemma yields_if [yields_intros]: "(b \<Longrightarrow> yields P m) \<Longrightarrow> (\<not> b \<Longrightarrow> yields P n) \<Longrightarrow> yields P (if b then m else n)"
  by simp

lemma yields_prod [yields_intros]: "(\<And>x y. p = (x, y) \<Longrightarrow> yields P (f x y)) \<Longrightarrow> yields P (case p of (x, y) \<Rightarrow> f x y)"
  by (cases p) simp

lemma yields_sum [yields_intros]:
  "(\<And>x. r = Inl x \<Longrightarrow> yields P (f x)) \<Longrightarrow> (\<And>y. r = Inr y \<Longrightarrow> yields P (g y)) \<Longrightarrow> yields P (case r of Inl x \<Rightarrow> f x | Inr y \<Rightarrow> g y)"
  by (cases r) simp_all

subsection \<open>Transition systems\<close>

text \<open>
  The contract of a component that runs by interleaved atomic steps: an invariant that holds
  initially and is kept by every step.
\<close>

locale invariant_system =
  fixes init :: "'s \<Rightarrow> bool" and step :: "'s \<Rightarrow> 's \<Rightarrow> bool" and inv :: "'s \<Rightarrow> bool"
  assumes init_inv: "init s \<Longrightarrow> inv s"
    and step_inv: "step s t \<Longrightarrow> inv s \<Longrightarrow> inv t"
begin

lemma steps_inv: "step\<^sup>*\<^sup>* s t \<Longrightarrow> inv s \<Longrightarrow> inv t"
  by (induction rule: rtranclp_induct) (auto intro: step_inv)

lemma reachable_inv: "init s \<Longrightarrow> step\<^sup>*\<^sup>* s t \<Longrightarrow> inv t"
  by (blast intro: steps_inv init_inv)

end

end
