(* ===== verification/Scan_Protocol.thy ===== *)
theory Scan_Protocol
  imports Cyw_Prelude
begin

text \<open>
  Scan requests and the decoder of scan results (\<open>cyw43455/scan_protocol.h\<close>).

  The decoder works on a received buffer of which it may read \<open>n\<close> bytes.  Pointers into the buffer are
  offsets; the value \<open>None\<close> of a decoder function stands for a read outside of the buffer or for an
  unsigned length that wraps.  Flag words are 32-bit words, lengths and 16-bit fields natural numbers.
  A report owns an array of 64 entries of which the first \<open>Count\<close> are in use.
\<close>

abbreviation (input) "CYW_SCAN_MAX_ENTRIES \<equiv> (64 :: nat)"
abbreviation (input) "CYW_SCAN_TRUNCATED \<equiv> (1 :: u32)"
abbreviation (input) "CYW_SCAN_SECURITY_OPEN \<equiv> (1 :: u32)"
abbreviation (input) "CYW_SCAN_SECURITY_WPA2_PSK_CCMP \<equiv> (2 :: u32)"
abbreviation (input) "CYW_SCAN_SECURITY_UNSUPPORTED \<equiv> (4 :: u32)"
abbreviation (input) "CYW_SCAN_SECURITY_HIDDEN \<equiv> (8 :: u32)"
abbreviation (input) "CYW_SCAN_SECURITY_MALFORMED_IE \<equiv> (16 :: u32)"
abbreviation (input) "CYW_SCAN_SECURITY_PMF_REQUIRED \<equiv> (32 :: u32)"
abbreviation (input) "CYW_SCAN_REQUEST_SIZE \<equiv> (72 :: nat)"
abbreviation (input) "CYW_SCAN_ABORT_SIZE \<equiv> (68 :: nat)"

record CYW_SCAN_ENTRY =
  SeSsidLength :: nat
  SeSsid :: bytes
  SeBssid :: bytes
  SeChanspec :: u16
  SeRssi :: int
  SeSecurityFlags :: u32
  SeControlChannel :: nat

record CYW_SCAN_REPORT =
  SrVersion :: u32
  SrGeneration :: u32
  SrState :: u32
  SrStatus :: u32
  SrCount :: nat
  SrFlags :: u32
  SrCountry :: u32
  SrFirmwareError :: u32
  SrEntries :: "CYW_SCAN_ENTRY list"

section \<open>Byte access\<close>

definition CywScanU16 :: "bytes \<Rightarrow> nat \<Rightarrow> nat option" where
  "CywScanU16 p i = do { a \<leftarrow> rd8 p i; b \<leftarrow> rd8 p (i + 1); Some (unat a + 256 * unat b) }"

definition CywScanU32 :: "bytes \<Rightarrow> nat \<Rightarrow> nat option" where
  "CywScanU32 p i = do { a \<leftarrow> CywScanU16 p i; b \<leftarrow> CywScanU16 p (i + 2); Some (a + 65536 * b) }"

definition CywScanPut16 :: "bytes \<Rightarrow> nat \<Rightarrow> u32 \<Rightarrow> bytes option" where
  "CywScanPut16 p i v = do {
     p \<leftarrow> wr8 p i (ucast (v AND 255));
     wr8 p (i + 1) (ucast (drop_bit 8 v AND 255)) }"

definition CywScanPut32 :: "bytes \<Rightarrow> nat \<Rightarrow> u32 \<Rightarrow> bytes option" where
  "CywScanPut32 p i v = do { p \<leftarrow> CywScanPut16 p i v; CywScanPut16 p (i + 2) (drop_bit 16 v) }"

text \<open>\<open>memset(p + i, v, n)\<close>.\<close>

definition memset_bytes :: "bytes \<Rightarrow> nat \<Rightarrow> u8 \<Rightarrow> nat \<Rightarrow> bytes option" where
  "memset_bytes p i v n = wrn p i (replicate n v)"

section \<open>Requests\<close>

definition CywScanBuildRequest :: "bytes \<Rightarrow> u32 \<Rightarrow> bytes option" where
  "CywScanBuildRequest p sync = do {
     p \<leftarrow> memset_bytes p 0 0 CYW_SCAN_REQUEST_SIZE;
     p \<leftarrow> CywScanPut32 p 0 1;
     p \<leftarrow> CywScanPut16 p 4 1;
     p \<leftarrow> CywScanPut16 p 6 sync;
     p \<leftarrow> memset_bytes p 44 255 6;
     p \<leftarrow> wr8 p 50 2;
     p \<leftarrow> wr8 p 51 1;
     memset_bytes p 52 255 16 }"

definition CywScanBuildAbort :: "bytes \<Rightarrow> bytes option" where
  "CywScanBuildAbort p = do {
     p \<leftarrow> memset_bytes p 0 0 CYW_SCAN_ABORT_SIZE;
     p \<leftarrow> memset_bytes p 36 255 6;
     p \<leftarrow> wr8 p 42 2;
     p \<leftarrow> wr8 p 43 1;
     p \<leftarrow> memset_bytes p 44 255 16;
     p \<leftarrow> CywScanPut32 p 60 1;
     CywScanPut16 p 64 65535 }"

section \<open>Security information elements\<close>

definition CywScanSuite :: "bytes \<Rightarrow> nat \<Rightarrow> u8 \<Rightarrow> bool option" where
  "CywScanSuite p i type = do {
     a \<leftarrow> rd8 p i;
     if a \<noteq> 0 then Some False else do {
     b \<leftarrow> rd8 p (i + 1);
     if b \<noteq> 15 then Some False else do {
     c \<leftarrow> rd8 p (i + 2);
     if c \<noteq> 172 then Some False else do {
     d \<leftarrow> rd8 p (i + 3);
     Some (d = type) }}}}"

text \<open>The two loops over a list of cipher or key-management suites.\<close>

fun ScanSuiteLoop :: "bytes \<Rightarrow> nat \<Rightarrow> u8 \<Rightarrow> nat \<Rightarrow> nat \<Rightarrow> bool \<Rightarrow> (bool \<times> nat) option" where
  "ScanSuiteLoop p base type 0 off found = Some (found, off)"
| "ScanSuiteLoop p base type (Suc k) off found = do {
     s \<leftarrow> CywScanSuite p (base + off) type;
     ScanSuiteLoop p base type k (off + 4) (found \<or> s) }"

text \<open>The optional capabilities, PMKID list and group-management suite that end the element.\<close>

definition ScanRsnTail :: "bytes \<Rightarrow> nat \<Rightarrow> nat \<Rightarrow> nat \<Rightarrow> bool \<Rightarrow> u32 option" where
  "ScanRsnTail p base n off wpa2 = do {
     (bad, caps, off) \<leftarrow>
       (if off < n then do {
          left \<leftarrow> csub n off;
          if left < 2 then Some (True, 0, off)
          else do { c \<leftarrow> CywScanU16 p (base + off); Some (False, c, off + 2) } }
        else Some (False, 0, off));
     if bad then Some CYW_SCAN_SECURITY_MALFORMED_IE else do {
     (bad, off) \<leftarrow>
       (if off < n then do {
          left \<leftarrow> csub n off;
          if left < 2 then Some (True, off)
          else do {
            count \<leftarrow> CywScanU16 p (base + off);
            left \<leftarrow> csub n (off + 2);
            if count > left div 16 then Some (True, off + 2)
            else
              let off = off + 2 + count * 16 in
              if off < n then do {
                left \<leftarrow> csub n off;
                if left \<noteq> 4 then Some (True, off) else Some (False, off + 4) }
              else Some (False, off) } }
        else Some (False, off));
     if bad \<or> off \<noteq> n then Some CYW_SCAN_SECURITY_MALFORMED_IE
     else if caps div 64 mod 2 = 1 then Some CYW_SCAN_SECURITY_PMF_REQUIRED
     else Some (if wpa2 then CYW_SCAN_SECURITY_WPA2_PSK_CCMP else 0) }}"

definition CywScanRsn :: "bytes \<Rightarrow> nat \<Rightarrow> nat \<Rightarrow> u32 option" where
  "CywScanRsn p base n =
    (if n < 8 then Some CYW_SCAN_SECURITY_MALFORMED_IE else do {
       version \<leftarrow> CywScanU16 p base;
       if version \<noteq> 1 then Some CYW_SCAN_SECURITY_MALFORMED_IE else do {
       group \<leftarrow> CywScanSuite p (base + 2) 4;
       count \<leftarrow> CywScanU16 p (base + 6);
       left \<leftarrow> csub n 8;
       if count = 0 \<or> count > left div 4 then Some CYW_SCAN_SECURITY_MALFORMED_IE else do {
       (pair, off) \<leftarrow> ScanSuiteLoop p base 4 count 8 False;
       left \<leftarrow> csub n off;
       if left < 2 then Some CYW_SCAN_SECURITY_MALFORMED_IE else do {
       count \<leftarrow> CywScanU16 p (base + off);
       left \<leftarrow> csub n (off + 2);
       if count = 0 \<or> count > left div 4 then Some CYW_SCAN_SECURITY_MALFORMED_IE else do {
       (psk, off) \<leftarrow> ScanSuiteLoop p base 2 count (off + 2) False;
       ScanRsnTail p base n off (group \<and> pair \<and> psk) }}}}})"

text \<open>One information element, with its body at \<open>q\<close>: classify an RSN element, notice a WPA element.\<close>

definition ScanIeElement :: "bytes \<Rightarrow> nat \<Rightarrow> u8 \<Rightarrow> nat \<Rightarrow> u32 \<Rightarrow> bool \<Rightarrow> bool \<Rightarrow> (u32 \<times> bool \<times> bool) option" where
  "ScanIeElement p q ident len rsn wpa seen = do {
     (rsn, seen) \<leftarrow> (if ident = 48 then do { r \<leftarrow> CywScanRsn p q len; Some (r, True) }
                      else Some (rsn, seen));
     ms \<leftarrow> (if ident = 221 \<and> len \<ge> 4 then do {
              a \<leftarrow> rd8 p q; b \<leftarrow> rd8 p (q + 1);
              c \<leftarrow> rd8 p (q + 2); d \<leftarrow> rd8 p (q + 3);
              Some (a = 0 \<and> b = 80 \<and> c = 242 \<and> d = 1) } else Some False);
     Some (rsn, wpa \<or> ms, seen) }"

text \<open>The loop over the elements; \<open>None\<close> inside stands for the early return of a malformed list.\<close>

function ScanIeLoop :: "bytes \<Rightarrow> nat \<Rightarrow> nat \<Rightarrow> nat \<Rightarrow> u32 \<Rightarrow> bool \<Rightarrow> bool \<Rightarrow> (u32 \<times> bool \<times> bool) option option" where
  "ScanIeLoop p base n off rsn wpa seen =
    (if off < n then do {
       left \<leftarrow> csub n off;
       if left < 2 then Some None else do {
       ident \<leftarrow> rd8 p (base + off);
       l \<leftarrow> rd8 p (base + off + 1);
       left \<leftarrow> csub n (off + 2);
       if unat l > left then Some None
       else if ident = 48 \<and> seen then Some None else do {
       (rsn, wpa, seen) \<leftarrow> ScanIeElement p (base + off + 2) ident (unat l) rsn wpa seen;
       ScanIeLoop p base n (off + 2 + unat l) rsn wpa seen }}}
     else Some (Some (rsn, wpa, seen)))"
  by pat_completeness auto
termination
  by (relation "measure (\<lambda>(p, base, n, off, _). n - off)") auto

declare ScanIeLoop.simps [simp del]

definition CywScanSecurity :: "nat \<Rightarrow> bytes \<Rightarrow> nat \<Rightarrow> nat \<Rightarrow> u32 option" where
  "CywScanSecurity capability p base n = do {
     r \<leftarrow> ScanIeLoop p base n 0 0 False False;
     Some (case r of
       None \<Rightarrow> CYW_SCAN_SECURITY_UNSUPPORTED OR CYW_SCAN_SECURITY_MALFORMED_IE
     | Some (rsn, wpa, seen) \<Rightarrow>
         let ess = odd capability; ibss = odd (capability div 2); privacy = odd (capability div 16);
             result =
              (if \<not> ess \<or> ibss then CYW_SCAN_SECURITY_UNSUPPORTED
               else if \<not> privacy \<and> \<not> seen \<and> \<not> wpa then CYW_SCAN_SECURITY_OPEN
               else if privacy \<and> seen \<and> rsn = CYW_SCAN_SECURITY_WPA2_PSK_CCMP
               then CYW_SCAN_SECURITY_WPA2_PSK_CCMP
               else CYW_SCAN_SECURITY_UNSUPPORTED)
         in result OR (rsn AND (CYW_SCAN_SECURITY_MALFORMED_IE OR CYW_SCAN_SECURITY_PMF_REQUIRED))) }"

section \<open>Partial results\<close>

text \<open>
  The result is the returned code (1, 0 or -1) and the entry that was stored through \<open>out\<close>,
  if any.  \<open>Rssi\<close> is the 16-bit field read as a signed number.
\<close>

definition ScanEntryBody :: "bytes \<Rightarrow> nat \<Rightarrow> nat \<Rightarrow> (int \<times> CYW_SCAN_ENTRY option) option" where
  "ScanEntryBody p b length' = do {
     ieoff \<leftarrow> CywScanU16 p (b + 116);
     ielen \<leftarrow> CywScanU32 p (b + 120);
     if ieoff < 128 \<or> ieoff > length' then Some (-1, None) else do {
     left \<leftarrow> csub length' ieoff;
     if ielen > left then Some (-1, None) else do {
     bssid \<leftarrow> rdn p (b + 8) 6;
     if bssid ! 0 AND 1 \<noteq> 0 then Some (-1, None)
     else if bssid = replicate 6 0 then Some (-1, None) else do {
     rssi \<leftarrow> CywScanU16 p (b + 78);
     sl \<leftarrow> rd8 p (b + 18);
     ssid \<leftarrow> rdn p (b + 19) (unat sl);
     ssid32 \<leftarrow> wrn (replicate 32 0) 0 ssid;
     chanspec \<leftarrow> CywScanU16 p (b + 72);
     ctl \<leftarrow> rd8 p (b + 88);
     if ctl = 0 \<or> ctl > 196 \<or> ctl > 14 \<and> ctl < 32 then Some (-1, None) else do {
     cap \<leftarrow> CywScanU16 p (b + 16);
     sec \<leftarrow> CywScanSecurity cap p (b + ieoff) ielen;
     Some (1, Some \<lparr>SeSsidLength = unat sl, SeSsid = ssid32, SeBssid = bssid,
       SeChanspec = word_of_nat chanspec,
       SeRssi = (if rssi \<ge> 32768 then int rssi - 65536 else int rssi),
       SeSecurityFlags = (if sl = 0 then sec OR CYW_SCAN_SECURITY_HIDDEN else sec),
       SeControlChannel = unat ctl\<rparr>) }}}}}"

definition CywScanParsePartial :: "bytes \<Rightarrow> nat \<Rightarrow> nat \<Rightarrow> (int \<times> CYW_SCAN_ENTRY option) option" where
  "CywScanParsePartial p n sync =
    (if n < 12 then Some (-1, None) else do {
       s \<leftarrow> CywScanU16 p 8;
       if s \<noteq> sync mod 65536 then Some (0, None) else do {
       tot \<leftarrow> CywScanU32 p 0;
       if tot < 140 \<or> tot > n then Some (-1, None) else do {
       bsscount \<leftarrow> CywScanU16 p 10;
       if bsscount \<noteq> 1 then Some (-1, None) else do {
       length' \<leftarrow> CywScanU32 p (12 + 4);
       version \<leftarrow> CywScanU32 p 12;
       left \<leftarrow> csub tot 12;
       if version \<noteq> 109 \<or> length' \<noteq> left then Some (-1, None) else do {
       sl \<leftarrow> rd8 p (12 + 18);
       if sl > 32 then Some (-1, None) else ScanEntryBody p 12 length' }}}}})"

section \<open>The report\<close>

definition ScanSameNetwork :: "CYW_SCAN_ENTRY \<Rightarrow> CYW_SCAN_ENTRY \<Rightarrow> bool" where
  "ScanSameNetwork old e \<longleftrightarrow> SeBssid old = SeBssid e \<and> SeSsidLength old = SeSsidLength e \<and>
     take (SeSsidLength e) (SeSsid old) = take (SeSsidLength e) (SeSsid e)"

text \<open>The loop of \<open>CywScanAdd\<close>: the index of the first entry of the same network.\<close>

function ScanFind :: "CYW_SCAN_REPORT \<Rightarrow> CYW_SCAN_ENTRY \<Rightarrow> nat \<Rightarrow> nat option" where
  "ScanFind r e i =
    (if i < SrCount r then if ScanSameNetwork (SrEntries r ! i) e then Some i else ScanFind r e (i + 1)
     else None)"
  by pat_completeness auto
termination
  by (relation "measure (\<lambda>(r, e, i). SrCount r - i)") auto

declare ScanFind.simps [simp del]

definition CywScanAdd :: "CYW_SCAN_REPORT \<Rightarrow> CYW_SCAN_ENTRY \<Rightarrow> CYW_SCAN_REPORT" where
  "CywScanAdd r e =
    (if SrCount r > CYW_SCAN_MAX_ENTRIES then r\<lparr>SrFlags := SrFlags r OR CYW_SCAN_TRUNCATED\<rparr>
     else case ScanFind r e 0 of
       Some i \<Rightarrow> r\<lparr>SrEntries := (SrEntries r)[i := e]\<rparr>
     | None \<Rightarrow>
         if SrCount r = CYW_SCAN_MAX_ENTRIES then r\<lparr>SrFlags := SrFlags r OR CYW_SCAN_TRUNCATED\<rparr>
         else r\<lparr>SrEntries := (SrEntries r)[SrCount r := e], SrCount := SrCount r + 1\<rparr>)"

section \<open>Memory safety of the decoder\<close>

lemma CywScanU16_safe [simp]: "i + 1 < length p \<Longrightarrow> CywScanU16 p i = Some (unat (p ! i) + 256 * unat (p ! (i + 1)))"
  by (simp add: CywScanU16_def wire_simps)

lemma CywScanU32_safe: "i + 3 < length p \<Longrightarrow> \<exists>v. CywScanU32 p i = Some v"
  by (simp add: CywScanU32_def)

lemma CywScanSuite_safe: "i + 3 < length p \<Longrightarrow> \<exists>v. CywScanSuite p i t = Some v"
  by (auto simp: CywScanSuite_def wire_simps)

lemma ScanSuiteLoop_safe:
  "base + off + 4 * k \<le> length p \<Longrightarrow> \<exists>v. ScanSuiteLoop p base t k off f = Some (v, off + 4 * k)"
proof (induction k arbitrary: off f)
  case 0
  then show ?case by simp
next
  case (Suc k)
  obtain v where "CywScanSuite p (base + off) t = Some v"
    using CywScanSuite_safe [of "base + off" p t] Suc.prems by auto
  with Suc.IH [of "off + 4" "f \<or> v"] Suc.prems show ?case by auto
qed

abbreviation rsn_results :: "u32 set" where
  "rsn_results \<equiv> {0, 2, 16, 32}"

lemma ScanRsnTail_safe:
  assumes "base + n \<le> length p" "off \<le> n"
  shows "\<exists>v \<in> rsn_results. ScanRsnTail p base n off w = Some v"
  using assms by (auto simp: ScanRsnTail_def csub_def Let_def)

lemma CywScanRsn_safe:
  assumes "base + n \<le> length p"
  shows "\<exists>v \<in> rsn_results. CywScanRsn p base n = Some v"
proof (cases "n < 8 \<or> CywScanU16 p base \<noteq> Some 1")
  case True
  then show ?thesis using assms by (auto simp: CywScanRsn_def)
next
  case False
  then obtain g where g: "CywScanSuite p (base + 2) 4 = Some g"
    using CywScanSuite_safe [of "base + 2" p 4] assms by auto
  define c where "c = unat (p ! (base + 6)) + 256 * unat (p ! Suc (base + 6))"
  have c: "CywScanU16 p (base + 6) = Some c" using False assms by (simp add: c_def)
  show ?thesis
  proof (cases "c = 0 \<or> c > (n - 8) div 4")
    case True
    with False c g show ?thesis by (auto simp: CywScanRsn_def csub_def)
  next
    case ok: False
    then have c4: "8 + 4 * c \<le> n" using False by auto
    then obtain pr where pr: "ScanSuiteLoop p base 4 c 8 False = Some (pr, 8 + 4 * c)"
      using ScanSuiteLoop_safe [of base 8 c p 4 False] assms by auto
    define d where "d = unat (p ! (base + (8 + 4 * c))) + 256 * unat (p ! Suc (base + (8 + 4 * c)))"
    have d: "CywScanU16 p (base + (8 + 4 * c)) = Some d" if "10 + 4 * c \<le> n"
      using that assms by (simp add: d_def)
    show ?thesis
    proof (cases "n - (8 + 4 * c) < 2 \<or> d = 0 \<or> d > (n - (10 + 4 * c)) div 4")
      case True
      with False c g c4 ok pr d show ?thesis by (auto simp: CywScanRsn_def csub_def)
    next
      case last: False
      then have d4: "10 + 4 * c + 4 * d \<le> n" by auto
      then obtain ps where ps: "ScanSuiteLoop p base 2 d (10 + 4 * c) False = Some (ps, 10 + 4 * c + 4 * d)"
        using ScanSuiteLoop_safe [of base "10 + 4 * c" d p 2 False] assms by auto
      have "CywScanRsn p base n = ScanRsnTail p base n (10 + 4 * c + 4 * d) (g \<and> pr \<and> ps)"
        using False c g c4 ok pr d last ps d4 by (auto simp: CywScanRsn_def csub_def)
      then show ?thesis using ScanRsnTail_safe [OF assms d4] by simp
    qed
  qed
qed

text \<open>What the loop over the elements leaves: without an RSN element there is no classification.\<close>

definition rsn_state_ok :: "u32 \<times> bool \<times> bool \<Rightarrow> bool" where
  "rsn_state_ok r \<longleftrightarrow> (case r of (rsn, wpa, seen) \<Rightarrow> rsn \<in> rsn_results \<and> (seen \<or> rsn = 0))"

lemma ScanIeElement_safe:
  assumes "q + len \<le> length p" "rsn_state_ok (rsn, wpa, seen)"
  shows "\<exists>r. ScanIeElement p q ident len rsn wpa seen = Some r \<and> rsn_state_ok r"
  using CywScanRsn_safe [OF assms(1)] assms by (auto simp: ScanIeElement_def rsn_state_ok_def rd8_def)

lemma ScanIeLoop_safe:
  assumes "base + n \<le> length p" "rsn_state_ok (rsn, wpa, seen)"
  shows "\<exists>r. ScanIeLoop p base n off rsn wpa seen = Some r \<and> (r = None \<or> rsn_state_ok (the r))"
  using assms(2)
proof (induction "n - off" arbitrary: off rsn wpa seen rule: less_induct)
  case less
  show ?case
  proof (cases "off + 2 \<le> n")
    case False
    then show ?thesis using less.prems by (subst ScanIeLoop.simps) (auto simp: csub_def)
  next
    case True
    define ident l where "ident = p ! (base + off)" and "l = p ! Suc (base + off)"
    have rd: "rd8 p (base + off) = Some ident" "rd8 p (Suc (base + off)) = Some l"
      "csub n off = Some (n - off)" "csub n (Suc (Suc off)) = Some (n - Suc (Suc off))" "\<not> n - off < 2" "off < n"
      using True assms(1) by (auto simp: rd8_def ident_def l_def csub_def)
    show ?thesis
    proof (cases "unat l > n - Suc (Suc off) \<or> ident = 48 \<and> seen")
      case bad: True
      then have "ScanIeLoop p base n off rsn wpa seen = Some None"
        by (subst ScanIeLoop.simps) (auto simp: rd)
      then show ?thesis by simp
    next
      case False
      then have "Suc (Suc (base + off)) + unat l \<le> length p" using True assms(1) by auto
      from ScanIeElement_safe [OF this less.prems, of ident] obtain rsn' wpa' seen'
        where e: "ScanIeElement p (Suc (Suc (base + off))) ident (unat l) rsn wpa seen = Some (rsn', wpa', seen')"
          and ok: "rsn_state_ok (rsn', wpa', seen')"
        by auto
      have eq: "ScanIeLoop p base n off rsn wpa seen = ScanIeLoop p base n (Suc (Suc off) + unat l) rsn' wpa' seen'"
        using False by (subst ScanIeLoop.simps) (auto simp: rd e)
      show ?thesis
        unfolding eq by (rule less.hyps) (use True ok in auto)
    qed
  qed
qed

text \<open>The classifications that can be reported.\<close>

abbreviation scan_classes :: "u32 set" where
  "scan_classes \<equiv> {CYW_SCAN_SECURITY_OPEN, CYW_SCAN_SECURITY_WPA2_PSK_CCMP, CYW_SCAN_SECURITY_UNSUPPORTED,
     CYW_SCAN_SECURITY_UNSUPPORTED OR CYW_SCAN_SECURITY_MALFORMED_IE,
     CYW_SCAN_SECURITY_UNSUPPORTED OR CYW_SCAN_SECURITY_PMF_REQUIRED}"

lemma CywScanSecurity_safe:
  assumes "base + n \<le> length p"
  shows "\<exists>v \<in> scan_classes. CywScanSecurity cap p base n = Some v \<and>
    (v = CYW_SCAN_SECURITY_WPA2_PSK_CCMP \<longrightarrow> odd cap \<and> even (cap div 2) \<and> odd (cap div 16)) \<and>
    (v = CYW_SCAN_SECURITY_OPEN \<longrightarrow> odd cap \<and> even (cap div 2) \<and> even (cap div 16))"
proof -
  obtain r where "ScanIeLoop p base n 0 0 False False = Some r" "r = None \<or> rsn_state_ok (the r)"
    using ScanIeLoop_safe [OF assms, of 0 False False 0] by (auto simp: rsn_state_ok_def)
  then show ?thesis
    by (cases r) (auto simp: CywScanSecurity_def rsn_state_ok_def Let_def split: if_splits)
qed

section \<open>Accepted entries\<close>

definition scan_entry_ok :: "CYW_SCAN_ENTRY \<Rightarrow> bool" where
  "scan_entry_ok e \<longleftrightarrow> SeSsidLength e \<le> 32 \<and> length (SeSsid e) = 32 \<and>
     (\<forall>i < 32. SeSsidLength e \<le> i \<longrightarrow> SeSsid e ! i = 0) \<and>
     length (SeBssid e) = 6 \<and> SeBssid e ! 0 AND 1 = 0 \<and> SeBssid e \<noteq> replicate 6 0 \<and>
     (SeControlChannel e \<in> {1..14} \<union> {32..196}) \<and> -32768 \<le> SeRssi e \<and> SeRssi e < 32768 \<and>
     (\<exists>c \<in> scan_classes. SeSecurityFlags e = (if SeSsidLength e = 0 then c OR CYW_SCAN_SECURITY_HIDDEN else c))"

lemma ScanEntryBody_safe:
  assumes "b + length' \<le> length p" "128 \<le> length'" "unat (p ! (b + 18)) \<le> 32"
  shows "\<exists>c eo. ScanEntryBody p b length' = Some (c, eo) \<and> (eo \<noteq> None \<longleftrightarrow> c = 1) \<and>
    (\<forall>e. eo = Some e \<longrightarrow> scan_entry_ok e)"
proof -
  let ?sl = "unat (p ! (b + 18))"
  obtain ieoff ielen rssi spec cap where u: "CywScanU16 p (b + 116) = Some ieoff"
    "CywScanU32 p (b + 120) = Some ielen" "CywScanU16 p (b + 78) = Some rssi" "rssi < 65536"
    "CywScanU16 p (b + 72) = Some spec" "CywScanU16 p (b + 16) = Some cap"
  proof -
    have "unat (p ! (b + 78)) + 256 * unat (p ! Suc (b + 78)) < 65536"
      using unat_u8_le [of "p ! (b + 78)"] unat_u8_le [of "p ! Suc (b + 78)"] by linarith
    then show ?thesis
      using that CywScanU32_safe [of "b + 120" p] assms by auto
  qed
  define bssid ssid where "bssid = sub_bytes p (b + 8) 6"
    and "ssid = sub_bytes p (b + 19) ?sl @ replicate (32 - ?sl) 0"
  have r: "rdn p (b + 8) 6 = Some bssid" "rd8 p (b + 18) = Some (p ! (b + 18))"
    "rd8 p (b + 88) = Some (p ! (b + 88))" "rdn p (b + 19) ?sl = Some (sub_bytes p (b + 19) ?sl)"
    "wrn (replicate 32 0) 0 (sub_bytes p (b + 19) ?sl) = Some ssid" "length bssid = 6" "length ssid = 32"
    "\<forall>i < 32. ?sl \<le> i \<longrightarrow> ssid ! i = 0"
    using assms by (auto simp: bssid_def ssid_def wire_simps rdn_def wrn_def nth_append)
  have ctl: "unat c \<in> {1..14} \<union> {32..196}" if "\<not> (c = 0 \<or> c > 196 \<or> c > 14 \<and> c < 32)" for c :: u8
    using that by (auto simp: word_less_nat_alt not_less Suc_le_eq unat_gt_0)
  show ?thesis
  proof (cases "ieoff < 128 \<or> ieoff > length' \<or> ielen > length' - ieoff")
    case True
    then show ?thesis by (auto simp: ScanEntryBody_def u csub_def)
  next
    case False
    then have "b + ieoff + ielen \<le> length p" using assms by linarith
    then obtain v where v: "CywScanSecurity cap p (b + ieoff) ielen = Some v" "v \<in> scan_classes"
      using CywScanSecurity_safe [of "b + ieoff" ielen p cap] by blast
    have 0: "p ! (b + 18) = 0 \<longleftrightarrow> ?sl = 0" by (simp add: unat_eq_0)
    show ?thesis
    proof (cases "bssid ! 0 AND 1 \<noteq> 0 \<or> bssid = replicate 6 0 \<or>
        (let c = p ! (b + 88) in c = 0 \<or> c > 196 \<or> c > 14 \<and> c < 32)")
      case True
      with False show ?thesis by (auto simp: ScanEntryBody_def u r csub_def Let_def)
    next
      case ok: False
      have "scan_entry_ok \<lparr>SeSsidLength = ?sl, SeSsid = ssid, SeBssid = bssid, SeChanspec = word_of_nat spec,
         SeRssi = (if rssi \<ge> 32768 then int rssi - 65536 else int rssi),
         SeSecurityFlags = (if p ! (b + 18) = 0 then v OR CYW_SCAN_SECURITY_HIDDEN else v),
         SeControlChannel = unat (p ! (b + 88))\<rparr>"
        using ok ctl [of "p ! (b + 88)"] assms(3) r(6-8) u(4) v(2) 0
        unfolding scan_entry_ok_def by (auto simp: Let_def)
      with False ok show ?thesis by (simp add: ScanEntryBody_def u r v(1) csub_def Let_def)
    qed
  qed
qed

lemma CywScanParsePartial_spec:
  assumes "n \<le> length p"
  shows "\<exists>c eo. CywScanParsePartial p n sync = Some (c, eo) \<and> (eo \<noteq> None \<longleftrightarrow> c = 1) \<and>
    (\<forall>e. eo = Some e \<longrightarrow> scan_entry_ok e)"
proof (cases "n < 12")
  case True
  then show ?thesis by (simp add: CywScanParsePartial_def)
next
  case False
  have small: "\<exists>v. CywScanU16 p 8 = Some v" "\<exists>v. CywScanU16 p 10 = Some v" "\<exists>v. CywScanU32 p 0 = Some v"
    using False assms CywScanU32_safe [of 0 p] by auto
  then obtain s tot cnt where u: "CywScanU16 p 8 = Some s" "CywScanU32 p 0 = Some tot" "CywScanU16 p 10 = Some cnt"
    by blast
  show ?thesis
  proof (cases "s \<noteq> sync mod 65536 \<or> tot < 140 \<or> tot > n \<or> cnt \<noteq> 1")
    case True
    with False u show ?thesis by (auto simp: CywScanParsePartial_def)
  next
    case ok: False
    then obtain len ver where v: "CywScanU32 p 16 = Some len" "CywScanU32 p 12 = Some ver"
      using CywScanU32_safe [of 16 p] CywScanU32_safe [of 12 p] assms by auto
    have r: "rd8 p 30 = Some (p ! 30)" "csub tot 12 = Some (tot - 12)"
      using ok assms by (auto simp: rd8_def csub_def)
    show ?thesis
    proof (cases "ver \<noteq> 109 \<or> len \<noteq> tot - 12 \<or> p ! 30 > 32")
      case True
      with False ok show ?thesis by (auto simp: CywScanParsePartial_def u v r)
    next
      case good: False
      have "CywScanParsePartial p n sync = ScanEntryBody p 12 len"
        using False ok good by (simp add: CywScanParsePartial_def u v r)
      moreover have "12 + len \<le> length p" "128 \<le> len" "unat (p ! (12 + 18)) \<le> 32"
        using ok good assms by (auto simp: word_less_nat_alt not_less)
      ultimately show ?thesis using ScanEntryBody_safe [of 12 len p] by simp
    qed
  qed
qed



section \<open>The report as a finite map\<close>

text \<open>
  The report promises a partial map from networks (BSSID and SSID) to their most recent entry.
\<close>

definition scan_key :: "CYW_SCAN_ENTRY \<Rightarrow> bytes \<times> bytes" where
  "scan_key e = (SeBssid e, take (SeSsidLength e) (SeSsid e))"

definition scan_list :: "CYW_SCAN_REPORT \<Rightarrow> CYW_SCAN_ENTRY list" where
  "scan_list r = take (SrCount r) (SrEntries r)"

definition scan_abs :: "CYW_SCAN_REPORT \<Rightarrow> (bytes \<times> bytes) \<rightharpoonup> CYW_SCAN_ENTRY" where
  "scan_abs r = map_of (map (\<lambda>e. (scan_key e, e)) (scan_list r))"

definition scan_report_wf :: "CYW_SCAN_REPORT \<Rightarrow> bool" where
  "scan_report_wf r \<longleftrightarrow> length (SrEntries r) = CYW_SCAN_MAX_ENTRIES \<and> SrCount r \<le> CYW_SCAN_MAX_ENTRIES \<and>
     distinct (map scan_key (scan_list r)) \<and> list_all scan_entry_ok (scan_list r)"

lemma scan_entry_ok_lengths: "scan_entry_ok e \<Longrightarrow> SeSsidLength e \<le> length (SeSsid e)"
  by (simp add: scan_entry_ok_def)

lemma ScanSameNetwork_key:
  assumes "scan_entry_ok a" "scan_entry_ok b"
  shows "ScanSameNetwork a b \<longleftrightarrow> scan_key a = scan_key b"
proof -
  have "length (take (SeSsidLength a) (SeSsid a)) = SeSsidLength a"
    "length (take (SeSsidLength b) (SeSsid b)) = SeSsidLength b"
    using assms [THEN scan_entry_ok_lengths] by simp_all
  then show ?thesis unfolding ScanSameNetwork_def scan_key_def by (metis prod.inject)
qed

lemma ScanFind_Some: "ScanFind r e i = Some j \<Longrightarrow> j < SrCount r \<and> ScanSameNetwork (SrEntries r ! j) e"
proof (induction r e i rule: ScanFind.induct)
  case (1 r e i)
  then show ?case by (subst (asm) (2) ScanFind.simps) (simp split: if_splits)
qed

lemma ScanFind_None: "ScanFind r e i = None \<Longrightarrow> i \<le> j \<Longrightarrow> j < SrCount r \<Longrightarrow> \<not> ScanSameNetwork (SrEntries r ! j) e"
proof (induction "SrCount r - i" arbitrary: i)
  case 0
  then show ?case by simp
next
  case (Suc k)
  have "\<not> ScanSameNetwork (SrEntries r ! i) e" "ScanFind r e (i + 1) = None"
    using Suc.hyps(2) Suc.prems(1) by (subst (asm) ScanFind.simps; simp split: if_splits)+
  then show ?case using Suc.hyps(1) [of "i + 1"] Suc.hyps(2) Suc.prems by (cases "j = i") auto
qed

lemma map_of_key_update:
  assumes "distinct (map f xs)" "i < length xs" "f (xs ! i) = f e"
  shows "map_of (map (\<lambda>e. (f e, e)) (xs[i := e])) = (map_of (map (\<lambda>e. (f e, e)) xs))(f e \<mapsto> e)"
  using assms
proof (induction xs arbitrary: i)
  case (Cons a xs)
  show ?case
  proof (cases i)
    case 0
    then show ?thesis using Cons.prems by auto
  next
    case (Suc j)
    then have "f a \<noteq> f e" using Cons.prems by (metis distinct.simps(2) length_Cons less_Suc_eq_0_disj list.map(2)
        nat.inject nth_Cons_Suc nth_map nth_mem length_map Suc_less_eq)
    then show ?thesis using Cons Suc by (auto simp: fun_upd_twist)
  qed
qed simp

lemma CywScanAdd_spec:
  assumes "scan_report_wf r" "scan_entry_ok e"
  shows "scan_report_wf (CywScanAdd r e) \<and>
    (if scan_abs r (scan_key e) \<noteq> None \<or> SrCount r < CYW_SCAN_MAX_ENTRIES
     then scan_abs (CywScanAdd r e) = (scan_abs r)(scan_key e \<mapsto> e) \<and> SrFlags (CywScanAdd r e) = SrFlags r
     else scan_abs (CywScanAdd r e) = scan_abs r \<and> SrFlags (CywScanAdd r e) = SrFlags r OR CYW_SCAN_TRUNCATED)"
proof -
  have len: "length (scan_list r) = SrCount r" "SrCount r \<le> 64" "length (SrEntries r) = 64"
    using assms by (auto simp: scan_report_wf_def scan_list_def)
  have same: "ScanSameNetwork (SrEntries r ! j) e \<longleftrightarrow> scan_key (scan_list r ! j) = scan_key e" if "j < SrCount r" for j
    using that assms len by (subst ScanSameNetwork_key) (auto simp: scan_report_wf_def list_all_length scan_list_def)
  have dom: "scan_abs r (scan_key e) \<noteq> None \<longleftrightarrow> (\<exists>j < SrCount r. scan_key (scan_list r ! j) = scan_key e)"
  proof -
    have "scan_abs r (scan_key e) \<noteq> None \<longleftrightarrow> scan_key e \<in> scan_key ` set (scan_list r)"
      unfolding scan_abs_def by (force simp: map_of_eq_None_iff image_iff)
    also have "\<dots> \<longleftrightarrow> (\<exists>j < SrCount r. scan_key (scan_list r ! j) = scan_key e)"
      by (metis (no_types, lifting) image_iff in_set_conv_nth len(1))
    finally show ?thesis .
  qed
  show ?thesis
  proof (cases "ScanFind r e 0")
    case (Some i)
    have i: "i < SrCount r" "scan_key (scan_list r ! i) = scan_key e"
      using ScanFind_Some [OF Some] same by auto
    have l: "scan_list (CywScanAdd r e) = (scan_list r)[i := e]" "SrFlags (CywScanAdd r e) = SrFlags r"
        "SrCount (CywScanAdd r e) = SrCount r" "length (SrEntries (CywScanAdd r e)) = 64"
      using Some len by (simp_all add: CywScanAdd_def scan_list_def take_update_swap)
    have "map scan_key ((scan_list r)[i := e]) = map scan_key (scan_list r)"
      using i len by (simp add: map_update) (metis list_update_id nth_map)
    moreover have "scan_abs (CywScanAdd r e) = (scan_abs r)(scan_key e \<mapsto> e)"
      unfolding scan_abs_def l using assms i len by (intro map_of_key_update) (auto simp: scan_report_wf_def)
    ultimately show ?thesis
      using assms i l len dom by (auto simp: scan_report_wf_def list_all_iff dest: set_update_subset_insert [THEN subsetD])
  next
    case None
    have new: "scan_key (scan_list r ! j) \<noteq> scan_key e" if "j < SrCount r" for j
      using ScanFind_None [OF None, of j] that same by auto
    then have nd: "scan_abs r (scan_key e) = None" using dom by blast
    show ?thesis
    proof (cases "SrCount r = 64")
      case True
      then have "CywScanAdd r e = r\<lparr>SrFlags := SrFlags r OR 1\<rparr>" using None by (simp add: CywScanAdd_def)
      then show ?thesis
        using assms True nd len(3) by (simp add: scan_report_wf_def scan_abs_def scan_list_def)
    next
      case False
      then have lt: "SrCount r < 64" using len by simp
      have l: "scan_list (CywScanAdd r e) = scan_list r @ [e]" "SrFlags (CywScanAdd r e) = SrFlags r"
          "SrCount (CywScanAdd r e) = SrCount r + 1" "length (SrEntries (CywScanAdd r e)) = 64"
        using None len lt by (simp_all add: CywScanAdd_def scan_list_def take_Suc_conv_app_nth)
      have "scan_key e \<notin> scan_key ` set (scan_list r)" using new len by (metis imageE in_set_conv_nth)
      then have "scan_report_wf (CywScanAdd r e)" using assms l lt by (simp add: scan_report_wf_def)
      moreover have "scan_abs (CywScanAdd r e) = (scan_abs r)(scan_key e \<mapsto> e)"
        using nd by (auto simp: scan_abs_def l map_add_def fun_eq_iff split: option.split)
      ultimately show ?thesis using l lt by simp
    qed
  qed
qed

text \<open>
  C15 (refinement).  On a well-formed report, \<open>CywScanAdd\<close> implements the update of a map with room for
  64 networks: the entry replaces the one of the same network, or is added while there is room; otherwise
  the map stays as it is and the truncation flag is set.  The report stays well formed: at most 64
  entries, no network twice.
\<close>

theorem CywScanAdd_refines_map:
  assumes "scan_report_wf r" "scan_entry_ok e"
  shows "scan_report_wf (CywScanAdd r e) \<and>
    (if scan_abs r (scan_key e) \<noteq> None \<or> SrCount r < CYW_SCAN_MAX_ENTRIES
     then scan_abs (CywScanAdd r e) = (scan_abs r)(scan_key e \<mapsto> e) \<and> SrFlags (CywScanAdd r e) = SrFlags r
     else scan_abs (CywScanAdd r e) = scan_abs r \<and> SrFlags (CywScanAdd r e) = SrFlags r OR CYW_SCAN_TRUNCATED)"
  using assms by (rule CywScanAdd_spec)

definition sample_entry :: CYW_SCAN_ENTRY where
  "sample_entry = \<lparr>SeSsidLength = 1, SeSsid = 65 # replicate 31 0, SeBssid = [2, 0, 0, 0, 0, 1],
     SeChanspec = 0, SeRssi = -40, SeSecurityFlags = 2, SeControlChannel = 36\<rparr>"

definition empty_report :: CYW_SCAN_REPORT where
  "empty_report = \<lparr>SrVersion = 1, SrGeneration = 0, SrState = 0, SrStatus = 0, SrCount = 0, SrFlags = 0,
     SrCountry = 0, SrFirmwareError = 0, SrEntries = replicate 64 sample_entry\<rparr>"

theorem CywScanAdd_refines_map_witness:
  "scan_abs (CywScanAdd empty_report sample_entry) = [scan_key sample_entry \<mapsto> sample_entry]"
proof -
  have "scan_report_wf empty_report" by (simp add: scan_report_wf_def empty_report_def scan_list_def)
  moreover have "scan_entry_ok sample_entry"
    by (auto simp: scan_entry_ok_def sample_entry_def nth_Cons' numeral_eq_Suc)
  ultimately show ?thesis
    using CywScanAdd_refines_map [of empty_report sample_entry]
    by (simp add: scan_abs_def scan_list_def empty_report_def)
qed

end
