(* ===== verification/Sdio_Protocol.thy ===== *)
theory Sdio_Protocol
  imports Cyw_Prelude
begin

text \<open>
  The pure SDIO helpers of \<open>src/src/sdio/sdio_protocol.h\<close>: validation of byte-mode reads,
  the CMD52 and CMD53 arguments, the R4 and R5 response tests, the SDHCI clock divider
  and the gate of standard high-speed timing.
\<close>

section \<open>Arguments, responses, clock divider\<close>

abbreviation (input) "SDIO_CMD53_ADDRESS_MASK \<equiv> (0x1FFFF :: u32)"
abbreviation (input) "SDIO_CMD53_COUNT_MASK \<equiv> (0x1FF :: u32)"
abbreviation (input) "SDIO_R5_ERROR_MASK \<equiv> (0xCB00 :: u32)"

definition SdioIsValidByteRead :: "u8 \<Rightarrow> u32 \<Rightarrow> u32 \<Rightarrow> bool" where
  "SdioIsValidByteRead Function Address Length \<longleftrightarrow>
     Function \<ge> 1 \<and> Function \<le> 7 \<and> Length \<ge> 1 \<and> Length \<le> 512 \<and>
     Address \<le> SDIO_CMD53_ADDRESS_MASK \<and>
     (Length - 1) \<le> SDIO_CMD53_ADDRESS_MASK - Address"

definition SdioLoadLe32 :: "bytes \<Rightarrow> nat \<Rightarrow> u32 option" where
  "SdioLoadLe32 p off = do {
     a \<leftarrow> rd8 p off; b \<leftarrow> rd8 p (off + 1); c \<leftarrow> rd8 p (off + 2); d \<leftarrow> rd8 p (off + 3);
     Some (le32 a b c d) }"

definition SdioBuildCmd52Argument :: "bool \<Rightarrow> u8 \<Rightarrow> bool \<Rightarrow> u32 \<Rightarrow> u8 \<Rightarrow> u32" where
  "SdioBuildCmd52Argument Write Function Raw Address Data =
     (if Write then push_bit 31 1 else 0) OR
     push_bit 28 (ucast (Function AND 7)) OR
     (if Raw then push_bit 27 1 else 0) OR
     push_bit 9 (Address AND SDIO_CMD53_ADDRESS_MASK) OR
     ucast Data"

definition SdioBuildCmd53Argument :: "bool \<Rightarrow> u8 \<Rightarrow> bool \<Rightarrow> bool \<Rightarrow> u32 \<Rightarrow> u32 \<Rightarrow> u32" where
  "SdioBuildCmd53Argument Write Function BlockMode IncrementAddress Address Count =
     (if Write then push_bit 31 1 else 0) OR
     push_bit 28 (ucast (Function AND 7)) OR
     (if BlockMode then push_bit 27 1 else 0) OR
     (if IncrementAddress then push_bit 26 1 else 0) OR
     push_bit 9 (Address AND SDIO_CMD53_ADDRESS_MASK) OR
     (Count AND SDIO_CMD53_COUNT_MASK)"

definition SdioR5HasError :: "u32 \<Rightarrow> bool" where
  "SdioR5HasError Response \<longleftrightarrow> Response AND SDIO_R5_ERROR_MASK \<noteq> 0"

definition SdioGetCmd5CycleClockKhz :: "u32 \<Rightarrow> u32" where
  "SdioGetCmd5CycleClockKhz CycleIndex =
     (let ClockIndex = CycleIndex div 3 in
      if ClockIndex \<ge> 3 then 0 else [400, 200, 100] ! unat ClockIndex)"

definition SdioR4HasBasicInfo :: "u32 \<Rightarrow> bool" where
  "SdioR4HasBasicInfo Response \<longleftrightarrow>
     Response AND 0x70000000 \<noteq> 0 \<and> Response AND 0x00FF8000 \<noteq> 0"

definition SdioR4IsReady :: "u32 \<Rightarrow> bool" where
  "SdioR4IsReady Response \<longleftrightarrow> SdioR4HasBasicInfo Response \<and> Response AND 0x80000000 \<noteq> 0"

text \<open>
  The divider loop.  The product \<open>(unsigned long long)TargetClockKhz * RealDivisor\<close> is below
  \<open>2^32 * 2046\<close> and exact in 64 bits, so it is computed on natural numbers.
\<close>

function SdioDividerLoop :: "u32 \<Rightarrow> u32 \<Rightarrow> nat \<Rightarrow> nat" where
  "SdioDividerLoop BaseClockKhz TargetClockKhz RealDivisor =
     (if RealDivisor < 2046
      then if unat BaseClockKhz \<le> unat TargetClockKhz * RealDivisor then RealDivisor
           else SdioDividerLoop BaseClockKhz TargetClockKhz (RealDivisor + 2)
      else RealDivisor)"
  by pat_completeness auto
termination
  by (relation "measure (\<lambda>(b, t, r). 2046 - r)") auto

declare SdioDividerLoop.simps [simp del]

definition SdioCalculateClockDivider :: "u32 \<Rightarrow> u32 \<Rightarrow> u16" where
  "SdioCalculateClockDivider BaseClockKhz TargetClockKhz =
     (if BaseClockKhz = 0 \<or> TargetClockKhz = 0 \<or> BaseClockKhz \<le> TargetClockKhz then 0
      else let RealDivisor = SdioDividerLoop BaseClockKhz TargetClockKhz 2;
               RealDivisor = (if RealDivisor \<ge> 2046 then 2046 else RealDivisor)
           in word_of_nat (RealDivisor div 2))"

section \<open>High-speed gate\<close>

abbreviation (input) "SDIO_HS_REJECT_HOST_VERSION \<equiv> (0x01 :: u32)"
abbreviation (input) "SDIO_HS_REJECT_HOST_CAP \<equiv> (0x02 :: u32)"
abbreviation (input) "SDIO_HS_REJECT_BASE_CLOCK \<equiv> (0x04 :: u32)"
abbreviation (input) "SDIO_HS_REJECT_HOST_MODE \<equiv> (0x08 :: u32)"
abbreviation (input) "SDIO_HS_REJECT_CCCR_VERSION \<equiv> (0x10 :: u32)"
abbreviation (input) "SDIO_HS_REJECT_CARD_CAP \<equiv> (0x20 :: u32)"
abbreviation (input) "SDIO_HS_REJECT_CARD_MODE \<equiv> (0x40 :: u32)"
abbreviation (input) "SDIO_HS_REJECT_NO_INCREASE \<equiv> (0x80 :: u32)"

definition SdioHighSpeedRejectReason :: "u32 \<Rightarrow> u32 \<Rightarrow> u16 \<Rightarrow> u8 \<Rightarrow> u8 \<Rightarrow> u32" where
  "SdioHighSpeedRejectReason HostVersion Capabilities HostControl2 CccrRevision CardSpeed =
     (let Reason = 0;
          Reason = (if HostVersion AND 0xff \<noteq> 2
                    then Reason OR SDIO_HS_REJECT_HOST_VERSION else Reason);
          Reason = (if Capabilities AND 0x00200000 = 0
                    then Reason OR SDIO_HS_REJECT_HOST_CAP else Reason);
          Reason = (if Capabilities AND 0x0000ff00 = 0
                    then Reason OR SDIO_HS_REJECT_BASE_CLOCK else Reason);
          Reason = (if HostControl2 AND 0x90cf \<noteq> 0
                    then Reason OR SDIO_HS_REJECT_HOST_MODE else Reason);
          Reason = (if CccrRevision AND 15 < 2 \<or> CccrRevision AND 15 > 3
                    then Reason OR SDIO_HS_REJECT_CCCR_VERSION else Reason);
          Reason = (if CardSpeed AND 1 = 0
                    then Reason OR SDIO_HS_REJECT_CARD_CAP else Reason);
          Reason = (if CardSpeed AND 14 \<noteq> 0
                    then Reason OR SDIO_HS_REJECT_CARD_MODE else Reason)
      in if Reason \<noteq> 0 then Reason
         else let BaseKhz = (drop_bit 8 Capabilities AND 255) * 1000;
                  Divider = SdioCalculateClockDivider BaseKhz 50000;
                  ActualKhz = (if Divider \<noteq> 0 then BaseKhz div (2 * ucast Divider) else BaseKhz)
              in if ActualKhz > 25000 \<and> ActualKhz \<le> 50000 then 0 else SDIO_HS_REJECT_NO_INCREASE)"

definition SdioCanUseHighSpeed :: "u32 \<Rightarrow> u32 \<Rightarrow> u16 \<Rightarrow> u8 \<Rightarrow> u8 \<Rightarrow> bool" where
  "SdioCanUseHighSpeed HostVersion Capabilities HostControl2 CccrRevision CardSpeed \<longleftrightarrow>
     SdioHighSpeedRejectReason HostVersion Capabilities HostControl2 CccrRevision CardSpeed = 0"

section \<open>The fields of a CMD53 argument\<close>

text \<open>
  The reader's side of CMD53, from the SDIO specification: R/W flag 31, function 30..28, block
  mode 27, OP code 26, register address 25..9, byte or block count 8..0.
\<close>

definition cmd53_fields :: "u32 \<Rightarrow> bool \<times> u32 \<times> bool \<times> bool \<times> u32 \<times> u32" where
  "cmd53_fields arg = (bit arg 31, drop_bit 28 arg AND 7, bit arg 27, bit arg 26,
     drop_bit 9 arg AND SDIO_CMD53_ADDRESS_MASK, arg AND SDIO_CMD53_COUNT_MASK)"

lemma mask_words:
  "(7::u32) = mask 3" "(7::u8) = mask 3" "SDIO_CMD53_ADDRESS_MASK = mask 17" "SDIO_CMD53_COUNT_MASK = mask 9"
  by (simp_all add: mask_eq_exp_minus_1)

lemma bit_flag: "bit (if w then push_bit k (1::u32) else 0) n \<longleftrightarrow> w \<and> n = k \<and> k < 32"
  by (auto simp: bit_simps)

lemma bit_Cmd53Argument:
  "bit (SdioBuildCmd53Argument w f b i a c) n \<longleftrightarrow>
     w \<and> n = 31 \<or> 28 \<le> n \<and> n < 31 \<and> bit f (n - 28) \<or> b \<and> n = 27 \<or> i \<and> n = 26 \<or>
     9 \<le> n \<and> n < 26 \<and> bit a (n - 9) \<or> n < 9 \<and> bit c n"
proof -
  have "bit (push_bit 28 (ucast (f AND mask 3)) :: u32) n \<longleftrightarrow> 28 \<le> n \<and> n < 31 \<and> bit f (n - 28)"
    by (auto simp: bit_simps)
  moreover have "bit (push_bit 9 (a AND mask 17)) n \<longleftrightarrow> 9 \<le> n \<and> n < 26 \<and> bit a (n - 9)"
    by (auto simp: bit_simps)
  moreover have "bit (c AND mask 9) n \<longleftrightarrow> n < 9 \<and> bit c n"
    by (auto simp: bit_simps)
  ultimately show ?thesis
    unfolding SdioBuildCmd53Argument_def bit_or_iff bit_flag mask_words by simp
qed

lemma cmd53_roundtrip_aux:
  "cmd53_fields (SdioBuildCmd53Argument w f b i a c) =
     (w, ucast (f AND 7), b, i, a AND SDIO_CMD53_ADDRESS_MASK, c AND SDIO_CMD53_COUNT_MASK)"
proof -
  have "drop_bit 28 (SdioBuildCmd53Argument w f b i a c) AND 7 = ucast (f AND 7)"
    unfolding mask_words by (rule bit_word_eqI) (auto simp: bit_simps bit_Cmd53Argument)
  moreover have "drop_bit 9 (SdioBuildCmd53Argument w f b i a c) AND SDIO_CMD53_ADDRESS_MASK =
      a AND SDIO_CMD53_ADDRESS_MASK"
    unfolding mask_words by (rule bit_word_eqI) (auto simp: bit_simps bit_Cmd53Argument)
  moreover have "SdioBuildCmd53Argument w f b i a c AND SDIO_CMD53_COUNT_MASK =
      c AND SDIO_CMD53_COUNT_MASK"
    unfolding mask_words by (rule bit_word_eqI) (auto simp: bit_simps bit_Cmd53Argument)
  ultimately show ?thesis
    by (simp add: cmd53_fields_def bit_Cmd53Argument)
qed

section \<open>The divider is the least one that does not overclock the card\<close>

lemma SdioDividerLoop_spec:
  assumes "even r" "2 \<le> r" "r \<le> 2046"
    and "\<And>s. even s \<Longrightarrow> 2 \<le> s \<Longrightarrow> s < r \<Longrightarrow> unat T * s < unat B"
  shows "even (SdioDividerLoop B T r) \<and> 2 \<le> SdioDividerLoop B T r \<and> SdioDividerLoop B T r \<le> 2046 \<and>
    (SdioDividerLoop B T r < 2046 \<longrightarrow> unat B \<le> unat T * SdioDividerLoop B T r) \<and>
    (\<forall>s. even s \<longrightarrow> 2 \<le> s \<longrightarrow> s < SdioDividerLoop B T r \<longrightarrow> unat T * s < unat B)"
  using assms
proof (induction B T r rule: SdioDividerLoop.induct)
  case (1 B T r)
  show ?case
  proof (cases "r < 2046 \<and> \<not> unat B \<le> unat T * r")
    case True
    have below: "unat T * s < unat B" if "even s" "2 \<le> s" "s < r + 2" for s
    proof (cases "s < r")
      case True
      with that "1.prems" show ?thesis by blast
    next
      case False
      with that \<open>even r\<close> have "s = r" by (auto elim!: evenE)
      with True show ?thesis by simp
    qed
    have "even (r + 2)" "2 \<le> r + 2" using "1.prems" by simp_all
    moreover have "r + 2 \<le> 2046"
      using True \<open>even r\<close> by (auto elim!: evenE)
    ultimately show ?thesis
      using "1.IH" True below by (subst (1 2 3 4 5 6) SdioDividerLoop.simps) auto
  next
    case False
    with "1.prems" show ?thesis
      by (subst (1 2 3 4 5 6) SdioDividerLoop.simps) auto
  qed
qed

lemma SdioCalculateClockDivider_spec:
  assumes "0 < TargetClockKhz" and "TargetClockKhz < BaseClockKhz"
  shows "let d = unat (SdioCalculateClockDivider BaseClockKhz TargetClockKhz) in
    1 \<le> d \<and> d \<le> 1023 \<and>
    (d < 1023 \<longrightarrow> unat BaseClockKhz \<le> unat TargetClockKhz * (2 * d)) \<and>
    (\<forall>e. 1 \<le> e \<longrightarrow> e < d \<longrightarrow> unat TargetClockKhz * (2 * e) < unat BaseClockKhz)"
proof -
  define r where "r = SdioDividerLoop BaseClockKhz TargetClockKhz 2"
  have spec: "even r" "2 \<le> r" "r \<le> 2046"
    "r < 2046 \<longrightarrow> unat BaseClockKhz \<le> unat TargetClockKhz * r"
    "\<forall>s. even s \<longrightarrow> 2 \<le> s \<longrightarrow> s < r \<longrightarrow> unat TargetClockKhz * s < unat BaseClockKhz"
    using SdioDividerLoop_spec [of 2 TargetClockKhz BaseClockKhz] unfolding r_def by auto
  obtain d where d: "r = 2 * d" using spec(1) by blast
  have "unat (SdioCalculateClockDivider BaseClockKhz TargetClockKhz) = d"
    using assms spec(3) by (auto simp: SdioCalculateClockDivider_def Let_def d r_def [symmetric]
        unat_of_nat not_le word_gt_0)
  moreover have "unat TargetClockKhz * (2 * e) < unat BaseClockKhz" if "1 \<le> e" "e < d" for e
    using spec(5) that d by (metis dvd_triv_left mult_le_mono2 mult_less_cancel1 nat_mult_1_right zero_less_numeral)
  ultimately show ?thesis
    using spec(2,3,4) d by (auto simp: Let_def)
qed

text \<open>
  C12 (functional).  For a reachable target clock below the base clock the SDHCI divider \<open>d\<close> is
  between 1 and 1023, the divided clock does not exceed the target unless the largest
  divider has been reached, and no smaller divider has this property.
\<close>

theorem SdioCalculateClockDivider_least:
  assumes "0 < TargetClockKhz" and "TargetClockKhz < BaseClockKhz"
  shows "let d = unat (SdioCalculateClockDivider BaseClockKhz TargetClockKhz) in
    1 \<le> d \<and> d \<le> 1023 \<and>
    (d < 1023 \<longrightarrow> unat BaseClockKhz \<le> unat TargetClockKhz * (2 * d)) \<and>
    (\<forall>e. 1 \<le> e \<longrightarrow> e < d \<longrightarrow> unat TargetClockKhz * (2 * e) < unat BaseClockKhz)"
  using assms by (rule SdioCalculateClockDivider_spec)

theorem SdioCalculateClockDivider_least_witness:
  "let d = unat (SdioCalculateClockDivider 200000 400) in
    1 \<le> d \<and> d \<le> 1023 \<and> (d < 1023 \<longrightarrow> unat (200000::u32) \<le> unat (400::u32) * (2 * d)) \<and>
    (\<forall>e. 1 \<le> e \<longrightarrow> e < d \<longrightarrow> unat (400::u32) * (2 * e) < unat (200000::u32))"
  by (rule SdioCalculateClockDivider_least) simp_all

section \<open>High speed needs every host and card gate\<close>

definition high_speed_khz :: "u32 \<Rightarrow> u32" where
  "high_speed_khz Capabilities =
     (let base = (drop_bit 8 Capabilities AND 255) * 1000;
          d = SdioCalculateClockDivider base 50000
      in if d \<noteq> 0 then base div (2 * ucast d) else base)"

text \<open>
  High-speed timing is selected only for an SDHCI 3.0 host that advertises
  high speed and a base clock and is not in a UHS, 1.8 V or preset mode, with a CCCR
  revision 2 or 3 card that supports high speed and has no other bus speed selected, and
  only if the divided clock is a real increase that stays within 50 MHz.
\<close>

theorem SdioCanUseHighSpeed_iff:
  "SdioCanUseHighSpeed HostVersion Capabilities HostControl2 CccrRevision CardSpeed \<longleftrightarrow>
     HostVersion AND 0xff = 2 \<and> Capabilities AND 0x00200000 \<noteq> 0 \<and>
     Capabilities AND 0x0000ff00 \<noteq> 0 \<and> HostControl2 AND 0x90cf = 0 \<and>
     2 \<le> CccrRevision AND 15 \<and> CccrRevision AND 15 \<le> 3 \<and>
     CardSpeed AND 1 \<noteq> 0 \<and> CardSpeed AND 14 = 0 \<and>
     25000 < high_speed_khz Capabilities \<and> high_speed_khz Capabilities \<le> 50000"
  unfolding SdioCanUseHighSpeed_def SdioHighSpeedRejectReason_def high_speed_khz_def Let_def
  by (simp add: not_less)

end
