(* ===== verification/Policies.thy ===== *)
theory Policies
  imports Cyw_Prelude
begin

text \<open>
  The pure policies and counters of the bus worker: saturating counters (\<open>driver/timing.h\<close>,
  \<open>timing_clock.h\<close>, \<open>cyw43455/tx_credit_diag.h\<close>), the interrupt-storm policy
  (\<open>driver/interrupt_policy.h\<close>), the one-shot recovery policy (\<open>runtime_recovery.h\<close>), the bounded
  fast retry of an exhausted credit window (\<open>tx_retry.h\<close>) and the traffic counters
  (\<open>driver/traffic_stats.h\<close>).  Flags of type \<open>unsigned\<close> are booleans, other fields keep their width.
\<close>

section \<open>Saturating counters\<close>

text \<open>What the counters rely on; the source has the addition three times under different names.\<close>

locale saturating_counter =
  fixes add :: "u64 \<Rightarrow> u64 \<Rightarrow> u64"
  assumes add_eq: "add a b = (if - 1 - a < b then - 1 else a + b)"
begin

lemma unat_add: "unat (add a b) = min (2 ^ 64 - 1) (unat a + unat b)"
proof -
  have u: "unat (- 1 - a) = 2 ^ 64 - 1 - unat a"
    using word_n1_ge [of a] by (simp add: unat_sub unsigned_minus_1_eq_mask mask_eq_exp_minus_1)
  have a: "unat a \<le> 2 ^ 64 - 1" by simp
  show ?thesis
  proof (cases "- 1 - a < b")
    case True
    then have "2 ^ 64 - 1 - unat a < unat b" unfolding word_less_nat_alt u .
    then show ?thesis using True a by (simp add: add_eq unsigned_minus_1_eq_mask mask_eq_exp_minus_1 min_def)
  next
    case False
    then have "unat b \<le> 2 ^ 64 - 1 - unat a" unfolding not_less word_le_nat_alt u .
    then have "unat b \<le> 18446744073709551615 - unat a" by simp
    then have "unat a + unat b \<le> 18446744073709551615" using unat_u64_le [of a] by linarith
    then have "unat a + unat b < 2 ^ 64" by simp
    then show ?thesis using False by (simp add: add_eq unat_add_no_wrap)
  qed
qed

lemma add_mono_left: "a \<le> add a b"
  by (simp add: word_le_nat_alt unat_add)

lemma add_mono: "a \<le> c \<Longrightarrow> b \<le> d \<Longrightarrow> add a b \<le> add c d"
  by (simp add: word_le_nat_alt unat_add)

lemma add_right: "b \<le> add a b"
  by (simp add: word_le_nat_alt unat_add)

end

definition CywTimingAdd :: "u64 \<Rightarrow> u64 \<Rightarrow> u64" where
  "CywTimingAdd A B = (if (- 1) - A < B then - 1 else A + B)"

definition CywTxDiagAdd :: "u64 \<Rightarrow> u64 \<Rightarrow> u64" where
  "CywTxDiagAdd A B = (if NOT 0 - A < B then NOT 0 else A + B)"

interpretation timing: saturating_counter CywTimingAdd
  by unfold_locales (simp add: CywTimingAdd_def)

interpretation txdiag: saturating_counter CywTxDiagAdd
  by unfold_locales (simp add: CywTxDiagAdd_def)

section \<open>Timing buckets\<close>

record CYW_TIMING_BUCKET =
  TbCount :: u64
  TbTotalTicks :: u64
  TbMaxTicks :: u64
  TbAtLeast10ms :: u64
  TbAtLeast100ms :: u64

record CYW_TIMING =
  TmVersion :: u64
  TmBucketCount :: u64
  TmFrequency :: u64
  TmSessionQpc :: u64
  TmSnapshotQpc :: u64
  TmActiveMask :: u64
  TmBucket :: "CYW_TIMING_BUCKET list"
  TmTenMsTicks :: u64
  TmHundredMsTicks :: u64
  TmEnabled :: bool

definition CywTimeCount :: nat where
  "CywTimeCount = 13"

text \<open>\<open>detailed\<close> is the build option \<open>RPI5CYW_DETAILED_TIMING\<close>.\<close>

definition CYW_TIMING_ACTIVE_MASK :: "bool \<Rightarrow> u64" where
  "CYW_TIMING_ACTIVE_MASK detailed = (if detailed then 0x1FFF else 0x107F)"

definition CywTimingBucketEnabled :: "bool \<Rightarrow> CYW_TIMING \<Rightarrow> nat \<Rightarrow> bool" where
  "CywTimingBucketEnabled detailed T bucket \<longleftrightarrow> TmEnabled T \<and> bucket < CywTimeCount \<and>
     CYW_TIMING_ACTIVE_MASK detailed AND push_bit bucket 1 \<noteq> 0 \<and> TmActiveMask T AND push_bit bucket 1 \<noteq> 0"

definition BucketRecord :: "u64 \<Rightarrow> u64 \<Rightarrow> u64 \<Rightarrow> CYW_TIMING_BUCKET \<Rightarrow> CYW_TIMING_BUCKET" where
  "BucketRecord ten hundred delta B = B\<lparr>
     TbCount := CywTimingAdd (TbCount B) 1,
     TbTotalTicks := CywTimingAdd (TbTotalTicks B) delta,
     TbMaxTicks := (if delta > TbMaxTicks B then delta else TbMaxTicks B),
     TbAtLeast10ms := (if delta \<ge> ten then CywTimingAdd (TbAtLeast10ms B) 1 else TbAtLeast10ms B),
     TbAtLeast100ms := (if delta \<ge> hundred then CywTimingAdd (TbAtLeast100ms B) 1 else TbAtLeast100ms B)\<rparr>"

definition CywTimingRecord :: "bool \<Rightarrow> nat \<Rightarrow> u64 \<Rightarrow> u64 \<Rightarrow> CYW_TIMING \<Rightarrow> CYW_TIMING" where
  "CywTimingRecord detailed bucket start end' T =
    (if \<not> CywTimingBucketEnabled detailed T bucket \<or> TmFrequency T = 0 \<or> end' < start then T
     else T\<lparr>TmBucket := (TmBucket T)[bucket :=
       BucketRecord (TmTenMsTicks T) (TmHundredMsTicks T) (end' - start) (TmBucket T ! bucket)]\<rparr>)"

definition zero_bucket :: CYW_TIMING_BUCKET where
  "zero_bucket = \<lparr>TbCount = 0, TbTotalTicks = 0, TbMaxTicks = 0, TbAtLeast10ms = 0, TbAtLeast100ms = 0\<rparr>"

text \<open>The frequency and the counter \<open>now\<close> are what \<open>KeQueryPerformanceCounter\<close> returned, as signed 64-bit numbers.\<close>

definition CywTimingStart :: "bool \<Rightarrow> u64 \<Rightarrow> u64 \<Rightarrow> CYW_TIMING" where
  "CywTimingStart detailed frequency now =
    (let T = \<lparr>TmVersion = 2, TmBucketCount = of_nat CywTimeCount, TmFrequency = 0, TmSessionQpc = 0, TmSnapshotQpc = 0,
        TmActiveMask = CYW_TIMING_ACTIVE_MASK detailed, TmBucket = replicate CywTimeCount zero_bucket,
        TmTenMsTicks = 0, TmHundredMsTicks = 0, TmEnabled = False\<rparr>
     in if sint frequency > 0
        then T\<lparr>TmFrequency := frequency,
          TmTenMsTicks := frequency div 100 + (if frequency mod 100 \<noteq> 0 then 1 else 0),
          TmHundredMsTicks := frequency div 10 + (if frequency mod 10 \<noteq> 0 then 1 else 0),
          TmSessionQpc := now, TmEnabled := True\<rparr>
        else T)"

definition CywTimingBegin :: "CYW_TIMING \<Rightarrow> u64 \<Rightarrow> u64" where
  "CywTimingBegin T now = (if TmEnabled T then now else 0)"

definition CywTimingBeginBucket :: "bool \<Rightarrow> CYW_TIMING \<Rightarrow> nat \<Rightarrow> u64 \<Rightarrow> u64" where
  "CywTimingBeginBucket detailed T bucket now =
    (if CywTimingBucketEnabled detailed T bucket then CywTimingBegin T now else 0)"

definition CywTimingEnd :: "bool \<Rightarrow> nat \<Rightarrow> u64 \<Rightarrow> u64 \<Rightarrow> CYW_TIMING \<Rightarrow> CYW_TIMING" where
  "CywTimingEnd detailed bucket start now T =
    (if CywTimingBucketEnabled detailed T bucket
     then CywTimingRecord detailed bucket start (CywTimingBegin T now) T else T)"

section \<open>Interrupt storms\<close>

definition CywInterruptPendingFunctions :: "u32 \<Rightarrow> u32" where
  "CywInterruptPendingFunctions pending = pending AND 6"

definition CywInterruptNextEmptyWakeStreak :: "bool \<Rightarrow> bool \<Rightarrow> u32 \<Rightarrow> u32 \<Rightarrow> u32" where
  "CywInterruptNextEmptyWakeStreak interruptWake usefulWork pending current =
    (if \<not> interruptWake then current
     else if usefulWork \<or> CywInterruptPendingFunctions pending \<noteq> 0 then 0
     else if current < 32 then current + 1 else current)"

definition CywInterruptUsePollingFallback :: "u32 \<Rightarrow> bool" where
  "CywInterruptUsePollingFallback streak \<longleftrightarrow> streak \<ge> 32"

section \<open>Recovery\<close>

definition CywRuntimeRecoveryEligible :: "bool \<Rightarrow> bool \<Rightarrow> bool \<Rightarrow> u32 \<Rightarrow> NTSTATUS \<Rightarrow> bool \<Rightarrow> bool" where
  "CywRuntimeRecoveryEligible runtimeReady stop paused attempts status fifoFailed =
    (if \<not> runtimeReady \<or> stop \<or> paused \<or> attempts \<ge> 1 then False
     else if status = STATUS_IO_TIMEOUT \<or> status = STATUS_IO_DEVICE_ERROR then True
     else fifoFailed \<and> status = STATUS_INVALID_DEVICE_STATE)"

section \<open>Fast retry of an exhausted credit window\<close>

record CYW_TX_RETRY =
  RtEpisodeActive :: bool
  RtFastAttempts :: u32
  RtBackoffLatched :: bool
  RtHaveNow :: bool
  RtPendingFastWait :: bool
  RtFollowUp :: bool
  RtEpisodeStart100ns :: u64
  RtLastNow100ns :: u64
  RtFastRequests :: u32
  RtBackoffRequests :: u32
  RtIdleRequests :: u32
  RtFastResumes :: u32
  RtFastTimeouts :: u32
  RtFastWakes :: u32
  RtActualFastWait100ns :: u64
  RtMaxFastWait100ns :: u64

definition CywTxRetryIncrement :: "u32 \<Rightarrow> u32" where
  "CywTxRetryIncrement v = (if v \<noteq> NOT 0 then v + 1 else v)"

definition CywTxRetryReset :: "CYW_TX_RETRY \<Rightarrow> CYW_TX_RETRY" where
  "CywTxRetryReset S = S\<lparr>RtEpisodeActive := False, RtFastAttempts := 0, RtBackoffLatched := False, RtHaveNow := False,
     RtPendingFastWait := False, RtFollowUp := False, RtEpisodeStart100ns := 0, RtLastNow100ns := 0\<rparr>"

text \<open>The part of the selection before the decision, and the decision.\<close>

definition RetryObserve :: "u64 \<Rightarrow> bool \<Rightarrow> bool \<Rightarrow> CYW_TX_RETRY \<Rightarrow> CYW_TX_RETRY" where
  "RetryObserve now txProgress eligible S =
    (let rollback = (RtHaveNow S \<and> now < RtLastNow100ns S);
         S = (if RtFollowUp S \<and> txProgress then S\<lparr>RtFastResumes := CywTxRetryIncrement (RtFastResumes S)\<rparr> else S);
         S = S\<lparr>RtFollowUp := False, RtPendingFastWait := False\<rparr>;
         S = (if txProgress \<or> \<not> eligible then CywTxRetryReset S else S);
         S = S\<lparr>RtHaveNow := True, RtLastNow100ns := now\<rparr>
     in if rollback then S\<lparr>RtEpisodeActive := True, RtBackoffLatched := True, RtEpisodeStart100ns := now\<rparr> else S)"

definition CywTxRetrySelect :: "u64 \<Rightarrow> bool \<Rightarrow> bool \<Rightarrow> bool \<Rightarrow> CYW_TX_RETRY \<Rightarrow> nat \<times> CYW_TX_RETRY" where
  "CywTxRetrySelect now txProgress rxProgress eligible S =
    (let S = RetryObserve now txProgress eligible S in
     if txProgress \<or> rxProgress then (0, S)
     else if \<not> eligible then (10, S\<lparr>RtIdleRequests := CywTxRetryIncrement (RtIdleRequests S)\<rparr>)
     else
       let S = (if \<not> RtEpisodeActive S then S\<lparr>RtEpisodeActive := True, RtEpisodeStart100ns := now\<rparr> else S) in
       if RtBackoffLatched S \<or> RtFastAttempts S \<ge> 4 \<or> now - RtEpisodeStart100ns S \<ge> 200000
       then (10, S\<lparr>RtBackoffLatched := True, RtBackoffRequests := CywTxRetryIncrement (RtBackoffRequests S)\<rparr>)
       else (1, S\<lparr>RtFastAttempts := RtFastAttempts S + 1, RtPendingFastWait := True,
              RtFastRequests := CywTxRetryIncrement (RtFastRequests S)\<rparr>))"

definition CywTxRetryRecordWait :: "u64 \<Rightarrow> u64 \<Rightarrow> bool \<Rightarrow> CYW_TX_RETRY \<Rightarrow> CYW_TX_RETRY" where
  "CywTxRetryRecordWait start end' timedOut S =
    (if \<not> RtPendingFastWait S then S
     else
       let S = S\<lparr>RtPendingFastWait := False, RtFollowUp := True\<rparr>;
           S = (if timedOut then S\<lparr>RtFastTimeouts := CywTxRetryIncrement (RtFastTimeouts S)\<rparr>
                else S\<lparr>RtFastWakes := CywTxRetryIncrement (RtFastWakes S)\<rparr>)
       in
       if end' < start \<or> (RtHaveNow S \<and> start < RtLastNow100ns S)
       then S\<lparr>RtBackoffLatched := True, RtHaveNow := True, RtLastNow100ns := end'\<rparr>
       else
         let elapsed = end' - start;
             S = S\<lparr>RtActualFastWait100ns :=
                   (if elapsed > NOT 0 - RtActualFastWait100ns S then NOT 0 else RtActualFastWait100ns S + elapsed),
                 RtMaxFastWait100ns := (if elapsed > RtMaxFastWait100ns S then elapsed else RtMaxFastWait100ns S),
                 RtHaveNow := True, RtLastNow100ns := end'\<rparr>
         in if RtEpisodeActive S \<and> (end' < RtEpisodeStart100ns S \<or> end' - RtEpisodeStart100ns S \<ge> 200000)
            then S\<lparr>RtBackoffLatched := True\<rparr> else S)"

section \<open>Traffic counters\<close>

text \<open>Frames and bytes by direction (receive, transmit) and group (unicast, multicast, broadcast).\<close>

record CYW_TRAFFIC_STATS =
  TsFrames :: "u64 list list"
  TsBytes :: "u64 list list"

fun TrafficGroupLoop :: "nat \<Rightarrow> bytes \<Rightarrow> nat option" where
  "TrafficGroupLoop 0 p = Some 2"
| "TrafficGroupLoop (Suc k) p = do {
     b \<leftarrow> rd8 p (5 - k);
     if b \<noteq> 255 then Some 1 else TrafficGroupLoop k p }"

definition CywTrafficFrame :: "nat \<Rightarrow> bytes \<Rightarrow> nat \<Rightarrow> CYW_TRAFFIC_STATS \<Rightarrow> CYW_TRAFFIC_STATS option" where
  "CywTrafficFrame tx p n s =
    (if n < 14 \<or> tx > 1 then Some s else do {
       b \<leftarrow> rd8 p 0;
       group \<leftarrow> (if b AND 1 \<noteq> 0 then TrafficGroupLoop 6 p else Some 0);
       Some (s\<lparr>TsFrames := (TsFrames s)[tx := (TsFrames s ! tx)[group := TsFrames s ! tx ! group + 1]],
               TsBytes := (TsBytes s)[tx := (TsBytes s ! tx)[group := TsBytes s ! tx ! group + of_nat n]]\<rparr>) })"

definition CywTrafficTotal :: "u64 list \<Rightarrow> u64" where
  "CywTrafficTotal v = v ! 0 + v ! 1 + v ! 2"

section \<open>Credit diagnostics\<close>

record CYW_TX_CREDIT =
  DcSamples :: u64
  DcZero :: u64
  DcInvalid :: u64
  Dc1To4 :: u64
  Dc5To16 :: u64
  Dc17To64 :: u64

record CYW_TX_RX =
  DrBatches :: u64
  DrWindowChanges :: u64
  DrCreditReopens :: u64
  DrWindowGrows :: u64

definition CywTxDiagInc :: "u64 \<Rightarrow> u64" where
  "CywTxDiagInc v = CywTxDiagAdd v 1"

definition CywTxDiagWindow :: "u8 \<Rightarrow> u8 \<Rightarrow> u8" where
  "CywTxDiagWindow sequence maximum = maximum - sequence"

definition CywTxDiagCredit :: "u8 \<Rightarrow> CYW_TX_CREDIT \<Rightarrow> CYW_TX_CREDIT" where
  "CywTxDiagCredit window D =
    (let D = D\<lparr>DcSamples := CywTxDiagInc (DcSamples D)\<rparr> in
     if window = 0 then D\<lparr>DcZero := CywTxDiagInc (DcZero D)\<rparr>
     else if window > 64 then D\<lparr>DcInvalid := CywTxDiagInc (DcInvalid D)\<rparr>
     else if window \<le> 4 then D\<lparr>Dc1To4 := CywTxDiagInc (Dc1To4 D)\<rparr>
     else if window \<le> 16 then D\<lparr>Dc5To16 := CywTxDiagInc (Dc5To16 D)\<rparr>
     else D\<lparr>Dc17To64 := CywTxDiagInc (Dc17To64 D)\<rparr>)"

text \<open>A duration sample: the total, the maximum and the count of clock regressions.\<close>

definition CywTxDiagDuration :: "u64 \<Rightarrow> u64 \<Rightarrow> u64 \<times> u64 \<times> u64 \<Rightarrow> u64 \<times> u64 \<times> u64" where
  "CywTxDiagDuration start end' = (\<lambda>(total, maximum, regressions).
    (if end' < start then (total, maximum, CywTxDiagInc regressions)
     else let elapsed = end' - start
       in (CywTxDiagAdd total elapsed, if elapsed > maximum then elapsed else maximum, regressions)))"

definition CywTxDiagRx :: "u8 \<Rightarrow> u8 \<Rightarrow> CYW_TX_RX \<Rightarrow> CYW_TX_RX" where
  "CywTxDiagRx before after D = D\<lparr>
     DrBatches := CywTxDiagInc (DrBatches D),
     DrWindowChanges := (if before \<noteq> after then CywTxDiagInc (DrWindowChanges D) else DrWindowChanges D),
     DrCreditReopens := (if before = 0 \<and> after \<noteq> 0 \<and> after \<le> 64 then CywTxDiagInc (DrCreditReopens D) else DrCreditReopens D),
     DrWindowGrows := (if before \<le> 64 \<and> after \<le> 64 \<and> after > before then CywTxDiagInc (DrWindowGrows D) else DrWindowGrows D)\<rparr>"

section \<open>Lemmas\<close>

definition bucket_ok :: "CYW_TIMING_BUCKET \<Rightarrow> bool" where
  "bucket_ok B \<longleftrightarrow> TbAtLeast100ms B \<le> TbAtLeast10ms B \<and> TbAtLeast10ms B \<le> TbCount B \<and> TbMaxTicks B \<le> TbTotalTicks B"

definition timing_ok :: "CYW_TIMING \<Rightarrow> bool" where
  "timing_ok T \<longleftrightarrow> TmTenMsTicks T \<le> TmHundredMsTicks T \<and> length (TmBucket T) = CywTimeCount \<and> list_all bucket_ok (TmBucket T)"

lemma BucketRecord_ok: "bucket_ok B \<Longrightarrow> ten \<le> hundred \<Longrightarrow> bucket_ok (BucketRecord ten hundred delta B)"
  by (auto simp: bucket_ok_def BucketRecord_def intro: timing.add_mono timing.add_right order.trans [OF _ timing.add_mono_left]
      order.trans)

lemma CywTimingRecord_ok: "timing_ok T \<Longrightarrow> timing_ok (CywTimingRecord d b s e T)"
  by (auto simp: timing_ok_def CywTimingRecord_def CywTimingBucketEnabled_def list_all_iff dest!: set_update_subset_insert [THEN subsetD]
      intro!: BucketRecord_ok)

lemma unat_div_up:
  assumes "1 < k" "k < 1000"
  shows "unat ((f :: u64) div of_nat k + (if f mod of_nat k \<noteq> 0 then 1 else 0)) = unat f div k + (if unat f mod k \<noteq> 0 then 1 else 0)"
proof -
  have k: "unat (of_nat k :: u64) = k" using assms by (simp add: unat_of_nat)
  have "unat f div k \<le> unat f div 2" using assms by (intro div_le_mono2) auto
  then have "unat f div k + 1 < 2 ^ LENGTH(64)" using div_le_mono [OF unat_u64_le [of f], of 2] by simp
  moreover have "f mod of_nat k \<noteq> 0 \<longleftrightarrow> unat f mod k \<noteq> 0" by (simp add: unat_mod k flip: unat_eq_zero)
  ultimately show ?thesis
    using unat_add_no_wrap [of "f div of_nat k" 1] by (simp add: unat_div k)
qed

lemma thresholds_ordered: "(f :: u64) div 100 + (if f mod 100 \<noteq> 0 then 1 else 0) \<le> f div 10 + (if f mod 10 \<noteq> 0 then 1 else 0)"
proof -
  define n where "n = unat f"
  have h: "n div 100 = n div 10 div 10" by (simp flip: div_mult2_eq)
  have "n div 100 + (if n mod 100 \<noteq> 0 then 1 else 0) \<le> n div 10 + (if n mod 10 \<noteq> 0 then 1 else 0)"
  proof (cases "n div 10 = 0")
    case True
    then show ?thesis by (auto simp: h)
  next
    case False
    then have "n div 10 div 10 < n div 10" by simp
    then show ?thesis unfolding h by simp
  qed
  then show ?thesis unfolding word_le_nat_alt n_def
    using unat_div_up [of 100 f] unat_div_up [of 10 f] by simp
qed

lemma CywTimingStart_ok: "timing_ok (CywTimingStart d f now)"
  using thresholds_ordered [of f] by (simp add: timing_ok_def CywTimingStart_def Let_def zero_bucket_def bucket_ok_def list_all_iff)

text \<open>The reference for the interrupt policy: the empty interrupt wakes since the last one that brought work.\<close>

definition empty_run :: "(bool \<times> bool \<times> u32) list \<Rightarrow> nat" where
  "empty_run wakes = length (takeWhile (\<lambda>(_, useful, pending). \<not> useful \<and> pending AND 6 = 0) (rev (filter fst wakes)))"

definition streak :: "(bool \<times> bool \<times> u32) list \<Rightarrow> u32" where
  "streak wakes = foldl (\<lambda>c (irq, useful, pending). CywInterruptNextEmptyWakeStreak irq useful pending c) 0 wakes"

lemma streak_empty_run: "unat (streak wakes) = min 32 (empty_run wakes)"
proof (induction wakes rule: rev_induct)
  case (snoc w wakes)
  obtain irq useful pending where w: "w = (irq, useful, pending)" by (metis surj_pair)
  let ?s = "streak wakes"
  have inc: "unat (?s + 1) = unat ?s + 1" if "?s < 32"
    using unat_inc_less [OF that] by simp
  have step: "streak (wakes @ [w]) = CywInterruptNextEmptyWakeStreak irq useful pending ?s" by (simp add: streak_def w)
  show ?case unfolding step
    using snoc inc by (auto simp: w empty_run_def CywInterruptNextEmptyWakeStreak_def CywInterruptPendingFunctions_def word_less_nat_alt
        min_def split: if_splits)
qed (simp add: streak_def empty_run_def)

text \<open>A run of the worker without transmit progress while the window stays exhausted: select, then wait.\<close>

fun retry_run :: "(u64 \<times> bool \<times> u64 \<times> u64 \<times> bool) list \<Rightarrow> CYW_TX_RETRY \<Rightarrow> nat list" where
  "retry_run [] S = []"
| "retry_run ((now, rx, start, end', timedOut) # inputs) S =
    (case CywTxRetrySelect now False rx True S of (ms, S) \<Rightarrow>
       ms # retry_run inputs (CywTxRetryRecordWait start end' timedOut S))"

lemma RecordWait_attempts: "RtFastAttempts (CywTxRetryRecordWait start end' t S) = RtFastAttempts S"
  by (simp add: CywTxRetryRecordWait_def Let_def)

lemma Select_attempts:
  assumes "CywTxRetrySelect now False rx True S = (ms, S')"
  shows "(ms \<noteq> 1 \<and> RtFastAttempts S' = RtFastAttempts S) \<or>
    (ms = 1 \<and> RtFastAttempts S < 4 \<and> RtFastAttempts S' = RtFastAttempts S + 1)"
proof -
  have o: "RtFastAttempts (RetryObserve now False True S) = RtFastAttempts S" by (simp add: RetryObserve_def Let_def)
  show ?thesis using assms o
    by (auto simp: CywTxRetrySelect_def Let_def not_le split: if_splits)
qed

lemma retry_run_fast: "length (filter (\<lambda>ms. ms = 1) (retry_run inputs S)) \<le> 4 - unat (RtFastAttempts S)"
proof (induction inputs arbitrary: S)
  case (Cons i inputs)
  obtain now rx start end' t where i: "i = (now, rx, start, end', t)" by (metis surj_pair)
  obtain ms S' where s: "CywTxRetrySelect now False rx True S = (ms, S')" by force
  have inc: "unat (RtFastAttempts S + 1) = unat (RtFastAttempts S) + 1" if "RtFastAttempts S < 4"
    using unat_inc_less [OF that] by simp
  show ?case
    using Cons [of "CywTxRetryRecordWait start end' t S'"] Select_attempts [OF s] inc
    by (auto simp: i s RecordWait_attempts word_less_nat_alt)
qed simp

section \<open>Properties\<close>

text \<open>
  C27 (invariant).  Timing statistics stay consistent over any sequence of recordings, saturation included: in every
  bucket the intervals of at least 100 ms are among those of at least 10 ms, these are among all intervals, and no single
  interval exceeds the total.
\<close>

theorem timing_buckets_consistent:
  "timing_ok (fold (\<lambda>(bucket, start, end'). CywTimingRecord detailed bucket start end') records
     (CywTimingStart detailed frequency now))"
proof -
  have "timing_ok T \<Longrightarrow> timing_ok (fold (\<lambda>(b, s, e). CywTimingRecord d b s e) rs T)" for rs d T
    by (induction rs arbitrary: T) (auto intro: CywTimingRecord_ok)
  then show ?thesis by (simp add: CywTimingStart_ok)
qed

text \<open>
  C28 (equivalence).  The incremental streak counter triggers the polling fallback exactly when the last 32 or more
  interrupt wakes brought no work, timer wakes not counted.
\<close>

theorem polling_fallback_iff_storm:
  "CywInterruptUsePollingFallback
     (foldl (\<lambda>c (irq, useful, pending). CywInterruptNextEmptyWakeStreak irq useful pending c) 0 wakes) \<longleftrightarrow>
   32 \<le> empty_run wakes"
  using streak_empty_run [of wakes] by (simp add: CywInterruptUsePollingFallback_def streak_def word_le_nat_alt)

text \<open>
  C29 (bounds).  However long the firmware withholds credits, and whatever the clock and the waits do, the worker asks for at
  most four fast retries before transmit progress or the end of the exhaustion resets the episode.
\<close>

theorem fast_retries_bounded: "length (filter (\<lambda>ms. ms = 1) (retry_run inputs S)) \<le> 4"
  using retry_run_fast [of inputs S] by simp

end
