(* ===== verification/Sdio_Host.thy ===== *)
theory Sdio_Host
  imports Sdio_Protocol Policies
begin

text \<open>
  The SDHCI host controller driver (\<open>sdio/sdio.c\<close>, \<open>sdio/bus_mode.h\<close>, \<open>sdio/fifo_blocks.h\<close>).

  A function of the driver is a computation of the state monad over the adapter and the outside world.
  The world is of any type \<open>'w\<close>; the record \<open>hw\<close> says how register accesses, clocks, delays and reads of the volatile flag
  \<open>IoStopped\<close> act on it, so that nothing is assumed about the controller, the card and the other
  processors.  Polling loops recurse on the number of rounds the source allows.

  \<open>hw_netstop\<close> is the read of \<open>Network->Stop\<close>, which other threads set.

  The adapter's fields are grouped: registers last seen (\<open>hostd\<close>), the last command and the CMD53 counters
  (\<open>cmdd\<close>), the bus mode (\<open>busd\<close>), the FIFO (\<open>fifod\<close>) the card (\<open>cardd\<close>), the chip (\<open>chipd\<close>)
  and the firmware upload (\<open>fwd\<close>).  \<open>RegisterBase\<close> is mapped, the IRQL is
  \<open>PASSIVE_LEVEL\<close>.  The registry export of \<open>Rpi5CywWriteDiagnostics\<close> is left out; its effect on the adapter
  is not.
\<close>

section \<open>State\<close>

record hostd =
  HostVersion :: u32
  Capabilities :: u32
  Capabilities2 :: u32
  PresentState :: u32
  ClockControl :: u32
  PowerControl :: u32
  HostControl :: u32
  HostControl2 :: u32
  TimeoutControl :: u32
  SoftwareReset :: u32

record cmdd =
  LastCommand :: u32
  LastArgument :: u32
  LastInterruptStatus :: u32
  LastResponse :: u32
  LastCommandResetStatus :: NTSTATUS
  Cmd53BytesTransferred :: u32
  Cmd53ResetStatus :: NTSTATUS
  Cmd53ReadCount :: u32
  Cmd53WriteCount :: u32
  Cmd53FastPolls :: u32
  Cmd53WaitSleeps :: u32
  Cmd53Timeouts :: u32
  RuntimeF1FastPolls :: u32
  RuntimeCmd53SleepPhase :: "u32 list"
  RuntimeF1WaitSleeps :: u32
  RuntimeF2WaitSleeps :: u32
  RuntimeCmd53Sleep100ns :: u64

record busd =
  BusModeStage :: u32
  BusTargetKhz :: u32
  BusActualKhz :: u32
  BusWidth :: u32
  BusCardInterface :: u32
  BusCardSpeed :: u32
  BusVerifyReads :: u32
  BusUpgradeStatus :: NTSTATUS
  BusRecoveryStatus :: NTSTATUS
  BusVerifyStatus :: NTSTATUS
  BusHighSpeedEligible :: bool
  BusHighSpeedAttempted :: bool
  BusHighSpeedActive :: bool
  BusHighSpeedRejectMask :: u32
  BusHighSpeedStatus :: NTSTATUS

record fifod =
  FifoBlockReady :: bool
  FifoTransportFailed :: bool
  FifoBlockCommands :: u32
  FifoBlockBytes :: u32
  FifoBlockFailures :: u32
  FifoLateCompletionAccepted :: u32
  FifoLastFailureStatus :: NTSTATUS
  FifoLastFailureWrite :: u32
  FifoLastFailureBlocks :: u32
  FifoLastFailureCompletedBlocks :: u32
  FifoLastFailureWaitEvent :: u32
  FifoLastFailureInterruptStatus :: u32
  FifoLastFailurePresentState :: u32
  FifoLastFailureBytesTransferred :: u32

record cmd5_attempt =
  AtTargetClockKhz :: u32
  AtArgument :: u32
  AtStatus :: NTSTATUS
  AtResetStatus :: NTSTATUS
  AtResponseValid :: bool
  AtInterruptStatus :: u32
  AtResponse :: u32
  AtBefore :: hostd
  AtAfter :: hostd

record cardd =
  Cmd5AttemptCount :: u32
  Cmd5ValidAttempt :: u32
  Cmd5SuccessAttempt :: u32
  Cmd5Attempts :: "cmd5_attempt list"
  Cmd5ProbeResponse :: u32
  SdioOcr :: u32
  SdioFunctions :: u32
  RelativeAddress :: u32
  CccrRevision :: u32
  IoEnable :: u32
  IoReady :: u32
  F1InterfaceCode :: u32
  F2InterfaceCode :: u32
  WarmCardResetAttempts :: u32
  WarmCardResetStatus :: NTSTATUS
  DiagStage :: u32
  ProbeStatus :: NTSTATUS
  ProbePhase :: u32
  EromWords :: u32
  CoreInventoryComplete :: bool

record bpd =
  BpWindow :: u32
  BpWindowValid :: bool
  BpWindowCacheHits :: u32
  BpWindowSelections :: u32

record chipd =
  Function1Ready :: bool
  ChipClockCsr :: u32
  ChipIdRaw :: u32
  ChipId :: u32
  ChipRevision :: u32
  EromBase :: u32
  EromTrace :: "u32 list"
  CoreCount :: u32
  ChipCommonBase :: u32
  SdioCoreBase :: u32
  D11CoreBase :: u32
  D11WrapperBase :: u32
  Cr4CoreBase :: u32
  Cr4WrapperBase :: u32
  Cr4Capabilities :: u32
  Cr4IoControl :: u32
  Cr4ResetControl :: u32
  RamBankCount :: u32
  RamBase :: u32
  RamSize :: u32
  ProbeRestoreStatus :: NTSTATUS

record fwd =
  FwNetworkPhase :: u32
  FwNetworkStatus :: NTSTATUS
  FirmwareBytes :: u32
  FirmwareTotalBytes :: u32
  FirmwareUploadedBytes :: u32
  FirmwareStartupBusKhz :: u32
  FirmwareStartupFallback :: bool
  FirmwareStartupElapsedMs :: u32
  FirmwareStartupStatus :: NTSTATUS
  FirmwareNextSnapshot :: u64
  RamTransferStatus :: NTSTATUS
  RamTransferStage :: u32
  RamTransferAddress :: u32
  RamTransferLength :: u32
  RamTransferWrite :: bool

record adapter =
  AHost :: hostd
  ACmd :: cmdd
  ABus :: busd
  AFifo :: fifod
  ACard :: cardd
  ABp :: bpd
  AChip :: chipd
  AFw :: fwd
  ATiming :: CYW_TIMING
  ADetailed :: bool

record 'w hw =
  hw_read8 :: "u32 \<Rightarrow> 'w \<Rightarrow> u8 \<times> 'w"
  hw_read16 :: "u32 \<Rightarrow> 'w \<Rightarrow> u16 \<times> 'w"
  hw_read32 :: "u32 \<Rightarrow> 'w \<Rightarrow> u32 \<times> 'w"
  hw_write8 :: "u32 \<Rightarrow> u8 \<Rightarrow> 'w \<Rightarrow> 'w"
  hw_write16 :: "u32 \<Rightarrow> u16 \<Rightarrow> 'w \<Rightarrow> 'w"
  hw_write32 :: "u32 \<Rightarrow> u32 \<Rightarrow> 'w \<Rightarrow> 'w"
  hw_time :: "'w \<Rightarrow> u64 \<times> 'w"
  hw_qpc :: "'w \<Rightarrow> u64 \<times> 'w"
  hw_delay :: "nat \<Rightarrow> 'w \<Rightarrow> 'w"
  hw_stopped :: "'w \<Rightarrow> bool \<times> 'w"
  hw_netstop :: "'w \<Rightarrow> bool \<times> 'w"

type_synonym ('w, 'a) drv = "(adapter \<times> 'w, 'a) state"

abbreviation ret :: "'a \<Rightarrow> ('s, 'a) state" where
  "ret \<equiv> State_Monad.return"

definition asks :: "(adapter \<Rightarrow> 'a) \<Rightarrow> ('w, 'a) drv" where
  "asks f = State (\<lambda>(a, w). (f a, (a, w)))"

definition modify :: "(adapter \<Rightarrow> adapter) \<Rightarrow> ('w, unit) drv" where
  "modify f = State (\<lambda>(a, w). ((), (f a, w)))"

definition world :: "('w \<Rightarrow> 'a \<times> 'w) \<Rightarrow> ('w, 'a) drv" where
  "world f = State (\<lambda>(a, w). case f w of (x, w) \<Rightarrow> (x, (a, w)))"

definition act :: "('w \<Rightarrow> 'w) \<Rightarrow> ('w, unit) drv" where
  "act f = State (\<lambda>(a, w). ((), (a, f w)))"

definition hostS :: "(hostd \<Rightarrow> hostd) \<Rightarrow> ('w, unit) drv" where
  "hostS f = modify (\<lambda>a. a\<lparr>AHost := f (AHost a)\<rparr>)"

definition cmdS :: "(cmdd \<Rightarrow> cmdd) \<Rightarrow> ('w, unit) drv" where
  "cmdS f = modify (\<lambda>a. a\<lparr>ACmd := f (ACmd a)\<rparr>)"

definition busS :: "(busd \<Rightarrow> busd) \<Rightarrow> ('w, unit) drv" where
  "busS f = modify (\<lambda>a. a\<lparr>ABus := f (ABus a)\<rparr>)"

definition fifoS :: "(fifod \<Rightarrow> fifod) \<Rightarrow> ('w, unit) drv" where
  "fifoS f = modify (\<lambda>a. a\<lparr>AFifo := f (AFifo a)\<rparr>)"

definition cardS :: "(cardd \<Rightarrow> cardd) \<Rightarrow> ('w, unit) drv" where
  "cardS f = modify (\<lambda>a. a\<lparr>ACard := f (ACard a)\<rparr>)"

definition bpS :: "(bpd \<Rightarrow> bpd) \<Rightarrow> ('w, unit) drv" where
  "bpS f = modify (\<lambda>a. a\<lparr>ABp := f (ABp a)\<rparr>)"

definition chipS :: "(chipd \<Rightarrow> chipd) \<Rightarrow> ('w, unit) drv" where
  "chipS f = modify (\<lambda>a. a\<lparr>AChip := f (AChip a)\<rparr>)"

definition fwS :: "(fwd \<Rightarrow> fwd) \<Rightarrow> ('w, unit) drv" where
  "fwS f = modify (\<lambda>a. a\<lparr>AFw := f (AFw a)\<rparr>)"

text \<open>\<open>if(!NT_SUCCESS(Status)) return Status;\<close>\<close>

definition orelse :: "NTSTATUS \<Rightarrow> ('s, NTSTATUS) state \<Rightarrow> ('s, NTSTATUS) state" where
  "orelse st k = (if NT_SUCCESS st then k else ret st)"

lemmas state_defs = hostS_def cmdS_def busS_def fifoS_def cardS_def bpS_def chipS_def fwS_def

lemma wp_asks [wp_rules]: "wp (asks f) Q s = Q (f (fst s)) s"
  by (cases s) (simp add: asks_def wp_rules)

lemma wp_modify [wp_rules]: "wp (modify f) Q s = Q () (f (fst s), snd s)"
  by (cases s) (simp add: modify_def wp_rules)

lemma wp_world [wp_rules]: "wp (world f) Q s = (case f (snd s) of (x, w) \<Rightarrow> Q x (fst s, w))"
  by (cases s) (simp add: world_def wp_rules split: prod.split)

lemma wp_act [wp_rules]: "wp (act f) Q s = Q () (fst s, f (snd s))"
  by (cases s) (simp add: act_def wp_rules)

lemma wp_orelse [wp_rules]: "wp (orelse st k) Q s = (if NT_SUCCESS st then wp k Q s else Q st s)"
  by (simp add: orelse_def wp_rules)

section \<open>Register access\<close>

definition IoStopped :: "'w hw \<Rightarrow> ('w, bool) drv" where
  "IoStopped H = world (hw_stopped H)"

definition InterruptTime :: "'w hw \<Rightarrow> ('w, u64) drv" where
  "InterruptTime H = world (hw_time H)"

definition SdioRead8 :: "'w hw \<Rightarrow> u32 \<Rightarrow> ('w, u8) drv" where
  "SdioRead8 H off = do { stop \<leftarrow> IoStopped H; if stop then ret 0xFF else world (hw_read8 H off) }"

definition SdioRead16 :: "'w hw \<Rightarrow> u32 \<Rightarrow> ('w, u16) drv" where
  "SdioRead16 H off = do { stop \<leftarrow> IoStopped H; if stop then ret 0xFFFF else world (hw_read16 H off) }"

definition SdioRead32 :: "'w hw \<Rightarrow> u32 \<Rightarrow> ('w, u32) drv" where
  "SdioRead32 H off = do { stop \<leftarrow> IoStopped H; if stop then ret 0xFFFFFFFF else world (hw_read32 H off) }"

definition SdioWrite8 :: "'w hw \<Rightarrow> u32 \<Rightarrow> u8 \<Rightarrow> ('w, unit) drv" where
  "SdioWrite8 H off v = do { stop \<leftarrow> IoStopped H; if \<not> stop then act (hw_write8 H off v) else ret () }"

definition SdioWrite16 :: "'w hw \<Rightarrow> u32 \<Rightarrow> u16 \<Rightarrow> ('w, unit) drv" where
  "SdioWrite16 H off v = do { stop \<leftarrow> IoStopped H; if \<not> stop then act (hw_write16 H off v) else ret () }"

definition SdioWrite32 :: "'w hw \<Rightarrow> u32 \<Rightarrow> u32 \<Rightarrow> ('w, unit) drv" where
  "SdioWrite32 H off v = do { stop \<leftarrow> IoStopped H; if \<not> stop then act (hw_write32 H off v) else ret () }"

text \<open>\<open>SdioDelayMilliseconds\<close> and \<open>KeStallExecutionProcessor\<close>, in microseconds.\<close>

definition Stall :: "'w hw \<Rightarrow> nat \<Rightarrow> ('w, unit) drv" where
  "Stall H us = act (hw_delay H us)"

definition SdioDelayMilliseconds :: "'w hw \<Rightarrow> nat \<Rightarrow> ('w, unit) drv" where
  "SdioDelayMilliseconds H ms = act (hw_delay H (1000 * ms))"

section \<open>Reset and clock\<close>

text \<open>A bounded poll of an 8-bit register until the bits of the mask are clear.\<close>

fun ResetLoop :: "'w hw \<Rightarrow> nat \<Rightarrow> u8 \<Rightarrow> ('w, NTSTATUS) drv" where
  "ResetLoop H 0 bits = ret STATUS_IO_TIMEOUT"
| "ResetLoop H (Suc n) bits = do {
     stop \<leftarrow> IoStopped H;
     if stop then ret STATUS_INVALID_DEVICE_STATE else do {
       v \<leftarrow> SdioRead8 H 0x2F;
       if v AND bits = 0 then ret STATUS_SUCCESS
       else do { Stall H 100; ResetLoop H n bits } } }"

definition SdioResetHost :: "'w hw \<Rightarrow> u8 \<Rightarrow> ('w, NTSTATUS) drv" where
  "SdioResetHost H bits = do {
     bpS (\<lambda>b. b\<lparr>BpWindowValid := False\<rparr>);
     fifoS (\<lambda>f. f\<lparr>FifoBlockReady := False\<rparr>);
     SdioWrite8 H 0x2F bits;
     ResetLoop H 1000 bits }"

text \<open>The loop that waits for a stable clock; \<open>Inl\<close> leaves the function.\<close>

fun ClockLoop :: "'w hw \<Rightarrow> nat \<Rightarrow> ('w, NTSTATUS + u16) drv" where
  "ClockLoop H 0 = ret (Inl STATUS_IO_TIMEOUT)"
| "ClockLoop H (Suc n) = do {
     stop \<leftarrow> IoStopped H;
     if stop then ret (Inl STATUS_INVALID_DEVICE_STATE) else do {
       c \<leftarrow> SdioRead16 H 0x2C;
       if c AND 2 \<noteq> 0 then ret (Inr c) else do { Stall H 100; ClockLoop H n } } }"

definition BaseClockKhz :: "u32 \<Rightarrow> u32" where
  "BaseClockKhz capabilities =
    (let mhz = drop_bit 8 (capabilities AND 0xFF00) in (if mhz = 0 then 200 else mhz) * 1000)"

definition ClockDivider :: "u32 \<Rightarrow> u32 \<Rightarrow> u16" where
  "ClockDivider base target = (let d = SdioCalculateClockDivider base target in if d > 0x3FF then 0x3FF else d)"

definition SetClockFinish :: "'w hw \<Rightarrow> u32 \<Rightarrow> u32 \<Rightarrow> u16 \<Rightarrow> u16 \<Rightarrow> ('w, NTSTATUS) drv" where
  "SetClockFinish H target base divider control = do {
     SdioWrite16 H 0x2C (control OR 4);
     c \<leftarrow> SdioRead16 H 0x2C;
     hostS (\<lambda>h. h\<lparr>ClockControl := ucast c\<rparr>);
     let high = drop_bit 2 (divider AND 0x300);
     if ucast c AND (0xffc7 :: u32) \<noteq> push_bit 8 (ucast (divider AND 0xff)) OR ucast high OR 7
     then ret STATUS_DEVICE_DATA_ERROR
     else do {
       busS (\<lambda>b. b\<lparr>BusTargetKhz := target,
         BusActualKhz := (if divider \<noteq> 0 then base div (2 * ucast divider) else base)\<rparr>);
       ret STATUS_SUCCESS } }"

definition SdioSetClock :: "'w hw \<Rightarrow> u32 \<Rightarrow> ('w, NTSTATUS) drv" where
  "SdioSetClock H target = do {
     bpS (\<lambda>b. b\<lparr>BpWindowValid := False\<rparr>);
     if target = 0 then ret STATUS_INVALID_PARAMETER else do {
     stop \<leftarrow> IoStopped H;
     if stop then ret STATUS_INVALID_DEVICE_STATE else do {
     caps \<leftarrow> asks (\<lambda>a. Capabilities (AHost a));
     let base = BaseClockKhz caps;
     let divider = ClockDivider base target;
     let high = drop_bit 2 (divider AND 0x300);
     SdioWrite16 H 0x2C 0;
     SdioWrite16 H 0x2C (push_bit 8 (divider AND 0xFF) OR high OR 1);
     r \<leftarrow> ClockLoop H 2000;
     case r of
       Inl st \<Rightarrow> ret st
     | Inr control \<Rightarrow> SetClockFinish H target base divider control } } }"

definition PowerSetting :: "u32 \<Rightarrow> u8 option" where
  "PowerSetting capabilities =
    (if capabilities AND 0x01000000 \<noteq> 0 then Some (0x0E OR 1)
     else if capabilities AND 0x02000000 \<noteq> 0 then Some (0x0C OR 1)
     else if capabilities AND 0x04000000 \<noteq> 0 then Some (0x0A OR 1)
     else None)"

text \<open>The registers that are kept for diagnostics.\<close>

definition SnapshotRegisters :: "'w hw \<Rightarrow> ('w, unit) drv" where
  "SnapshotRegisters H = do {
     v \<leftarrow> SdioRead32 H 0x24; hostS (\<lambda>h. h\<lparr>PresentState := v\<rparr>);
     v \<leftarrow> SdioRead16 H 0x2C; hostS (\<lambda>h. h\<lparr>ClockControl := ucast v\<rparr>);
     v \<leftarrow> SdioRead8 H 0x29; hostS (\<lambda>h. h\<lparr>PowerControl := ucast v\<rparr>);
     v \<leftarrow> SdioRead8 H 0x28; hostS (\<lambda>h. h\<lparr>HostControl := ucast v\<rparr>);
     v \<leftarrow> SdioRead16 H 0x3E; hostS (\<lambda>h. h\<lparr>HostControl2 := ucast v\<rparr>);
     v \<leftarrow> SdioRead8 H 0x2E; hostS (\<lambda>h. h\<lparr>TimeoutControl := ucast v\<rparr>);
     v \<leftarrow> SdioRead8 H 0x2F; hostS (\<lambda>h. h\<lparr>SoftwareReset := ucast v\<rparr>) }"

definition SdioInitializeHost :: "'w hw \<Rightarrow> ('w, NTSTATUS) drv" where
  "SdioInitializeHost H = do {
     SdioWrite32 H 0x38 0;
     st \<leftarrow> SdioResetHost H 1;
     orelse st (do {
     v \<leftarrow> SdioRead16 H 0xFE; hostS (\<lambda>h. h\<lparr>HostVersion := ucast v\<rparr>);
     v \<leftarrow> SdioRead32 H 0x40; hostS (\<lambda>h. h\<lparr>Capabilities := v\<rparr>);
     v \<leftarrow> SdioRead32 H 0x44; hostS (\<lambda>h. h\<lparr>Capabilities2 := v\<rparr>);
     st \<leftarrow> SdioSetClock H 400;
     orelse st (do {
     caps \<leftarrow> asks (\<lambda>a. Capabilities (AHost a));
     case PowerSetting caps of
       None \<Rightarrow> ret STATUS_DEVICE_CONFIGURATION_ERROR
     | Some pw \<Rightarrow> do {
         SdioWrite8 H 0x29 pw;
         SdioWrite8 H 0x2E 0x0E;
         SdioWrite32 H 0x30 0xFFFFFFFF;
         SdioWrite32 H 0x34 (1 OR 2 OR 0x20 OR 0x10 OR 0x100 OR 0x00700000 OR 0x8000 OR 0x080F0000);
         SdioWrite32 H 0x38 0;
         SdioDelayMilliseconds H 200;
         SnapshotRegisters H;
         ret STATUS_SUCCESS } }) }) }"

section \<open>Commands\<close>

fun InhibitLoop :: "'w hw \<Rightarrow> nat \<Rightarrow> u32 \<Rightarrow> ('w, NTSTATUS) drv" where
  "InhibitLoop H 0 bits = ret STATUS_IO_TIMEOUT"
| "InhibitLoop H (Suc n) bits = do {
     stop \<leftarrow> IoStopped H;
     if stop then ret STATUS_INVALID_DEVICE_STATE else do {
       v \<leftarrow> SdioRead32 H 0x24;
       if v AND bits = 0 then ret STATUS_SUCCESS
       else do { Stall H 100; InhibitLoop H n bits } } }"

definition SdioWaitInhibitClear :: "'w hw \<Rightarrow> u32 \<Rightarrow> ('w, NTSTATUS) drv" where
  "SdioWaitInhibitClear H bits = InhibitLoop H 10000 bits"

definition CmdErrors :: u32 where
  "CmdErrors = 0x8000 OR 0x080F0000"

text \<open>The wait for command completion: the interrupt status last read, and whether the loop ran out.\<close>

fun CommandLoop :: "'w hw \<Rightarrow> nat \<Rightarrow> u32 \<Rightarrow> ('w, u32 \<times> bool) drv" where
  "CommandLoop H 0 prev = ret (prev, True)"
| "CommandLoop H (Suc n) prev = do {
     v \<leftarrow> SdioRead32 H 0x30;
     if v AND (1 OR CmdErrors) \<noteq> 0 then ret (v, False)
     else do { Stall H 100; CommandLoop H n v } }"

definition MakeCmd :: "u16 \<Rightarrow> u16 \<Rightarrow> u16" where
  "MakeCmd idx flags = push_bit 8 idx OR flags"

definition ResetCommand :: "'w hw \<Rightarrow> NTSTATUS \<Rightarrow> ('w, NTSTATUS) drv" where
  "ResetCommand H st = do {
     r \<leftarrow> SdioResetHost H 2;
     cmdS (\<lambda>c. c\<lparr>LastCommandResetStatus := r\<rparr>);
     ret st }"

text \<open>The part of a command after its completion was awaited.\<close>

definition CommandFinish :: "'w hw \<Rightarrow> u16 \<Rightarrow> u32 \<Rightarrow> bool \<Rightarrow> ('w, NTSTATUS) drv" where
  "CommandFinish H flags ist timeout =
    (if timeout then ResetCommand H STATUS_IO_TIMEOUT
     else if ist AND CmdErrors \<noteq> 0 then do {
       SdioWrite32 H 0x30 ist;
       ResetCommand H STATUS_IO_DEVICE_ERROR }
     else do {
       SdioWrite32 H 0x30 ist;
       if flags AND 3 = 3 then do {
         st \<leftarrow> SdioWaitInhibitClear H 2;
         if NT_SUCCESS st then ret STATUS_SUCCESS
         else do { SdioResetHost H 4; ret st } }
       else ret STATUS_SUCCESS })"

text \<open>\<open>want\<close> says whether the caller passes a response pointer; the response is the second component.\<close>

definition SdioSendCommandRaw :: "'w hw \<Rightarrow> u8 \<Rightarrow> u32 \<Rightarrow> u16 \<Rightarrow> bool \<Rightarrow> ('w, NTSTATUS \<times> u32) drv" where
  "SdioSendCommandRaw H index argument flags want = do {
     cmdS (\<lambda>c. c\<lparr>LastCommand := ucast index, LastArgument := argument, LastInterruptStatus := 0, LastResponse := 0,
                LastCommandResetStatus := STATUS_SUCCESS\<rparr>);
     st \<leftarrow> SdioWaitInhibitClear H 1;
     if \<not> NT_SUCCESS st then do { st \<leftarrow> ResetCommand H st; ret (st, 0) }
     else do {
       SdioWrite32 H 0x30 0xFFFFFFFF;
       SdioWrite32 H 0x08 argument;
       SdioWrite16 H 0x0E (MakeCmd (ucast index) flags);
       (ist, timeout) \<leftarrow> CommandLoop H 10000 0;
       cmdS (\<lambda>c. c\<lparr>LastInterruptStatus := ist\<rparr>);
       response \<leftarrow> (if want then do {
           r \<leftarrow> SdioRead32 H 0x10; cmdS (\<lambda>c. c\<lparr>LastResponse := r\<rparr>); ret r } else ret 0);
       st \<leftarrow> CommandFinish H flags ist timeout;
       ret (st, response) } }"

definition TimingBegin :: "'w hw \<Rightarrow> nat \<Rightarrow> ('w, u64) drv" where
  "TimingBegin H bucket = do {
     on \<leftarrow> asks (\<lambda>a. CywTimingBucketEnabled (ADetailed a) (ATiming a) bucket);
     if on then world (hw_qpc H) else ret 0 }"

definition TimingEnd :: "'w hw \<Rightarrow> nat \<Rightarrow> u64 \<Rightarrow> ('w, unit) drv" where
  "TimingEnd H bucket start = do {
     on \<leftarrow> asks (\<lambda>a. CywTimingBucketEnabled (ADetailed a) (ATiming a) bucket);
     if on then do {
       now \<leftarrow> world (hw_qpc H);
       modify (\<lambda>a. a\<lparr>ATiming := CywTimingRecord (ADetailed a) bucket start now (ATiming a)\<rparr>) }
     else ret () }"

definition SdioSendCommand :: "'w hw \<Rightarrow> u8 \<Rightarrow> u32 \<Rightarrow> u16 \<Rightarrow> bool \<Rightarrow> ('w, NTSTATUS \<times> u32) drv" where
  "SdioSendCommand H index argument flags want = do {
     start \<leftarrow> (if index = 52 then TimingBegin H 7 else ret 0);
     r \<leftarrow> SdioSendCommandRaw H index argument flags want;
     (if index = 52 then TimingEnd H 7 start else ret ());
     ret r }"

definition SdioCmd52Read :: "'w hw \<Rightarrow> u8 \<Rightarrow> u32 \<Rightarrow> ('w, NTSTATUS \<times> u8) drv" where
  "SdioCmd52Read H function address =
    (if function > 7 \<or> address > 0x1FFFF then ret (STATUS_INVALID_PARAMETER, 0)
     else do {
       (st, response) \<leftarrow> SdioSendCommand H 52 (SdioBuildCmd52Argument False function False address 0) 0x1A True;
       if \<not> NT_SUCCESS st then ret (st, 0)
       else if SdioR5HasError response then ret (STATUS_IO_DEVICE_ERROR, 0)
       else ret (STATUS_SUCCESS, ucast (response AND 0xFF)) })"

definition SdioCmd52Write :: "'w hw \<Rightarrow> u8 \<Rightarrow> u32 \<Rightarrow> u8 \<Rightarrow> u8 \<Rightarrow> ('w, NTSTATUS) drv" where
  "SdioCmd52Write H function address v verify =
    (if function > 7 \<or> address > 0x1FFFF then ret STATUS_INVALID_PARAMETER
     else do {
       (if (function = 1 \<and> address \<ge> 0x1000a \<and> address \<le> 0x1000c) \<or> (function = 0 \<and> (address = 2 \<or> address = 6))
        then bpS (\<lambda>b. b\<lparr>BpWindowValid := False\<rparr>) else ret ());
       (st, response) \<leftarrow> SdioSendCommand H 52 (SdioBuildCmd52Argument True function False address v) 0x1A True;
       if \<not> NT_SUCCESS st then ret st
       else if SdioR5HasError response then ret STATUS_IO_DEVICE_ERROR
       else if verify = 0 then ret STATUS_SUCCESS
       else do {
         (st, back) \<leftarrow> SdioCmd52Read H function address;
         if \<not> NT_SUCCESS st then ret st
         else ret (if (back XOR v) AND verify = 0 then STATUS_SUCCESS else STATUS_DEVICE_DATA_ERROR) } })"

end
