(* ===== verification/Sdio_Transfer.thy ===== *)
theory Sdio_Transfer
  imports Sdio_Host
begin

text \<open>
  Data transfers over CMD53: the byte-mode engine (\<open>SdioCmd53TransferRaw\<close> of \<open>sdio/sdio.c\<close>), the block-mode
  engine of the function 2 FIFO (\<open>sdio/fifo_blocks.h\<close>) and \<open>SdioFifoTransfer\<close>, which chooses between them.

  A buffer is the list of its bytes, so \<open>Length\<close> is the length of the list.  A transfer returns its status
  and the buffer: for a write the buffer it was given, for a read what was received, zeroes on failure.
\<close>

section \<open>Byte mode\<close>

text \<open>\<open>Word |= (ULONG)Buffer[Offset + Byte] << (Byte * 8)\<close> over the bytes that are left, four at most.\<close>

fun PackWord :: "bytes \<Rightarrow> nat \<Rightarrow> u32 \<Rightarrow> u32" where
  "PackWord [] k word = word"
| "PackWord (b # bs) k word = PackWord bs (Suc k) (word OR push_bit (8 * k) (ucast b))"

definition UnpackWord :: "u32 \<Rightarrow> bytes" where
  "UnpackWord word = [ucast word, ucast (drop_bit 8 word), ucast (drop_bit 16 word), ucast (drop_bit 24 word)]"

function StoreLoop :: "'w hw \<Rightarrow> bytes \<Rightarrow> ('w, unit) drv" where
  "StoreLoop H bs =
    (if bs = [] then ret ()
     else do { SdioWrite32 H 0x20 (PackWord (take 4 bs) 0 0); StoreLoop H (drop 4 bs) })"
  by pat_completeness auto
termination by (relation "measure (\<lambda>(H, bs). length bs)") auto

function FetchLoop :: "'w hw \<Rightarrow> nat \<Rightarrow> ('w, bytes) drv" where
  "FetchLoop H n =
    (if n = 0 then ret []
     else do {
       word \<leftarrow> SdioRead32 H 0x20;
       rest \<leftarrow> FetchLoop H (n - 4);
       ret (take n (UnpackWord word) @ rest) })"
  by pat_completeness auto
termination by (relation "measure (\<lambda>(H, n). n)") auto

declare StoreLoop.simps [simp del] FetchLoop.simps [simp del]

definition DataErrors :: u32 where
  "DataErrors = 0x8000 OR 0x080F0000 OR 0x00700000"

text \<open>The bus is in the mode that startup verified.\<close>

definition OperatingBus :: "u8 \<Rightarrow> adapter \<Rightarrow> bool" where
  "OperatingBus function a \<longleftrightarrow> (let b = ABus a in
     (function = 1 \<or> function = 2) \<and> BusModeStage b = 6 \<and> BusWidth b = 4 \<and> BusActualKhz b > 400 \<and>
     ((\<not> BusHighSpeedActive b \<and> BusActualKhz b \<le> 25000) \<or>
      (BusHighSpeedActive b \<and> BusHighSpeedStatus b = STATUS_SUCCESS \<and> BusActualKhz b \<le> 50000 \<and>
       BusCardSpeed b AND 0x0e = 2 \<and> HostControl (AHost a) AND 4 \<noteq> 0)))"

text \<open>One wait that does not find its event: a short stall while the allowance lasts, else a sleep.\<close>

definition WaitStep :: "'w hw \<Rightarrow> u8 \<Rightarrow> bool \<Rightarrow> nat \<Rightarrow> nat \<Rightarrow> nat \<Rightarrow> ('w, nat) drv" where
  "WaitStep H function operating limit phase fast =
    (if fast < limit then do {
       Stall H 10;
       cmdS (\<lambda>c. c\<lparr>Cmd53FastPolls := Cmd53FastPolls c + 1\<rparr>);
       (if function = 1 \<and> operating then cmdS (\<lambda>c. c\<lparr>RuntimeF1FastPolls := RuntimeF1FastPolls c + 1\<rparr>) else ret ());
       ret (fast + 1) }
     else do {
       cmdS (\<lambda>c. c\<lparr>Cmd53WaitSleeps := Cmd53WaitSleeps c + 1\<rparr>);
       start \<leftarrow> InterruptTime H;
       SdioDelayMilliseconds H 1;
       (if operating then do {
          cmdS (\<lambda>c. c\<lparr>RuntimeCmd53SleepPhase := (RuntimeCmd53SleepPhase c)[phase := RuntimeCmd53SleepPhase c ! phase + 1]\<rparr>);
          (if function = 1 then cmdS (\<lambda>c. c\<lparr>RuntimeF1WaitSleeps := RuntimeF1WaitSleeps c + 1\<rparr>)
           else cmdS (\<lambda>c. c\<lparr>RuntimeF2WaitSleeps := RuntimeF2WaitSleeps c + 1\<rparr>));
          now \<leftarrow> InterruptTime H;
          cmdS (\<lambda>c. c\<lparr>RuntimeCmd53Sleep100ns := RuntimeCmd53Sleep100ns c + (now - start)\<rparr>) }
        else ret ());
       ret fast })"

text \<open>The polls of one phase; \<open>Inl\<close> goes to \<open>Failed\<close>, \<open>Inr\<close> carries the last interrupt status and the allowance used.\<close>

fun PollLoop :: "'w hw \<Rightarrow> nat \<Rightarrow> u8 \<Rightarrow> bool \<Rightarrow> nat \<Rightarrow> nat \<Rightarrow> u32 \<Rightarrow> u64 \<Rightarrow> nat \<Rightarrow> u32 \<Rightarrow> ('w, NTSTATUS + u32 \<times> nat) drv" where
  "PollLoop H 0 function operating limit phase event deadline fast ist = ret (Inr (ist, fast))"
| "PollLoop H (Suc n) function operating limit phase event deadline fast ist = do {
     stop \<leftarrow> IoStopped H;
     if stop then ret (Inl STATUS_INVALID_DEVICE_STATE) else do {
     v \<leftarrow> SdioRead32 H 0x30;
     cmdS (\<lambda>c. c\<lparr>LastInterruptStatus := v\<rparr>);
     if v AND DataErrors \<noteq> 0 then ret (Inl STATUS_IO_DEVICE_ERROR)
     else if v AND event \<noteq> 0 then ret (Inr (v, fast))
     else do {
       now \<leftarrow> InterruptTime H;
       if now \<ge> deadline then ret (Inr (v, fast))
       else do {
         fast \<leftarrow> WaitStep H function operating limit phase fast;
         PollLoop H n function operating limit phase event deadline fast v } } } }"

definition PhaseEvent :: "bool \<Rightarrow> nat \<Rightarrow> u32" where
  "PhaseEvent Write phase = (if phase = 0 then 1 else if phase = 1 then (if Write then 0x10 else 0x20) else 2)"

text \<open>What a phase does once its event is there; the result is the buffer.\<close>

definition PhaseWork :: "'w hw \<Rightarrow> bool \<Rightarrow> nat \<Rightarrow> bytes \<Rightarrow> ('w, NTSTATUS + bytes) drv" where
  "PhaseWork H Write phase buf = do {
     st \<leftarrow> (if phase = 0 then do {
         r \<leftarrow> SdioRead32 H 0x10;
         cmdS (\<lambda>c. c\<lparr>LastResponse := r\<rparr>);
         ret (if SdioR5HasError r then STATUS_IO_DEVICE_ERROR else STATUS_SUCCESS) }
       else ret STATUS_SUCCESS);
     if st \<noteq> STATUS_SUCCESS then ret (Inl st)
     else do {
       SdioWrite32 H 0x30 (PhaseEvent Write phase);
       if phase = 1 then do {
         buf \<leftarrow> (if Write then do { StoreLoop H buf; ret buf } else FetchLoop H (length buf));
         cmdS (\<lambda>c. c\<lparr>Cmd53BytesTransferred := word_of_nat (length buf)\<rparr>);
         ret (Inr buf) }
       else ret (Inr buf) } }"

fun PhaseLoop :: "'w hw \<Rightarrow> nat list \<Rightarrow> u8 \<Rightarrow> bool \<Rightarrow> bool \<Rightarrow> nat \<Rightarrow> nat \<Rightarrow> bytes \<Rightarrow> ('w, NTSTATUS + bytes) drv" where
  "PhaseLoop H [] function Write operating limit fast buf = ret (Inr buf)"
| "PhaseLoop H (phase # phases) function Write operating limit fast buf = do {
     now \<leftarrow> InterruptTime H;
     let event = PhaseEvent Write phase;
     r \<leftarrow> PollLoop H 254 function operating limit phase event (now + 2500000) (if operating then 0 else fast) 0;
     case r of
       Inl st \<Rightarrow> ret (Inl st)
     | Inr (ist, fast) \<Rightarrow>
         if ist AND event = 0 then do {
           cmdS (\<lambda>c. c\<lparr>Cmd53Timeouts := Cmd53Timeouts c + 1\<rparr>);
           ret (Inl STATUS_IO_TIMEOUT) }
         else do {
           r \<leftarrow> PhaseWork H Write phase buf;
           case r of
             Inl st \<Rightarrow> ret (Inl st)
           | Inr buf \<Rightarrow> PhaseLoop H phases function Write operating limit fast buf } }"

definition TransferFailed :: "'w hw \<Rightarrow> bool \<Rightarrow> bytes \<Rightarrow> NTSTATUS \<Rightarrow> ('w, NTSTATUS \<times> bytes) drv" where
  "TransferFailed H Write buf st = do {
     r \<leftarrow> SdioResetHost H (2 OR 4);
     cmdS (\<lambda>c. c\<lparr>Cmd53ResetStatus := r\<rparr>);
     SdioWrite32 H 0x30 0xFFFFFFFF;
     ret (st, if Write then buf else replicate (length buf) 0) }"

text \<open>The registers a CMD53 is started with: block size, block count, mode, argument, command.\<close>

definition StartCmd53 :: "'w hw \<Rightarrow> u16 \<Rightarrow> u16 \<Rightarrow> u16 \<Rightarrow> ('w, unit) drv" where
  "StartCmd53 H bsize bcount mode = do {
     SdioWrite32 H 0x30 0xFFFFFFFF;
     SdioWrite16 H 0x04 bsize;
     SdioWrite16 H 0x06 bcount;
     SdioWrite16 H 0x0C mode;
     argument \<leftarrow> asks (\<lambda>a. LastArgument (ACmd a));
     SdioWrite32 H 0x08 argument;
     SdioWrite16 H 0x0E (MakeCmd 53 (2 OR 8 OR 0x10 OR 0x20)) }"

definition Cmd53Valid :: "u8 \<Rightarrow> u32 \<Rightarrow> nat \<Rightarrow> bool \<Rightarrow> bool" where
  "Cmd53Valid function address len Increment \<longleftrightarrow>
     \<not> (function > 7 \<or> address > 0x1FFFF \<or> len = 0 \<or> len > 512 \<or>
        (Increment \<and> \<not> SdioIsValidByteRead function address (word_of_nat len)))"

definition SdioCmd53TransferRaw ::
  "'w hw \<Rightarrow> u8 \<Rightarrow> u32 \<Rightarrow> bytes \<Rightarrow> bool \<Rightarrow> bool \<Rightarrow> ('w, NTSTATUS \<times> bytes) drv" where
  "SdioCmd53TransferRaw H function address buf Write Increment =
    (if \<not> Cmd53Valid function address (length buf) Increment then ret (STATUS_INVALID_PARAMETER, buf)
     else do {
       operating \<leftarrow> asks (OperatingBus function);
       let limit = (if operating then 5 else if function = 2 then 4 else 0);
       let buf = (if Write then buf else replicate (length buf) 0);
       cmdS (\<lambda>c. c\<lparr>Cmd53BytesTransferred := 0, Cmd53ResetStatus := STATUS_SUCCESS, LastCommand := 53,
         LastArgument := SdioBuildCmd53Argument Write function False Increment address (word_of_nat (length buf)),
         LastResponse := 0, LastInterruptStatus := 0\<rparr>);
       st \<leftarrow> SdioWaitInhibitClear H (1 OR 2);
       if \<not> NT_SUCCESS st then TransferFailed H Write buf st
       else do {
         StartCmd53 H (word_of_nat (length buf)) 1 (if Write then 0 else 0x10);
         r \<leftarrow> PhaseLoop H [0, 1, 2] function Write operating limit 0 buf;
         case r of
           Inl st \<Rightarrow> TransferFailed H Write buf st
         | Inr buf \<Rightarrow> do {
             cmdS (\<lambda>c. if Write then c\<lparr>Cmd53WriteCount := Cmd53WriteCount c + 1\<rparr>
                        else c\<lparr>Cmd53ReadCount := Cmd53ReadCount c + 1\<rparr>);
             ret (STATUS_SUCCESS, buf) } } })"

definition SdioCmd53Transfer ::
  "'w hw \<Rightarrow> u8 \<Rightarrow> u32 \<Rightarrow> bytes \<Rightarrow> bool \<Rightarrow> bool \<Rightarrow> ('w, NTSTATUS \<times> bytes) drv" where
  "SdioCmd53Transfer H function address buf Write Increment = do {
     let bucket = (if function = 1 then 8 else if Write then 10 else 9);
     start \<leftarrow> (if function = 1 \<or> function = 2 then TimingBegin H bucket else ret 0);
     r \<leftarrow> SdioCmd53TransferRaw H function address buf Write Increment;
     (if function = 1 \<or> function = 2 then TimingEnd H bucket start else ret ());
     ret r }"

definition SdioCmd53Read :: "'w hw \<Rightarrow> u8 \<Rightarrow> u32 \<Rightarrow> bytes \<Rightarrow> ('w, NTSTATUS \<times> bytes) drv" where
  "SdioCmd53Read H function address buf = SdioCmd53Transfer H function address buf False True"

definition SdioCmd53Write :: "'w hw \<Rightarrow> u8 \<Rightarrow> u32 \<Rightarrow> bytes \<Rightarrow> ('w, NTSTATUS \<times> bytes) drv" where
  "SdioCmd53Write H function address buf = SdioCmd53Transfer H function address buf True True"

section \<open>Block mode\<close>

definition SdioPrepareRuntimeFifo :: "'w hw \<Rightarrow> ('w, NTSTATUS) drv" where
  "SdioPrepareRuntimeFifo H = do {
     fifoS (\<lambda>f. f\<lparr>FifoBlockReady := False\<rparr>);
     b \<leftarrow> asks ABus;
     if BusModeStage b \<noteq> 6 \<or> BusWidth b \<noteq> 4 \<or> BusActualKhz b \<le> 400 then ret STATUS_INVALID_DEVICE_STATE
     else do {
       (st, caps) \<leftarrow> SdioCmd52Read H 0 8;
       orelse st (
         if caps AND 2 = 0 then do { fifoS (\<lambda>f. f\<lparr>FifoTransportFailed := False\<rparr>); ret STATUS_SUCCESS }
         else do {
           (st, lo) \<leftarrow> SdioCmd52Read H 0 0x210;
           orelse st (do {
           (st, hi) \<leftarrow> SdioCmd52Read H 0 0x211;
           orelse st (
             if lo \<noteq> 0 \<or> hi \<noteq> 2 then ret STATUS_DEVICE_CONFIGURATION_ERROR
             else do {
               fifoS (\<lambda>f. f\<lparr>FifoBlockReady := True, FifoTransportFailed := False\<rparr>);
               ret STATUS_SUCCESS }) }) }) } }"

definition LateCompletion :: "u64 \<Rightarrow> u64 \<Rightarrow> ('w, NTSTATUS option) drv" where
  "LateCompletion now deadline = do {
     (if now \<ge> deadline then fifoS (\<lambda>f. f\<lparr>FifoLateCompletionAccepted := FifoLateCompletionAccepted f + 1\<rparr>) else ret ());
     ret (Some STATUS_SUCCESS) }"

text \<open>The test of the awaited event; a result leaves \<open>SdioFifoWait\<close>.\<close>

definition FifoEvent :: "'w hw \<Rightarrow> u32 \<Rightarrow> u32 \<Rightarrow> u64 \<Rightarrow> u64 \<Rightarrow> ('w, NTSTATUS option) drv" where
  "FifoEvent H event status now deadline =
    (if event = 0x20 then do {
       present \<leftarrow> SdioRead32 H 0x24;
       if present AND 0x800 \<noteq> 0 then LateCompletion now deadline else ret None }
     else if event = 0x10 then do {
       present \<leftarrow> SdioRead32 H 0x24;
       if present AND 0x400 \<noteq> 0 then LateCompletion now deadline else ret None }
     else if status AND event \<noteq> 0 then LateCompletion now deadline
     else ret None)"

definition FifoPause :: "'w hw \<Rightarrow> nat \<Rightarrow> u32 \<Rightarrow> ('w, unit) drv" where
  "FifoPause H poll event =
    (if poll < 5 then do { Stall H 10; cmdS (\<lambda>c. c\<lparr>Cmd53FastPolls := Cmd53FastPolls c + 1\<rparr>) }
     else do {
       let phase = (if event = 1 then 0 else if event = 2 then 2 else (1::nat));
       start \<leftarrow> InterruptTime H;
       SdioDelayMilliseconds H 1;
       cmdS (\<lambda>c. c\<lparr>Cmd53WaitSleeps := Cmd53WaitSleeps c + 1, RuntimeF2WaitSleeps := RuntimeF2WaitSleeps c + 1,
         RuntimeCmd53SleepPhase := (RuntimeCmd53SleepPhase c)[phase := RuntimeCmd53SleepPhase c ! phase + 1]\<rparr>);
       now \<leftarrow> InterruptTime H;
       cmdS (\<lambda>c. c\<lparr>RuntimeCmd53Sleep100ns := RuntimeCmd53Sleep100ns c + (now - start)\<rparr>) })"

definition FifoTimeout :: "('w, NTSTATUS) drv" where
  "FifoTimeout = do { cmdS (\<lambda>c. c\<lparr>Cmd53Timeouts := Cmd53Timeouts c + 1\<rparr>); ret STATUS_IO_TIMEOUT }"

fun FifoWaitLoop :: "'w hw \<Rightarrow> nat \<Rightarrow> nat \<Rightarrow> u32 \<Rightarrow> u64 \<Rightarrow> ('w, NTSTATUS) drv" where
  "FifoWaitLoop H 0 poll event deadline = FifoTimeout"
| "FifoWaitLoop H (Suc n) poll event deadline = do {
     stop \<leftarrow> IoStopped H;
     if stop then ret STATUS_INVALID_DEVICE_STATE else do {
     status \<leftarrow> SdioRead32 H 0x30;
     cmdS (\<lambda>c. c\<lparr>LastInterruptStatus := status\<rparr>);
     if status AND DataErrors \<noteq> 0 then ret STATUS_IO_DEVICE_ERROR else do {
     now \<leftarrow> InterruptTime H;
     r \<leftarrow> FifoEvent H event status now deadline;
     case r of
       Some st \<Rightarrow> ret st
     | None \<Rightarrow>
         if event \<noteq> 2 \<and> status AND 2 \<noteq> 0 then ret STATUS_DEVICE_DATA_ERROR
         else if now \<ge> deadline then FifoTimeout
         else do { FifoPause H poll event; FifoWaitLoop H n (Suc poll) event deadline } } } }"

definition SdioFifoWait :: "'w hw \<Rightarrow> u32 \<Rightarrow> u64 \<Rightarrow> ('w, NTSTATUS) drv" where
  "SdioFifoWait H event deadline = FifoWaitLoop H 254 0 event deadline"

text \<open>The words of one 512-byte block, with the stop flag read before each; the bytes are those written or received.\<close>

fun BlockWords :: "'w hw \<Rightarrow> nat \<Rightarrow> bool \<Rightarrow> bytes \<Rightarrow> ('w, NTSTATUS + bytes) drv" where
  "BlockWords H 0 Write bs = ret (Inr [])"
| "BlockWords H (Suc n) Write bs = do {
     stop \<leftarrow> IoStopped H;
     if stop then ret (Inl STATUS_INVALID_DEVICE_STATE) else do {
     w \<leftarrow> (if Write then do { SdioWrite32 H 0x20 (PackWord (take 4 bs) 0 0); ret (take 4 bs) }
           else do { word \<leftarrow> SdioRead32 H 0x20; ret (UnpackWord word) });
     r \<leftarrow> BlockWords H n Write (drop 4 bs);
     ret (case r of Inl st \<Rightarrow> Inl st | Inr rest \<Rightarrow> Inr (w @ rest)) } }"

fun BlockLoop :: "'w hw \<Rightarrow> nat \<Rightarrow> bool \<Rightarrow> u64 \<Rightarrow> bytes \<Rightarrow> ('w, NTSTATUS \<times> u32 + bytes) drv" where
  "BlockLoop H 0 Write deadline bs = ret (Inr [])"
| "BlockLoop H (Suc n) Write deadline bs = do {
     let ready = (if Write then 0x10 else 0x20);
     st \<leftarrow> SdioFifoWait H ready deadline;
     if \<not> NT_SUCCESS st then ret (Inl (st, ready)) else do {
     SdioWrite32 H 0x30 ready;
     r \<leftarrow> BlockWords H 128 Write (take 512 bs);
     case r of
       Inl st \<Rightarrow> ret (Inl (st, ready))
     | Inr d \<Rightarrow> do {
         cmdS (\<lambda>c. c\<lparr>Cmd53BytesTransferred := Cmd53BytesTransferred c + 512\<rparr>);
         r \<leftarrow> BlockLoop H n Write deadline (drop 512 bs);
         ret (case r of Inl e \<Rightarrow> Inl e | Inr rest \<Rightarrow> Inr (d @ rest)) } } }"

text \<open>The body between the wait for an idle bus and the counters of success; \<open>Inl (status, waitEvent)\<close> goes to \<open>Failed\<close>.\<close>

definition BlocksBody :: "'w hw \<Rightarrow> nat \<Rightarrow> bool \<Rightarrow> bytes \<Rightarrow> ('w, NTSTATUS \<times> u32 + bytes) drv" where
  "BlocksBody H blocks Write buf = do {
     cmdS (\<lambda>c. c\<lparr>LastCommand := 53, LastArgument := SdioBuildCmd53Argument Write 2 True False 0x8000 (word_of_nat blocks),
                 LastResponse := 0\<rparr>);
     StartCmd53 H 512 (word_of_nat blocks) (2 OR (if blocks > 1 then 0x20 else 0) OR (if Write then 0 else 0x10));
     now \<leftarrow> InterruptTime H;
     let deadline = now + 2500000;
     st \<leftarrow> SdioFifoWait H 1 deadline;
     if \<not> NT_SUCCESS st then ret (Inl (st, 1)) else do {
     response \<leftarrow> SdioRead32 H 0x10;
     cmdS (\<lambda>c. c\<lparr>LastResponse := response\<rparr>);
     if SdioR5HasError response then ret (Inl (STATUS_IO_DEVICE_ERROR, 1)) else do {
     SdioWrite32 H 0x30 1;
     r \<leftarrow> BlockLoop H blocks Write deadline buf;
     case r of
       Inl e \<Rightarrow> ret (Inl e)
     | Inr d \<Rightarrow> do {
         st \<leftarrow> SdioFifoWait H 2 deadline;
         if \<not> NT_SUCCESS st then ret (Inl (st, 2)) else do {
         SdioWrite32 H 0x30 2;
         ret (Inr d) } } } } }"

definition BlocksFailed :: "'w hw \<Rightarrow> nat \<Rightarrow> bool \<Rightarrow> bytes \<Rightarrow> NTSTATUS \<Rightarrow> u32 \<Rightarrow> ('w, NTSTATUS \<times> bytes) drv" where
  "BlocksFailed H blocks Write buf st event = do {
     c \<leftarrow> asks ACmd;
     fifoS (\<lambda>f. f\<lparr>FifoBlockReady := False, FifoTransportFailed := True, FifoBlockFailures := FifoBlockFailures f + 1,
       FifoLastFailureStatus := st, FifoLastFailureWrite := (if Write then 1 else 0),
       FifoLastFailureBlocks := word_of_nat blocks, FifoLastFailureCompletedBlocks := Cmd53BytesTransferred c div 512,
       FifoLastFailureWaitEvent := event, FifoLastFailureInterruptStatus := LastInterruptStatus c\<rparr>);
     present \<leftarrow> SdioRead32 H 0x24;
     fifoS (\<lambda>f. f\<lparr>FifoLastFailurePresentState := present,
       FifoLastFailureBytesTransferred := Cmd53BytesTransferred c\<rparr>);
     TransferFailed H Write buf st }"

definition SdioFifoBlocksRaw :: "'w hw \<Rightarrow> bytes \<Rightarrow> nat \<Rightarrow> bool \<Rightarrow> ('w, NTSTATUS \<times> bytes) drv" where
  "SdioFifoBlocksRaw H buf blocks Write = do {
     ready \<leftarrow> asks (\<lambda>a. FifoBlockReady (AFifo a));
     if \<not> ready \<or> blocks = 0 \<or> blocks > 32 then ret (STATUS_INVALID_PARAMETER, buf) else do {
     stop \<leftarrow> IoStopped H;
     if stop then ret (STATUS_INVALID_DEVICE_STATE, buf) else do {
     let buf = (if Write then buf else replicate (length buf) 0);
     cmdS (\<lambda>c. c\<lparr>Cmd53BytesTransferred := 0, Cmd53ResetStatus := STATUS_SUCCESS\<rparr>);
     st \<leftarrow> SdioWaitInhibitClear H (1 OR 2);
     if \<not> NT_SUCCESS st then BlocksFailed H blocks Write buf st 0 else do {
     r \<leftarrow> BlocksBody H blocks Write buf;
     case r of
       Inl (st, event) \<Rightarrow> BlocksFailed H blocks Write buf st event
     | Inr d \<Rightarrow> do {
         cmdS (\<lambda>c. if Write then c\<lparr>Cmd53WriteCount := Cmd53WriteCount c + 1\<rparr>
                    else c\<lparr>Cmd53ReadCount := Cmd53ReadCount c + 1\<rparr>);
         fifoS (\<lambda>f. f\<lparr>FifoBlockCommands := FifoBlockCommands f + 1,
           FifoBlockBytes := FifoBlockBytes f + word_of_nat blocks * 512\<rparr>);
         ret (STATUS_SUCCESS, d) } } } } }"

definition SdioFifoBlocks :: "'w hw \<Rightarrow> bytes \<Rightarrow> nat \<Rightarrow> bool \<Rightarrow> ('w, NTSTATUS \<times> bytes) drv" where
  "SdioFifoBlocks H buf blocks Write = do {
     let bucket = (if Write then 10 else 9);
     start \<leftarrow> TimingBegin H bucket;
     r \<leftarrow> SdioFifoBlocksRaw H buf blocks Write;
     TimingEnd H bucket start;
     ret r }"

section \<open>The FIFO\<close>

text \<open>How many bytes the next transfer takes of \<open>n\<close> that remain, and in how many blocks (0 for byte mode).\<close>

definition FifoChunk :: "bool \<Rightarrow> nat \<Rightarrow> nat \<times> nat" where
  "FifoChunk ready n =
    (if ready \<and> n \<ge> 512 then let blocks = min (n div 512) 32 in (blocks * 512, blocks) else (min n 512, 0))"

lemma FifoChunk_bounds: "0 < n \<Longrightarrow> 0 < fst (FifoChunk ready n) \<and> fst (FifoChunk ready n) \<le> n"
  by (auto simp: FifoChunk_def Let_def min_def)

text \<open>The loop over what is left of the buffer; \<open>Inl\<close> is the status of the transfer that failed.\<close>

function FifoLoop :: "'w hw \<Rightarrow> bytes \<Rightarrow> bool \<Rightarrow> ('w, NTSTATUS + bytes) drv" where
  "FifoLoop H buf Write =
    (if buf = [] then ret (Inr [])
     else do {
       ready \<leftarrow> asks (\<lambda>a. FifoBlockReady (AFifo a));
       let chunk = fst (FifoChunk ready (length buf));
       let blocks = snd (FifoChunk ready (length buf));
       (st, d) \<leftarrow> (if blocks > 0 then SdioFifoBlocks H (take chunk buf) blocks Write
                   else SdioCmd53Transfer H 2 0x8000 (take chunk buf) Write Write);
       if \<not> NT_SUCCESS st then ret (Inl st)
       else do {
         r \<leftarrow> FifoLoop H (drop chunk buf) Write;
         ret (case r of Inl st \<Rightarrow> Inl st | Inr rest \<Rightarrow> Inr (d @ rest)) } })"
  by pat_completeness auto
termination
  by (relation "measure (\<lambda>(H, buf, Write). length buf)") (simp_all add: FifoChunk_bounds)

declare FifoLoop.simps [simp del]

definition SdioFifoTransfer :: "'w hw \<Rightarrow> bytes \<Rightarrow> bool \<Rightarrow> ('w, NTSTATUS \<times> bytes) drv" where
  "SdioFifoTransfer H buf Write =
    (if buf = [] \<or> length buf > 65536 \<or> length buf mod 4 \<noteq> 0 then ret (STATUS_INVALID_PARAMETER, buf)
     else do {
       failed \<leftarrow> asks (\<lambda>a. FifoTransportFailed (AFifo a));
       if failed then ret (STATUS_INVALID_DEVICE_STATE, if Write then buf else replicate (length buf) 0)
       else do {
         r \<leftarrow> FifoLoop H buf Write;
         case r of
           Inl st \<Rightarrow> do {
             fifoS (\<lambda>f. f\<lparr>FifoTransportFailed := True\<rparr>);
             ret (st, if Write then buf else replicate (length buf) 0) }
         | Inr d \<Rightarrow> ret (STATUS_SUCCESS, d) } })"

section \<open>The data register is transparent\<close>

lemma byte_slices:
  fixes a b c d :: u8
  defines "w \<equiv> ucast a OR push_bit 8 (ucast b) OR push_bit 16 (ucast c) OR push_bit 24 (ucast d) :: u32"
  shows "ucast w = a" "ucast (drop_bit 8 w) = b" "ucast (drop_bit 16 w) = c" "ucast (drop_bit 24 w) = d"
  unfolding w_def by (rule bit_word_eqI; auto simp: bit_simps dest: bit_imp_le_length)+

lemma PackWord_expand:
  "PackWord [a] 0 0 = ucast a OR push_bit 8 (ucast (0::u8)) OR push_bit 16 (ucast (0::u8)) OR push_bit 24 (ucast (0::u8))"
  "PackWord [a, b] 0 0 = ucast a OR push_bit 8 (ucast b) OR push_bit 16 (ucast (0::u8)) OR push_bit 24 (ucast (0::u8))"
  "PackWord [a, b, c] 0 0 = ucast a OR push_bit 8 (ucast b) OR push_bit 16 (ucast c) OR push_bit 24 (ucast (0::u8))"
  "PackWord [a, b, c, d] 0 0 = ucast a OR push_bit 8 (ucast b) OR push_bit 16 (ucast c) OR push_bit 24 (ucast d)"
  by (simp_all add: or.assoc numeral_eq_Suc)

lemma Unpack_Pack:
  assumes "bs \<noteq> []" "length bs \<le> 4"
  shows "take (length bs) (UnpackWord (PackWord bs 0 0)) = bs"
proof -
  consider a where "bs = [a]" | a b where "bs = [a, b]" | a b c where "bs = [a, b, c]" | a b c d where "bs = [a, b, c, d]"
    using assms by (cases bs rule: remdups_adj.cases; auto simp: le_Suc_eq length_Suc_conv numeral_eq_Suc)
  then show ?thesis by cases (simp_all only: PackWord_expand UnpackWord_def byte_slices, simp_all)
qed


text \<open>A controller whose data port is a queue of words, and nothing else.\<close>

definition queue_hw :: "u32 list hw" where
  "queue_hw = \<lparr>hw_read8 = \<lambda>_ q. (0, q), hw_read16 = \<lambda>_ q. (0, q),
     hw_read32 = \<lambda>off q. (if off = 0x20 then (hd q, tl q) else (0, q)),
     hw_write8 = \<lambda>_ _ q. q, hw_write16 = \<lambda>_ _ q. q,
     hw_write32 = \<lambda>off v q. (if off = 0x20 then q @ [v] else q),
     hw_time = \<lambda>q. (0, q), hw_qpc = \<lambda>q. (0, q), hw_delay = \<lambda>_ q. q, hw_stopped = \<lambda>q. (False, q),
     hw_netstop = \<lambda>q. (False, q)\<rparr>"

function words_of :: "bytes \<Rightarrow> u32 list" where
  "words_of bs = (if bs = [] then [] else PackWord (take 4 bs) 0 0 # words_of (drop 4 bs))"
  by pat_completeness auto
termination by (relation "measure length") auto

declare words_of.simps [simp del]

lemma StoreLoop_queue: "run_state (StoreLoop queue_hw bs) (a, q) = ((), (a, q @ words_of bs))"
proof (induction bs arbitrary: q rule: length_induct)
  case (1 bs)
  then show ?case
    by (subst StoreLoop.simps, subst words_of.simps)
      (simp add: SdioWrite32_def IoStopped_def world_def act_def queue_hw_def)
qed

lemma FetchLoop_queue: "run_state (FetchLoop queue_hw (length bs)) (a, words_of bs @ q) = (bs, (a, q))"
proof (induction bs rule: length_induct)
  case (1 bs)
  show ?case
  proof (cases "bs = []")
    case True
    then show ?thesis by (simp add: FetchLoop.simps words_of.simps)
  next
    case False
    have u: "take (length bs) (UnpackWord (PackWord (take 4 bs) 0 0)) = take 4 bs"
      using Unpack_Pack [of "take 4 bs"] False
      by (cases "length bs \<le> 4") (simp_all add: UnpackWord_def min_def)
    have "run_state (FetchLoop queue_hw (length (drop 4 bs))) (a, words_of (drop 4 bs) @ q) = (drop 4 bs, (a, q))"
      using "1.IH" False by (metis length_drop diff_less length_greater_0_conv zero_less_numeral)
    then show ?thesis using False u
      by (subst FetchLoop.simps, subst words_of.simps)
        (simp add: SdioRead32_def IoStopped_def world_def queue_hw_def)
  qed
qed


section \<open>A transfer returns as many bytes as it was given\<close>

definition right_length :: "nat \<Rightarrow> 'e + bytes \<Rightarrow> bool" where
  "right_length n r \<longleftrightarrow> (case r of Inl e \<Rightarrow> True | Inr d \<Rightarrow> length d = n)"

lemma right_length_simps [simp]: "right_length n (Inl e)" "right_length n (Inr d) \<longleftrightarrow> length d = n"
  by (simp_all add: right_length_def)

lemma right_length_append:
  "length d = a \<Longrightarrow> right_length b r \<Longrightarrow> n = a + b \<Longrightarrow> right_length n (case r of Inl e \<Rightarrow> Inl e | Inr rest \<Rightarrow> Inr (d @ rest))"
  by (cases r) auto

lemma FetchLoop_length: "yields (\<lambda>d. length d = n) (FetchLoop H n)"
proof (induction n rule: less_induct)
  case (less n)
  show ?case
  proof (cases "n = 0")
    case False
    then have "yields (\<lambda>d. length d = n - 4) (FetchLoop H (n - 4))" using less by simp
    then have rest: "yields (\<lambda>d. length (take n (UnpackWord w) @ d) = n) (FetchLoop H (n - 4))" for w
      using False by (auto simp: UnpackWord_def yields_def)
    show ?thesis
      using False by (subst FetchLoop.simps) (simp, (rule yields_bind_of [OF rest] yields_bind yields_return | assumption)+)
  qed (simp add: FetchLoop.simps yields_return)
qed

lemma PhaseWork_length: "yields (right_length (length buf)) (PhaseWork H Write phase buf)"
proof -
  have part: "yields (\<lambda>d. length d = length buf) (if Write then do { StoreLoop H buf; ret buf } else FetchLoop H (length buf))"
    by (auto intro!: yields_intros FetchLoop_length)
  show ?thesis
    unfolding PhaseWork_def by (rule yields_bind_of [OF part] yields_intros | simp)+
qed

lemma PhaseLoop_length: "yields (right_length (length buf)) (PhaseLoop H ps function Write operating limit fast buf)"
proof (induction ps arbitrary: fast buf)
  case (Cons p ps)
  have next': "yields (right_length (length buf)) (case r of Inl st \<Rightarrow> ret (Inl st)
      | Inr buf \<Rightarrow> PhaseLoop H ps function Write operating limit fast buf)" if "right_length (length buf) r" for r fast
    using that Cons.IH by (cases r) (auto intro: yields_return, metis)
  show ?case
    unfolding PhaseLoop.simps Let_def
    by (rule next' yields_bind_of [OF PhaseWork_length] yields_intros | assumption | simp)+
qed (simp add: yields_return)

lemma TransferFailed_length: "yields (\<lambda>(st, d). length d = length buf) (TransferFailed H Write buf st)"
  unfolding TransferFailed_def by (intro yields_intros) simp

lemma Cmd53Transfer_length: "yields (\<lambda>(st, d). length d = length buf) (SdioCmd53Transfer H function address buf Write Increment)"
proof -
  define b where "b = (if Write then buf else replicate (length buf) 0)"
  have b: "length b = length buf" by (simp add: b_def)
  have failed: "yields (\<lambda>(st, d). length d = length buf) (TransferFailed H Write b st)" for st
    using TransferFailed_length [of b H Write st] by (simp add: b)
  have phases: "yields (right_length (length buf)) (PhaseLoop H ps function Write operating limit fast b)" for ps operating limit fast
    using PhaseLoop_length [of b H ps "function" Write operating limit fast] by (simp add: b)
  have raw: "yields (\<lambda>(st, d). length d = length buf) (SdioCmd53TransferRaw H function address buf Write Increment)"
    unfolding SdioCmd53TransferRaw_def Let_def b_def [symmetric]
    by (rule failed yields_bind_of [OF phases] yields_intros | simp)+
  show ?thesis
    unfolding SdioCmd53Transfer_def Let_def by (rule yields_bind_of [OF raw] yields_return yields_bind | assumption)+
qed

lemma BlockWords_length: "length bs = 4 * n \<Longrightarrow> yields (right_length (4 * n)) (BlockWords H n Write bs)"
proof (induction n arbitrary: bs)
  case (Suc n)
  have word: "yields (\<lambda>w. length w = 4) (if Write then do { SdioWrite32 H 0x20 (PackWord (take 4 bs) 0 0); ret (take 4 bs) }
      else do { word \<leftarrow> SdioRead32 H 0x20; ret (UnpackWord word) })"
    using Suc.prems by (auto simp: UnpackWord_def intro!: yields_intros)
  have rest: "yields (right_length (4 * n)) (BlockWords H n Write (drop 4 bs))" using Suc by simp
  show ?case
    unfolding BlockWords.simps
    by (rule yields_bind_of [OF word] yields_bind_of [OF rest] yields_intros right_length_append | assumption | simp)+
qed (simp add: yields_return)

lemma BlockLoop_length: "length bs = 512 * n \<Longrightarrow> yields (right_length (512 * n)) (BlockLoop H n Write deadline bs)"
proof (induction n arbitrary: bs)
  case (Suc n)
  have words: "yields (right_length 512) (BlockWords H 128 Write (take 512 bs))"
    using BlockWords_length [of "take 512 bs" 128 H Write] Suc.prems by simp
  have rest: "yields (right_length (512 * n)) (BlockLoop H n Write deadline (drop 512 bs))" using Suc by simp
  show ?case
    unfolding BlockLoop.simps Let_def
    by (rule yields_bind_of [OF words] yields_bind_of [OF rest] yields_intros right_length_append | assumption | simp)+
qed (simp add: yields_return)

lemma FifoBlocks_length:
  assumes "length buf = 512 * blocks"
  shows "yields (\<lambda>(st, d). length d = length buf) (SdioFifoBlocks H buf blocks Write)"
proof -
  define b where "b = (if Write then buf else replicate (length buf) 0)"
  have b: "length b = 512 * blocks" by (simp add: b_def assms)
  have body: "yields (right_length (512 * blocks)) (BlocksBody H blocks Write b)"
    unfolding BlocksBody_def Let_def
    by (rule yields_bind_of [OF BlockLoop_length [OF b]] yields_intros | simp)+
  have failed: "yields (\<lambda>(st, d). length d = length buf) (BlocksFailed H blocks Write b st e)" for st e
    using TransferFailed_length [of b H Write st] unfolding BlocksFailed_def by (intro yields_bind) (simp add: b assms)
  have raw: "yields (\<lambda>(st, d). length d = length buf) (SdioFifoBlocksRaw H buf blocks Write)"
    unfolding SdioFifoBlocksRaw_def Let_def b_def [symmetric]
    by (rule failed yields_bind_of [OF body] yields_intros | simp add: assms)+
  show ?thesis
    unfolding SdioFifoBlocks_def Let_def by (rule yields_bind_of [OF raw] yields_return yields_bind | assumption)+
qed

lemma FifoLoop_length: "yields (right_length (length buf)) (FifoLoop H buf Write)"
proof (induction buf rule: length_induct)
  case (1 buf)
  show ?case
  proof (cases "buf = []")
    case False
    define chunk where "chunk = (\<lambda>ready. fst (FifoChunk ready (length buf)))"
    define blocks where "blocks = (\<lambda>ready. snd (FifoChunk ready (length buf)))"
    have c: "0 < chunk ready" "chunk ready \<le> length buf" for ready
      using FifoChunk_bounds [of "length buf" ready] False by (auto simp: chunk_def)
    have b: "blocks ready > 0 \<Longrightarrow> chunk ready = 512 * blocks ready" for ready
      by (auto simp: blocks_def chunk_def FifoChunk_def Let_def split: if_splits)
    have part: "yields (\<lambda>(st, d). length d = chunk ready)
        (if blocks ready > 0 then SdioFifoBlocks H (take (chunk ready) buf) (blocks ready) Write
         else SdioCmd53Transfer H 2 0x8000 (take (chunk ready) buf) Write Write)" for ready
    proof -
      have n: "length (take (chunk ready) buf) = chunk ready" using c(2) by simp
      show ?thesis
        using FifoBlocks_length [of "take (chunk ready) buf" "blocks ready"] Cmd53Transfer_length [of "take (chunk ready) buf"] b
        unfolding n by (intro yields_if) simp_all
    qed
    have rest: "yields (right_length (length buf - chunk ready)) (FifoLoop H (drop (chunk ready) buf) Write)" for ready
      using 1 c [of ready] False by (metis diff_less length_drop length_greater_0_conv)
    have eq: "FifoLoop H buf Write = do {
       ready \<leftarrow> asks (\<lambda>a. FifoBlockReady (AFifo a));
       (st, d) \<leftarrow> (if blocks ready > 0 then SdioFifoBlocks H (take (chunk ready) buf) (blocks ready) Write
                   else SdioCmd53Transfer H 2 0x8000 (take (chunk ready) buf) Write Write);
       if \<not> NT_SUCCESS st then ret (Inl st)
       else do {
         r \<leftarrow> FifoLoop H (drop (chunk ready) buf) Write;
         ret (case r of Inl st \<Rightarrow> Inl st | Inr rest \<Rightarrow> Inr (d @ rest)) } }"
      unfolding chunk_def blocks_def using False by (subst FifoLoop.simps) (simp add: Let_def)
    show ?thesis
      unfolding eq
      by (rule yields_bind) (rule yields_bind_of [OF part] yields_bind_of [OF rest] yields_if yields_return yields_prod right_length_append | assumption | simp add: c(2))+
  qed (simp add: FifoLoop.simps yields_return)
qed

lemma FifoTransfer_length: "yields (\<lambda>(st, d). length d = length buf) (SdioFifoTransfer H buf Write)"
  unfolding SdioFifoTransfer_def
  by (rule yields_bind_of [OF FifoLoop_length] yields_intros | simp)+

end
