(* ===== verification/Sdio_Bus.thy ===== *)
theory Sdio_Bus
  imports Sdio_Transfer
begin

text \<open>
  The bus mode of card and controller (\<open>sdio/bus_mode.h\<close>) and the operating condition handshake with CMD5
  (\<open>SdioNegotiateOperatingConditionWithRetries\<close> of \<open>sdio/sdio.c\<close>).
\<close>

section \<open>Bus mode\<close>

text \<open>The controller half of a mode change: gate the card clock, write the control register and read it back.\<close>

definition WriteHostControl :: "'w hw \<Rightarrow> u8 \<Rightarrow> ('w, NTSTATUS) drv" where
  "WriteHostControl H expected = do {
     clock \<leftarrow> SdioRead16 H 0x2C;
     SdioWrite16 H 0x2C (clock AND NOT 4);
     SdioWrite8 H 0x28 expected;
     ctl \<leftarrow> SdioRead8 H 0x28;
     hostS (\<lambda>h. h\<lparr>HostControl := ucast ctl\<rparr>);
     ret (if ctl \<noteq> expected then STATUS_DEVICE_DATA_ERROR else STATUS_SUCCESS) }"

text \<open>The card's speed register set to default timing; cards before SDIO 1.2 have none.\<close>

definition DefaultCardSpeed :: "'w hw \<Rightarrow> ('w, NTSTATUS \<times> u8) drv" where
  "DefaultCardSpeed H = do {
     rev \<leftarrow> asks (\<lambda>a. CccrRevision (ACard a));
     if rev AND 15 \<ge> 2 then do {
       (st, speed) \<leftarrow> SdioCmd52Read H 0 0x13;
       if \<not> NT_SUCCESS st then ret (st, 0)
       else do {
         let speed = speed AND NOT 0x0e;
         st \<leftarrow> SdioCmd52Write H 0 0x13 speed 0x0e;
         ret (st, speed) } }
     else ret (STATUS_SUCCESS, 0) }"

definition SdioSetDefaultBus :: "'w hw \<Rightarrow> bool \<Rightarrow> ('w, NTSTATUS) drv" where
  "SdioSetDefaultBus H Wide = do {
     busS (\<lambda>b. b\<lparr>BusHighSpeedActive := False\<rparr>);
     stop \<leftarrow> IoStopped H;
     if stop then ret STATUS_INVALID_DEVICE_STATE else do {
     st \<leftarrow> SdioSetClock H 400;
     orelse st (do {
     (st, speed) \<leftarrow> DefaultCardSpeed H;
     orelse st (do {
     (st, crd) \<leftarrow> SdioCmd52Read H 0 7;
     orelse st (do {
     let crd = (crd AND NOT 3) OR (if Wide then 2 else 0);
     st \<leftarrow> SdioCmd52Write H 0 7 crd 3;
     orelse st (do {
     stop \<leftarrow> IoStopped H;
     if stop then ret STATUS_INVALID_DEVICE_STATE else do {
     ctl \<leftarrow> SdioRead8 H 0x28;
     st \<leftarrow> WriteHostControl H ((ctl AND NOT (2 OR 0x20 OR 4)) OR (if Wide then 2 else 0));
     orelse st (do {
     st \<leftarrow> SdioSetClock H 400;
     orelse st (do {
     busS (\<lambda>b. b\<lparr>BusWidth := (if Wide then 4 else 1), BusCardInterface := ucast crd, BusCardSpeed := ucast speed\<rparr>);
     ret STATUS_SUCCESS }) }) } }) }) }) }) } }"

definition SdioRestoreIdentificationBus :: "'w hw \<Rightarrow> ('w, NTSTATUS) drv" where
  "SdioRestoreIdentificationBus H = do {
     busS (\<lambda>b. b\<lparr>BusWidth := 0, BusActualKhz := 0, BusTargetKhz := 0\<rparr>);
     st \<leftarrow> SdioSetDefaultBus H False;
     busS (\<lambda>b. b\<lparr>BusRecoveryStatus := st\<rparr>);
     ret st }"

text \<open>Whether the voltage or UHS registers differ from what was recorded; the second read happens only if the first agrees.\<close>

definition ModeChanged :: "'w hw \<Rightarrow> ('w, bool) drv" where
  "ModeChanged H = do {
     attempted \<leftarrow> asks (\<lambda>a. BusHighSpeedAttempted (ABus a));
     if \<not> attempted then ret False
     else do {
       control2 \<leftarrow> SdioRead16 H 0x3E;
       h \<leftarrow> asks AHost;
       if control2 \<noteq> ucast (HostControl2 h) then ret True
       else do {
         pw \<leftarrow> SdioRead8 H 0x29;
         ret (pw \<noteq> ucast (PowerControl h)) } } }"

text \<open>Fall back to the identification bus; the stage says whether that worked.\<close>

definition RecoverBus :: "'w hw \<Rightarrow> NTSTATUS \<Rightarrow> ('w, NTSTATUS) drv" where
  "RecoverBus H st = do {
     SdioRestoreIdentificationBus H;
     busS (\<lambda>b. b\<lparr>BusModeStage := (if NT_SUCCESS (BusRecoveryStatus b) then 90 else 99)\<rparr>);
     ret st }"

definition SdioRestoreDefaultOperatingBus :: "'w hw \<Rightarrow> ('w, NTSTATUS) drv" where
  "SdioRestoreDefaultOperatingBus H = do {
     busS (\<lambda>b. b\<lparr>BusWidth := 0, BusHighSpeedActive := False, BusActualKhz := 0, BusTargetKhz := 0\<rparr>);
     changed \<leftarrow> ModeChanged H;
     if changed then do {
       SdioSetClock H 400;
       busS (\<lambda>b. b\<lparr>BusModeStage := 99, BusRecoveryStatus := STATUS_DEVICE_CONFIGURATION_ERROR\<rparr>);
       ret STATUS_DEVICE_CONFIGURATION_ERROR }
     else do {
       st \<leftarrow> SdioSetDefaultBus H True;
       st \<leftarrow> (if NT_SUCCESS st then SdioSetClock H 25000 else ret st);
       if NT_SUCCESS st then do {
         busS (\<lambda>b. b\<lparr>BusModeStage := 4, BusRecoveryStatus := STATUS_SUCCESS\<rparr>);
         ret STATUS_SUCCESS }
       else RecoverBus H st } }"

text \<open>The checks that end the change to high speed, in the order in which the source evaluates them.\<close>

definition HighSpeedVerified :: "'w hw \<Rightarrow> u8 \<Rightarrow> u8 \<Rightarrow> u8 \<Rightarrow> u16 \<Rightarrow> u8 \<Rightarrow> ('w, bool) drv" where
  "HighSpeedVerified H speed crd expected control2 pw =
    (if speed AND (0x0e OR 1) \<noteq> 2 OR 1 \<or> crd AND 3 \<noteq> 2 then ret False
     else do {
       ctl \<leftarrow> SdioRead8 H 0x28;
       if ctl \<noteq> expected then ret False else do {
       c2 \<leftarrow> SdioRead16 H 0x3E;
       if c2 \<noteq> control2 then ret False else do {
       p \<leftarrow> SdioRead8 H 0x29;
       if p \<noteq> pw then ret False
       else asks (\<lambda>a. \<not> (BusActualKhz (ABus a) \<le> 25000 \<or> BusActualKhz (ABus a) > 50000)) } } })"

definition SdioSetHighSpeedBus :: "'w hw \<Rightarrow> ('w, NTSTATUS) drv" where
  "SdioSetHighSpeedBus H = do {
     stop \<leftarrow> IoStopped H;
     busy \<leftarrow> (if stop then ret True else do { p \<leftarrow> SdioRead32 H 0x24; ret (p AND (1 OR 2) \<noteq> 0) });
     if busy then ret STATUS_INVALID_DEVICE_STATE else do {
     control2 \<leftarrow> SdioRead16 H 0x3E;
     pw \<leftarrow> SdioRead8 H 0x29;
     st \<leftarrow> SdioSetClock H 400;
     orelse st (do {
     (st, speed) \<leftarrow> SdioCmd52Read H 0 0x13;
     orelse st (do {
     a \<leftarrow> asks (\<lambda>a. a);
     if \<not> SdioCanUseHighSpeed (HostVersion (AHost a)) (Capabilities (AHost a)) control2
         (ucast (CccrRevision (ACard a))) speed then ret STATUS_DEVICE_CONFIGURATION_ERROR else do {
     st \<leftarrow> SdioCmd52Write H 0 0x13 ((speed AND NOT 0x0e) OR 2) 0x0e;
     orelse st (do {
     stop \<leftarrow> IoStopped H;
     if stop then ret STATUS_INVALID_DEVICE_STATE else do {
     ctl \<leftarrow> SdioRead8 H 0x28;
     if ctl AND (2 OR 0x20) \<noteq> 2 then ret STATUS_DEVICE_DATA_ERROR else do {
     let expected = ctl OR 4;
     st \<leftarrow> WriteHostControl H expected;
     orelse st (do {
     st \<leftarrow> SdioSetClock H 50000;
     orelse st (do {
     (st, speed) \<leftarrow> SdioCmd52Read H 0 0x13;
     orelse st (do {
     (st, crd) \<leftarrow> SdioCmd52Read H 0 7;
     orelse st (do {
     verified \<leftarrow> HighSpeedVerified H speed crd expected control2 pw;
     if \<not> verified then ret STATUS_DEVICE_DATA_ERROR else do {
     hostS (\<lambda>h. h\<lparr>HostControl2 := ucast control2\<rparr>);
     busS (\<lambda>b. b\<lparr>BusCardInterface := ucast crd, BusCardSpeed := ucast speed, BusHighSpeedActive := True\<rparr>);
     ret STATUS_SUCCESS } }) }) }) }) } } }) } }) }) } }"

text \<open>The part of the negotiation whose failures go to \<open>Failed\<close>; success leaves the bus at 4 bits and 25 MHz at most.\<close>

definition NegotiateDefaultSpeed :: "'w hw \<Rightarrow> ('w, NTSTATUS) drv" where
  "NegotiateDefaultSpeed H = do {
     stop \<leftarrow> IoStopped H;
     if stop then ret STATUS_INVALID_DEVICE_STATE else do {
     capabilities \<leftarrow> asks (\<lambda>a. Capabilities (AHost a));
     if capabilities AND 0xFF00 = 0 then ret STATUS_DEVICE_CONFIGURATION_ERROR else do {
     (st, caps) \<leftarrow> SdioCmd52Read H 0 8;
     orelse st (
     if caps AND 0x40 \<noteq> 0 then ret STATUS_DEVICE_CONFIGURATION_ERROR else do {
     busS (\<lambda>b. b\<lparr>BusModeStage := 3\<rparr>);
     st \<leftarrow> SdioSetDefaultBus H True;
     orelse st (do {
     busS (\<lambda>b. b\<lparr>BusModeStage := 4\<rparr>);
     SdioSetClock H 25000 }) }) } } }"

definition SdioNegotiateOperatingSpeed :: "'w hw \<Rightarrow> ('w, NTSTATUS) drv" where
  "SdioNegotiateOperatingSpeed H = do {
     busS (\<lambda>b. b\<lparr>BusModeStage := 2, BusHighSpeedEligible := False, BusHighSpeedAttempted := False,
       BusHighSpeedActive := False, BusHighSpeedRejectMask := 0, BusHighSpeedStatus := STATUS_NOT_SUPPORTED\<rparr>);
     st \<leftarrow> NegotiateDefaultSpeed H;
     if \<not> NT_SUCCESS st then do {
       busS (\<lambda>b. b\<lparr>BusUpgradeStatus := st\<rparr>);
       RecoverBus H st }
     else do {
       busS (\<lambda>b. b\<lparr>BusUpgradeStatus := STATUS_SUCCESS\<rparr>);
       c2 \<leftarrow> SdioRead16 H 0x3E; hostS (\<lambda>h. h\<lparr>HostControl2 := ucast c2\<rparr>);
       pw \<leftarrow> SdioRead8 H 0x29; hostS (\<lambda>h. h\<lparr>PowerControl := ucast pw\<rparr>);
       a \<leftarrow> asks (\<lambda>a. a);
       let reject = SdioHighSpeedRejectReason (HostVersion (AHost a)) (Capabilities (AHost a))
             (ucast (HostControl2 (AHost a))) (ucast (CccrRevision (ACard a))) (ucast (BusCardSpeed (ABus a)));
       busS (\<lambda>b. b\<lparr>BusHighSpeedRejectMask := reject\<rparr>);
       if reject \<noteq> 0 then ret STATUS_SUCCESS
       else do {
         busS (\<lambda>b. b\<lparr>BusHighSpeedEligible := True, BusHighSpeedAttempted := True\<rparr>);
         st \<leftarrow> SdioSetHighSpeedBus H;
         busS (\<lambda>b. b\<lparr>BusHighSpeedStatus := st\<rparr>);
         if NT_SUCCESS st then ret STATUS_SUCCESS
         else do {
           st \<leftarrow> SdioRestoreDefaultOperatingBus H;
           (if \<not> NT_SUCCESS st then busS (\<lambda>b. b\<lparr>BusUpgradeStatus := st\<rparr>) else ret ());
           ret st } } } }"

section \<open>Operating condition\<close>

text \<open>The registers recorded before and after each CMD5.\<close>

definition CaptureRegisters :: "'w hw \<Rightarrow> hostd \<Rightarrow> ('w, hostd) drv" where
  "CaptureRegisters H h = do {
     present \<leftarrow> SdioRead32 H 0x24;
     clock \<leftarrow> SdioRead16 H 0x2C;
     pw \<leftarrow> SdioRead8 H 0x29;
     ctl \<leftarrow> SdioRead8 H 0x28;
     ctl2 \<leftarrow> SdioRead16 H 0x3E;
     tmo \<leftarrow> SdioRead8 H 0x2E;
     ret (h\<lparr>PresentState := present, ClockControl := ucast clock, PowerControl := ucast pw,
       HostControl := ucast ctl, HostControl2 := ucast ctl2, TimeoutControl := ucast tmo\<rparr>) }"

definition zero_hostd :: hostd where
  "zero_hostd = \<lparr>HostVersion = 0, Capabilities = 0, Capabilities2 = 0, PresentState = 0, ClockControl = 0, PowerControl = 0,
     HostControl = 0, HostControl2 = 0, TimeoutControl = 0, SoftwareReset = 0\<rparr>"

definition zero_attempt :: cmd5_attempt where
  "zero_attempt = \<lparr>AtTargetClockKhz = 0, AtArgument = 0, AtStatus = 0, AtResetStatus = 0, AtResponseValid = False,
     AtInterruptStatus = 0, AtResponse = 0, AtBefore = zero_hostd, AtAfter = zero_hostd\<rparr>"

text \<open>The locals of the retry loops: \<open>LastStatus\<close>, \<open>SawValidResponse\<close> and \<open>AttemptIndex\<close>.\<close>

record cmd5_locals =
  NLast :: NTSTATUS
  NSaw :: bool
  NIndex :: u32

text \<open>
  One CMD5: \<open>Inl\<close> leaves the function with a status and the ready response, \<open>Inr\<close> goes on.  The attempt is
  written at its index of the table.
\<close>

definition Cmd5Attempt :: "'w hw \<Rightarrow> u32 \<Rightarrow> u32 \<Rightarrow> cmd5_locals \<Rightarrow> ('w, NTSTATUS \<times> u32 + cmd5_locals) drv" where
  "Cmd5Attempt H clock argument l =
    (if NIndex l \<ge> 18 then ret (Inl (STATUS_INTERNAL_ERROR, 0))
     else do {
       before \<leftarrow> CaptureRegisters H zero_hostd;
       (st, response) \<leftarrow> SdioSendCommand H 5 argument 2 True;
       c \<leftarrow> asks ACmd;
       after \<leftarrow> CaptureRegisters H zero_hostd;
       hostS (\<lambda>h. h\<lparr>PresentState := PresentState after, ClockControl := ClockControl after,
         PowerControl := PowerControl after, HostControl := HostControl after,
         HostControl2 := HostControl2 after, TimeoutControl := TimeoutControl after\<rparr>);
       reset \<leftarrow> SdioRead8 H 0x2F;
       hostS (\<lambda>h. h\<lparr>SoftwareReset := ucast reset\<rparr>);
       let index = NIndex l + 1;
       let valid = NT_SUCCESS st \<and> SdioR4HasBasicInfo response;
       let attempt = \<lparr>AtTargetClockKhz = clock, AtArgument = argument, AtStatus = st,
             AtResetStatus = LastCommandResetStatus c, AtResponseValid = valid,
             AtInterruptStatus = LastInterruptStatus c, AtResponse = LastResponse c,
             AtBefore = before, AtAfter = after\<rparr>;
       cardS (\<lambda>k. k\<lparr>Cmd5AttemptCount := index,
         Cmd5Attempts := (Cmd5Attempts k)[unat (NIndex l) := attempt]\<rparr>);
       (if argument = 0 then cardS (\<lambda>k. k\<lparr>Cmd5ProbeResponse := response\<rparr>)
        else cardS (\<lambda>k. k\<lparr>SdioOcr := response\<rparr>));
       if valid then do {
         cardS (\<lambda>k. k\<lparr>Cmd5ValidAttempt := (if Cmd5ValidAttempt k = 0 then index else Cmd5ValidAttempt k),
           SdioFunctions := drop_bit 28 (response AND 0x70000000)\<rparr>);
         if argument \<noteq> 0 \<and> SdioR4IsReady response then do {
           cardS (\<lambda>k. k\<lparr>Cmd5SuccessAttempt := index\<rparr>);
           ret (Inl (STATUS_SUCCESS, response)) }
         else do {
           SdioDelayMilliseconds H 5;
           ret (Inr \<lparr>NLast = STATUS_IO_TIMEOUT, NSaw = True, NIndex = index\<rparr>) } }
       else do {
         SdioDelayMilliseconds H 5;
         ret (Inr (l\<lparr>NLast := (if NT_SUCCESS st then STATUS_DEVICE_DATA_ERROR else st), NIndex := index\<rparr>)) } })"

fun Cmd5Commands :: "'w hw \<Rightarrow> u32 \<Rightarrow> u32 list \<Rightarrow> cmd5_locals \<Rightarrow> ('w, NTSTATUS \<times> u32 + cmd5_locals) drv" where
  "Cmd5Commands H clock [] l = ret (Inr l)"
| "Cmd5Commands H clock (argument # arguments) l = do {
     r \<leftarrow> Cmd5Attempt H clock argument l;
     case r of Inl e \<Rightarrow> ret (Inl e) | Inr l \<Rightarrow> Cmd5Commands H clock arguments l }"

text \<open>A change of the identification clock sends the card back to idle.\<close>

definition Cmd5Clock :: "'w hw \<Rightarrow> u32 \<Rightarrow> u32 \<Rightarrow> ('w, NTSTATUS) drv" where
  "Cmd5Clock H target requested =
    (if requested = target then ret STATUS_SUCCESS
     else do {
       st \<leftarrow> SdioSetClock H requested;
       orelse st (do {
       (st, _) \<leftarrow> SdioSendCommand H 0 0 0 False;
       orelse st (do { SdioDelayMilliseconds H 2; ret STATUS_SUCCESS }) }) })"

fun Cmd5Cycles :: "'w hw \<Rightarrow> u32 list \<Rightarrow> u32 \<Rightarrow> cmd5_locals \<Rightarrow> ('w, NTSTATUS \<times> u32) drv" where
  "Cmd5Cycles H [] target l = ret (if NSaw l then STATUS_IO_TIMEOUT else NLast l, 0)"
| "Cmd5Cycles H (cycle # cycles) target l = do {
     let requested = SdioGetCmd5CycleClockKhz cycle;
     st \<leftarrow> Cmd5Clock H target requested;
     if \<not> NT_SUCCESS st then ret (st, 0)
     else do {
       r \<leftarrow> Cmd5Commands H requested [0, 0x00FF8000] l;
       case r of Inl e \<Rightarrow> ret e | Inr l \<Rightarrow> Cmd5Cycles H cycles requested l } }"

definition SdioNegotiateOperatingConditionWithRetries :: "'w hw \<Rightarrow> ('w, NTSTATUS \<times> u32) drv" where
  "SdioNegotiateOperatingConditionWithRetries H = do {
     cardS (\<lambda>k. k\<lparr>Cmd5AttemptCount := 0, Cmd5ValidAttempt := 0, Cmd5SuccessAttempt := 0,
       Cmd5Attempts := replicate 18 zero_attempt, Cmd5ProbeResponse := 0, SdioOcr := 0, SdioFunctions := 0\<rparr>);
     Cmd5Cycles H [0, 1, 2, 3, 4, 5, 6, 7, 8] 0 \<lparr>NLast = STATUS_DEVICE_DATA_ERROR, NSaw = False, NIndex = 0\<rparr> }"

end
