(* ===== verification/Sdio_Safety.thy ===== *)
theory Sdio_Safety
  imports Sdio_Bus
begin

text \<open>
  What the functions of the host controller driver leave alone.  The interfaces are layered as the calls are: a
  relation between states that the waits and resets keep (\<open>reg_frame\<close>, with the FIFO counters \<open>wait_frame\<close>, with the clock
  \<open>clock_frame\<close>) and that every register access keeps (\<open>io_frame\<close>) is kept by every command and byte-mode transfer;
  with the FIFO counters also by the FIFO (\<open>fifo_frame\<close>), with the bus fields by the bus modes (\<open>bus_frame\<close>), with the card
  fields by CMD5 (\<open>card_frame\<close>).
\<close>

section \<open>Relations on the adapter\<close>

text \<open>A preorder on adapters says nothing of the world, so register accesses and clocks keep it.\<close>

locale adapter_relation =
  fixes P :: "adapter \<Rightarrow> adapter \<Rightarrow> bool"
  assumes P_refl: "P a a"
    and P_trans: "P a b \<Longrightarrow> P b c \<Longrightarrow> P a c"

sublocale adapter_relation \<subseteq> frame_relation "\<lambda>s t. P (fst s) (fst t)"
  by unfold_locales (auto intro: P_refl P_trans)

context adapter_relation
begin

lemma keeps_world: "keeps (\<lambda>s t. P (fst s) (fst t)) (world f)"
  by (simp add: keeps_def world_def P_refl split: prod.split)

lemma keeps_act: "keeps (\<lambda>s t. P (fst s) (fst t)) (act f)"
  by (simp add: keeps_def act_def P_refl split: prod.split)

lemma register_reads:
  "keeps (\<lambda>s t. P (fst s) (fst t)) (SdioRead8 H off)"
  "keeps (\<lambda>s t. P (fst s) (fst t)) (SdioRead16 H off)"
  "keeps (\<lambda>s t. P (fst s) (fst t)) (SdioRead32 H off)"
  "keeps (\<lambda>s t. P (fst s) (fst t)) (IoStopped H)"
  "keeps (\<lambda>s t. P (fst s) (fst t)) (InterruptTime H)"
  unfolding SdioRead8_def SdioRead16_def SdioRead32_def IoStopped_def InterruptTime_def
  by (intro keeps_intros keeps_world)+

lemma register_writes:
  "keeps (\<lambda>s t. P (fst s) (fst t)) (SdioWrite8 H off v8)"
  "keeps (\<lambda>s t. P (fst s) (fst t)) (SdioWrite16 H off v16)"
  "keeps (\<lambda>s t. P (fst s) (fst t)) (SdioWrite32 H off v32)"
  unfolding SdioWrite8_def SdioWrite16_def SdioWrite32_def IoStopped_def
  by (intro keeps_intros keeps_world keeps_act)+

lemmas register_ops = register_reads register_writes keeps_world keeps_act

end

section \<open>Frames of the driver\<close>

text \<open>
  \<open>reg_frame\<close>: what the waits and resets do to the registers.  It says nothing of the registers that carry commands and data -
  the argument at \<open>0x08\<close>, the command at \<open>0x0E\<close>, the response at \<open>0x10\<close> and the data port at \<open>0x20\<close> - nor of the host control
  register at \<open>0x28\<close> and of writes to the clock.
\<close>

locale reg_frame = frame_relation R for R :: "adapter \<times> 'w \<Rightarrow> adapter \<times> 'w \<Rightarrow> bool" +
  fixes H :: "'w hw"
  assumes reg_read8: "off \<noteq> 0x28 \<Longrightarrow> keeps R (SdioRead8 H off)"
    and read16 [keeps_intros]: "keeps R (SdioRead16 H off)"
    and reg_read32: "off \<noteq> 0x10 \<Longrightarrow> off \<noteq> 0x20 \<Longrightarrow> keeps R (SdioRead32 H off)"
    and reg_write8: "off \<noteq> 0x28 \<Longrightarrow> keeps R (SdioWrite8 H off v8)"
    and reg_write32: "off \<noteq> 0x08 \<Longrightarrow> off \<noteq> 0x20 \<Longrightarrow> keeps R (SdioWrite32 H off v32)"
    and stopped [keeps_intros]: "keeps R (IoStopped H)"
    and time [keeps_intros]: "keeps R (InterruptTime H)"
    and qpc [keeps_intros]: "keeps R (world (hw_qpc H))"
    and delay [keeps_intros]: "keeps R (act (hw_delay H us))"
    and cmd_update: "R (a, w) (a\<lparr>ACmd := c\<rparr>, w)"
    and bp_update: "R (a, w) (a\<lparr>ABp := b\<rparr>, w)"
    and timing_update: "R (a, w) (a\<lparr>ATiming := t\<rparr>, w)"
    and not_ready: "R (a, w) (a\<lparr>AFifo := (AFifo a)\<lparr>FifoBlockReady := False\<rparr>\<rparr>, w)"
begin

lemmas reg_intros = reg_read8 reg_read32 reg_write8 reg_write32

lemma keeps_asks [keeps_intros]: "keeps R (asks f)"
  by (simp add: keeps_def asks_def frame_refl split: prod.split)

lemma keeps_cmd [keeps_intros]: "keeps R (cmdS f)"
  by (simp add: keeps_def cmdS_def modify_def cmd_update split: prod.split)

lemma keeps_bp [keeps_intros]: "keeps R (bpS f)"
  by (simp add: keeps_def bpS_def modify_def bp_update split: prod.split)

lemma keeps_timing [keeps_intros]: "keeps R (modify (\<lambda>a. a\<lparr>ATiming := f a\<rparr>))"
  by (simp add: keeps_def modify_def timing_update split: prod.split)

lemma keeps_not_ready [keeps_intros]: "keeps R (fifoS (\<lambda>f. f\<lparr>FifoBlockReady := False\<rparr>))"
  by (simp add: keeps_def fifoS_def modify_def not_ready split: prod.split)

lemma keeps_orelse [keeps_intros]: "(NT_SUCCESS st \<Longrightarrow> keeps R k) \<Longrightarrow> keeps R (orelse st k)"
  unfolding orelse_def by (intro keeps_intros)

lemma Stall_keeps [keeps_intros]: "keeps R (Stall H us)"
  unfolding Stall_def by (intro keeps_intros)

lemma Delay_keeps [keeps_intros]: "keeps R (SdioDelayMilliseconds H ms)"
  unfolding SdioDelayMilliseconds_def by (intro keeps_intros)

lemma TimingBegin_keeps [keeps_intros]: "keeps R (TimingBegin H k)"
  unfolding TimingBegin_def by (intro keeps_intros)

lemma TimingEnd_keeps [keeps_intros]: "keeps R (TimingEnd H k start)"
  unfolding TimingEnd_def by (intro keeps_intros)

lemma ResetLoop_keeps [keeps_intros]: "keeps R (ResetLoop H n bits)"
  by (induction n) (auto intro!: keeps_intros reg_intros)

lemma ResetHost_keeps [keeps_intros]: "keeps R (SdioResetHost H bits)"
  unfolding SdioResetHost_def by (intro keeps_intros reg_intros) simp_all

lemma InhibitLoop_keeps [keeps_intros]: "keeps R (InhibitLoop H n bits)"
  by (induction n) (auto intro!: keeps_intros reg_intros)

lemma WaitInhibit_keeps [keeps_intros]: "keeps R (SdioWaitInhibitClear H bits)"
  unfolding SdioWaitInhibitClear_def by (intro keeps_intros)

lemma CommandLoop_keeps [keeps_intros]: "keeps R (CommandLoop H n v)"
  by (induction n arbitrary: v) (auto intro!: keeps_intros reg_intros)

lemma CommandFinish_keeps [keeps_intros]: "keeps R (CommandFinish H flags ist timeout)"
  unfolding CommandFinish_def ResetCommand_def by (intro keeps_intros reg_intros) simp_all

lemma WaitStep_keeps [keeps_intros]: "keeps R (WaitStep H function operating limit phase fast)"
  unfolding WaitStep_def by (intro keeps_intros)

lemma PollLoop_keeps [keeps_intros]: "keeps R (PollLoop H n function operating limit phase event deadline fast v)"
  by (induction n arbitrary: fast v) (auto intro!: keeps_intros reg_intros)

lemma TransferFailed_keeps [keeps_intros]: "keeps R (TransferFailed H Write buf st)"
  unfolding TransferFailed_def by (intro keeps_intros reg_intros) simp_all

end

text \<open>The waits of the FIFO engine, for relations that allow its counters to change and its failure latch to be set.\<close>

locale wait_frame = reg_frame +
  assumes fifo_update: "FifoTransportFailed f = FifoTransportFailed (AFifo a) \<or> FifoTransportFailed f \<Longrightarrow> R (a, w) (a\<lparr>AFifo := f\<rparr>, w)"
begin

lemma keeps_fifo:
  "(\<And>x. FifoTransportFailed (f x) = FifoTransportFailed x \<or> FifoTransportFailed (f x)) \<Longrightarrow> keeps R (fifoS f)"
  by (simp add: keeps_def fifoS_def modify_def fifo_update split: prod.split)

lemma LateCompletion_keeps [keeps_intros]: "keeps R (LateCompletion now deadline)"
  unfolding LateCompletion_def by (intro keeps_intros keeps_fifo) simp

lemma FifoWaitLoop_keeps [keeps_intros]: "keeps R (FifoWaitLoop H n poll event deadline)"
  by (induction n arbitrary: poll) (auto simp: FifoTimeout_def FifoEvent_def FifoPause_def Let_def intro!: keeps_intros reg_intros)

lemma FifoWait_keeps [keeps_intros]: "keeps R (SdioFifoWait H event deadline)"
  unfolding SdioFifoWait_def by (intro keeps_intros)

lemma BlocksFailed_keeps [keeps_intros]: "keeps R (BlocksFailed H blocks Write buf st event)"
  unfolding BlocksFailed_def by (intro keeps_intros reg_intros keeps_fifo) simp_all

end

text \<open>The clock of the bus.\<close>

locale clock_frame = reg_frame +
  assumes host_update: "R (a, w) (a\<lparr>AHost := h\<rparr>, w)"
    and bus_update: "R (a, w) (a\<lparr>ABus := b\<rparr>, w)"
    and clock_write [keeps_intros]: "keeps R (SdioWrite16 H 0x2C v16)"
begin

lemma keeps_host [keeps_intros]: "keeps R (hostS f)"
  by (simp add: keeps_def hostS_def modify_def host_update split: prod.split)

lemma keeps_bus [keeps_intros]: "keeps R (busS f)"
  by (simp add: keeps_def busS_def modify_def bus_update split: prod.split)

lemma ClockLoop_keeps [keeps_intros]: "keeps R (ClockLoop H n)"
  by (induction n) (auto intro!: keeps_intros reg_intros)

lemma SetClock_keeps [keeps_intros]: "keeps R (SdioSetClock H target)"
  unfolding SdioSetClock_def SetClockFinish_def Let_def by (intro keeps_intros)

end

text \<open>All registers.\<close>

locale io_frame = reg_frame +
  assumes read8 [keeps_intros]: "keeps R (SdioRead8 H off)"
    and read32 [keeps_intros]: "keeps R (SdioRead32 H off)"
    and write8 [keeps_intros]: "keeps R (SdioWrite8 H off v8)"
    and write16 [keeps_intros]: "keeps R (SdioWrite16 H off v16)"
    and write32 [keeps_intros]: "keeps R (SdioWrite32 H off v32)"
begin

lemma SendCommandRaw_keeps [keeps_intros]: "keeps R (SdioSendCommandRaw H i arg flags want)"
  unfolding SdioSendCommandRaw_def ResetCommand_def
  by (intro keeps_intros)

lemma SendCommand_keeps [keeps_intros]: "keeps R (SdioSendCommand H i arg flags want)"
  unfolding SdioSendCommand_def by (intro keeps_intros)

lemma Cmd52Read_keeps [keeps_intros]: "keeps R (SdioCmd52Read H function address)"
  unfolding SdioCmd52Read_def by (intro keeps_intros)

lemma Cmd52Write_keeps [keeps_intros]: "keeps R (SdioCmd52Write H function address v verify)"
  unfolding SdioCmd52Write_def by (intro keeps_intros)

lemma StoreLoop_keeps [keeps_intros]: "keeps R (StoreLoop H bs)"
  by (induction bs rule: length_induct, subst StoreLoop.simps) (auto intro!: keeps_intros)

lemma FetchLoop_keeps [keeps_intros]: "keeps R (FetchLoop H n)"
  by (induction n rule: less_induct, subst FetchLoop.simps) (auto intro!: keeps_intros)

lemma PhaseLoop_keeps [keeps_intros]: "keeps R (PhaseLoop H ps function Write operating limit fast buf)"
  by (induction ps arbitrary: fast buf) (auto simp: PhaseWork_def Let_def intro!: keeps_intros)

lemma StartCmd53_keeps [keeps_intros]: "keeps R (StartCmd53 H sz n mode)"
  unfolding StartCmd53_def by (intro keeps_intros)

lemma Cmd53Transfer_keeps [keeps_intros]: "keeps R (SdioCmd53Transfer H function address buf Write Increment)"
  unfolding SdioCmd53Transfer_def SdioCmd53TransferRaw_def Let_def by (intro keeps_intros)

lemma Cmd53Read_keeps [keeps_intros]: "keeps R (SdioCmd53Read H function address buf)"
  unfolding SdioCmd53Read_def by (intro keeps_intros)

lemma Cmd53Write_keeps [keeps_intros]: "keeps R (SdioCmd53Write H function address buf)"
  unfolding SdioCmd53Write_def by (intro keeps_intros)

end

text \<open>The FIFO engine.\<close>

locale fifo_frame = io_frame + wait_frame
begin

lemma BlockWords_keeps [keeps_intros]: "keeps R (BlockWords H n Write bs)"
  by (induction n arbitrary: bs) (auto intro!: keeps_intros)

lemma BlockLoop_keeps [keeps_intros]: "keeps R (BlockLoop H n Write deadline bs)"
  by (induction n arbitrary: bs) (auto simp: Let_def intro!: keeps_intros)

lemma BlocksBody_keeps [keeps_intros]: "keeps R (BlocksBody H blocks Write buf)"
  unfolding BlocksBody_def Let_def by (intro keeps_intros)

lemma FifoBlocks_keeps [keeps_intros]: "keeps R (SdioFifoBlocks H buf blocks Write)"
  unfolding SdioFifoBlocks_def SdioFifoBlocksRaw_def Let_def
  by (intro keeps_intros keeps_fifo) simp_all

lemma FifoLoop_keeps [keeps_intros]: "keeps R (FifoLoop H buf Write)"
  by (induction buf rule: length_induct, subst FifoLoop.simps)
    (auto simp: Let_def FifoChunk_bounds intro!: keeps_intros)

lemma FifoTransfer_keeps [keeps_intros]: "keeps R (SdioFifoTransfer H buf Write)"
  unfolding SdioFifoTransfer_def by (intro keeps_intros keeps_fifo) simp_all

end

text \<open>The bus modes.\<close>

locale bus_frame = io_frame + clock_frame
begin

lemma Snapshot_keeps [keeps_intros]: "keeps R (SnapshotRegisters H)"
  unfolding SnapshotRegisters_def by (intro keeps_intros)

lemma InitializeHost_keeps [keeps_intros]: "keeps R (SdioInitializeHost H)"
  unfolding SdioInitializeHost_def by (intro keeps_intros)

lemma WriteHostControl_keeps [keeps_intros]: "keeps R (WriteHostControl H v)"
  unfolding WriteHostControl_def by (intro keeps_intros)

lemma DefaultCardSpeed_keeps [keeps_intros]: "keeps R (DefaultCardSpeed H)"
  unfolding DefaultCardSpeed_def Let_def by (intro keeps_intros)

lemma SetDefaultBus_keeps [keeps_intros]: "keeps R (SdioSetDefaultBus H Wide)"
  unfolding SdioSetDefaultBus_def Let_def by (intro keeps_intros)

lemma RestoreIdentificationBus_keeps [keeps_intros]: "keeps R (SdioRestoreIdentificationBus H)"
  unfolding SdioRestoreIdentificationBus_def by (intro keeps_intros)

lemma RecoverBus_keeps [keeps_intros]: "keeps R (RecoverBus H st)"
  unfolding RecoverBus_def by (intro keeps_intros)

lemma RestoreDefaultOperatingBus_keeps [keeps_intros]: "keeps R (SdioRestoreDefaultOperatingBus H)"
  unfolding SdioRestoreDefaultOperatingBus_def ModeChanged_def by (intro keeps_intros)

lemma HighSpeedVerified_keeps [keeps_intros]: "keeps R (HighSpeedVerified H speed crd e c2 pw)"
  unfolding HighSpeedVerified_def by (intro keeps_intros)

lemma SetHighSpeedBus_keeps [keeps_intros]: "keeps R (SdioSetHighSpeedBus H)"
  unfolding SdioSetHighSpeedBus_def Let_def by (intro keeps_intros)

lemma NegotiateDefaultSpeed_keeps [keeps_intros]: "keeps R (NegotiateDefaultSpeed H)"
  unfolding NegotiateDefaultSpeed_def by (intro keeps_intros)

lemma NegotiateOperatingSpeed_keeps [keeps_intros]: "keeps R (SdioNegotiateOperatingSpeed H)"
  unfolding SdioNegotiateOperatingSpeed_def Let_def by (intro keeps_intros)

end

text \<open>
  The card handshake and the fields of the chip.  The number of ROM words read and the flag that the inventory is
  complete belong to the discovery of the cores.
\<close>

locale card_frame = bus_frame +
  assumes card_update: "EromWords k = EromWords (ACard a) \<Longrightarrow> CoreInventoryComplete k = CoreInventoryComplete (ACard a) \<Longrightarrow>
      R (a, w) (a\<lparr>ACard := k\<rparr>, w)"
    and chip_update: "R (a, w) (a\<lparr>AChip := c'\<rparr>, w)"
begin

lemma keeps_card:
  "(\<And>k. EromWords (f k) = EromWords k) \<Longrightarrow> (\<And>k. CoreInventoryComplete (f k) = CoreInventoryComplete k) \<Longrightarrow> keeps R (cardS f)"
  by (simp add: keeps_def cardS_def modify_def card_update split: prod.split)

lemma keeps_chip [keeps_intros]: "keeps R (chipS f)"
  by (simp add: keeps_def chipS_def modify_def chip_update split: prod.split)

lemma Cmd5Attempt_keeps [keeps_intros]: "keeps R (Cmd5Attempt H clock argument l)"
  unfolding Cmd5Attempt_def CaptureRegisters_def Let_def by (intro keeps_intros keeps_card) simp_all

lemma Cmd5Commands_keeps [keeps_intros]: "keeps R (Cmd5Commands H clock arguments l)"
  by (induction arguments arbitrary: l) (auto intro!: keeps_intros)

lemma Cmd5Clock_keeps [keeps_intros]: "keeps R (Cmd5Clock H target requested)"
  unfolding Cmd5Clock_def by (intro keeps_intros)

lemma Cmd5Cycles_keeps [keeps_intros]: "keeps R (Cmd5Cycles H cycles target l)"
  by (induction cycles arbitrary: target l) (auto simp: Let_def simp del: Cmd5Commands.simps intro!: keeps_intros)

lemma NegotiateOperatingCondition_keeps [keeps_intros]: "keeps R (SdioNegotiateOperatingConditionWithRetries H)"
  unfolding SdioNegotiateOperatingConditionWithRetries_def by (intro keeps_intros keeps_card) simp_all

end

end
