(* ===== verification/Erom.thy ===== *)
theory Erom
  imports Cyw_Prelude
begin

text \<open>
  The enumeration ROM of the chip (\<open>cyw43455/erom.h\<close>): \<open>CywParseErom\<close> reads descriptor words
  from a reader supplied by its caller and collects the base and wrapper addresses of the four cores
  the driver uses.

  The reader is a computation in the state monad over its own context; it returns a status and,
  when that is a success, a word.  The local variables of the parser are the record \<open>erom_locals\<close>.
  A step of the loop returns \<open>Some status\<close> for a \<open>return\<close> and \<open>None\<close> for \<open>continue\<close>.
\<close>

type_synonym 'c erom_next = "('c, NTSTATUS \<times> u32) state"

record CYW_CORE_MAP =
  MCount :: u32
  MChipCommon :: u32
  MSdio :: u32
  MD11 :: u32
  MCr4 :: u32
  MCr4Wrapper :: u32
  MD11Wrapper :: u32

definition zero_map :: CYW_CORE_MAP where
  "zero_map = \<lparr>MCount = 0, MChipCommon = 0, MSdio = 0, MD11 = 0, MCr4 = 0, MCr4Wrapper = 0, MD11Wrapper = 0\<rparr>"

definition CywValidCoreAddress :: "u32 \<Rightarrow> bool" where
  "CywValidCoreAddress a \<longleftrightarrow> a \<ge> 0x18000000 \<and> a < 0x18200000 \<and> a AND 0xFFF = 0"

datatype core_target = TChipCommon | TSdio | TD11 | TCr4

text \<open>The pointer \<open>Target\<close> into the map, and the access through it.\<close>

definition core_target_of :: "u32 \<Rightarrow> core_target option" where
  "core_target_of i = (if i = 0x800 then Some TChipCommon else if i = 0x829 then Some TSdio
     else if i = 0x812 then Some TD11 else if i = 0x83E then Some TCr4 else None)"

fun target_get :: "core_target \<Rightarrow> CYW_CORE_MAP \<Rightarrow> u32" where
  "target_get TChipCommon m = MChipCommon m"
| "target_get TSdio m = MSdio m"
| "target_get TD11 m = MD11 m"
| "target_get TCr4 m = MCr4 m"

fun target_set :: "core_target \<Rightarrow> u32 \<Rightarrow> CYW_CORE_MAP \<Rightarrow> CYW_CORE_MAP" where
  "target_set TChipCommon v m = m\<lparr>MChipCommon := v\<rparr>"
| "target_set TSdio v m = m\<lparr>MSdio := v\<rparr>"
| "target_set TD11 v m = m\<lparr>MD11 := v\<rparr>"
| "target_set TCr4 v m = m\<lparr>MCr4 := v\<rparr>"

definition CywRecordCore :: "CYW_CORE_MAP \<Rightarrow> u32 \<Rightarrow> u32 \<Rightarrow> u32 \<Rightarrow> NTSTATUS \<times> CYW_CORE_MAP" where
  "CywRecordCore m i base wrapper = (case core_target_of i of
      None \<Rightarrow> (STATUS_SUCCESS, m)
    | Some t \<Rightarrow>
        if target_get t m \<noteq> 0 \<or> \<not> CywValidCoreAddress base \<or> \<not> CywValidCoreAddress wrapper \<or> base = wrapper
        then (STATUS_DEVICE_DATA_ERROR, m)
        else
          let m = target_set t base m;
              m = (if i = 0x83E then m\<lparr>MCr4Wrapper := wrapper\<rparr> else m);
              m = (if i = 0x812 then m\<lparr>MD11Wrapper := wrapper\<rparr> else m)
          in (STATUS_SUCCESS, m))"

record erom_locals =
  LId :: u32
  LBase :: u32
  LWrapper :: u32
  LWrapperType :: u32
  LHaveCore :: bool
  LMap :: CYW_CORE_MAP

definition erom_start :: erom_locals where
  "erom_start = \<lparr>LId = 0, LBase = 0, LWrapper = 0, LWrapperType = 2, LHaveCore = False, LMap = zero_map\<rparr>"

definition EromNext :: "'c erom_next \<Rightarrow> erom_locals \<Rightarrow>
    (u32 \<Rightarrow> ('c, NTSTATUS option \<times> erom_locals) state) \<Rightarrow> ('c, NTSTATUS option \<times> erom_locals) state" where
  "EromNext nxt l k = do {
     (st, w) \<leftarrow> nxt;
     if NT_SUCCESS st then k w else State_Monad.return (Some st, l) }"

definition EromEnd :: "u32 \<Rightarrow> CYW_CORE_MAP \<Rightarrow> NTSTATUS" where
  "EromEnd word m =
    (if word \<noteq> 0xF \<or> MChipCommon m \<noteq> 0x18000000 \<or> MSdio m = 0 \<or> MD11 m = 0 \<or> MCr4 m = 0
     then STATUS_DEVICE_DATA_ERROR
     else if MChipCommon m = MSdio m \<or> MChipCommon m = MCr4 m \<or> MChipCommon m = MD11 m \<or>
       MSdio m = MCr4 m \<or> MSdio m = MD11 m \<or> MCr4 m = MD11 m then STATUS_DEVICE_DATA_ERROR
     else STATUS_SUCCESS)"

text \<open>Component descriptors and the end marker.\<close>

definition EromComponent :: "'c erom_next \<Rightarrow> u32 \<Rightarrow> erom_locals \<Rightarrow>
    ('c, NTSTATUS option \<times> erom_locals) state" where
  "EromComponent nxt word l =
    (let (st, m) = (if LHaveCore l then CywRecordCore (LMap l) (LId l) (LBase l) (LWrapper l)
                    else (STATUS_SUCCESS, LMap l));
         l = l\<lparr>LMap := m\<rparr> in
     if \<not> NT_SUCCESS st then State_Monad.return (Some st, l)
     else if word AND 0xF = 0xF then State_Monad.return (Some (EromEnd word m), l)
     else let l = l\<lparr>LId := drop_bit 8 word AND 0xFFF\<rparr> in
       EromNext nxt l (\<lambda>word.
         if word AND 0xF \<noteq> 1 then State_Monad.return (Some STATUS_DEVICE_DATA_ERROR, l)
         else let l = l\<lparr>LMap := (LMap l)\<lparr>MCount := MCount (LMap l) + 1\<rparr>\<rparr> in
           if MCount (LMap l) > 32 then State_Monad.return (Some STATUS_DEVICE_DATA_ERROR, l)
           else State_Monad.return (None,
             l\<lparr>LWrapperType := (if drop_bit 14 word AND 0x1F \<noteq> 0 then 3 else 2),
               LBase := 0, LWrapper := 0, LHaveCore := True\<rparr>)))"

text \<open>Address descriptors, with their optional upper address and size words.\<close>

definition EromAddressTail :: "u32 \<Rightarrow> u32 \<Rightarrow> u32 \<Rightarrow> erom_locals \<Rightarrow>
    ('c, NTSTATUS option \<times> erom_locals) state" where
  "EromAddressTail word upper sizeType l =
    (if upper \<noteq> 0 \<or> sizeType > 1 then State_Monad.return (None, l)
     else
       let slaveType = drop_bit 6 word AND 3;
           l = (if slaveType = 0 \<and> LBase l = 0 then l\<lparr>LBase := word AND 0xFFFFF000\<rparr> else l);
           l = (if slaveType = LWrapperType l \<and> LWrapper l = 0
                then l\<lparr>LWrapper := word AND 0xFFFFF000\<rparr> else l)
       in State_Monad.return (None, l))"

definition EromAddress :: "'c erom_next \<Rightarrow> u32 \<Rightarrow> erom_locals \<Rightarrow>
    ('c, NTSTATUS option \<times> erom_locals) state" where
  "EromAddress nxt word l =
    (if \<not> LHaveCore l then State_Monad.return (Some STATUS_DEVICE_DATA_ERROR, l)
     else
       let sizeType = drop_bit 4 word AND 3;
           sizes = (\<lambda>upper.
             if sizeType = 3
             then EromNext nxt l (\<lambda>sz.
               if sz AND 8 \<noteq> 0 then EromNext nxt l (\<lambda>_. EromAddressTail word upper sizeType l)
               else EromAddressTail word upper sizeType l)
             else EromAddressTail word upper sizeType l)
       in if word AND 8 \<noteq> 0 then EromNext nxt l sizes else sizes 0)"

definition EromStep :: "'c erom_next \<Rightarrow> erom_locals \<Rightarrow> ('c, NTSTATUS option \<times> erom_locals) state" where
  "EromStep nxt l = EromNext nxt l (\<lambda>word.
     if word AND 1 = 0 then State_Monad.return (None, l)
     else let type = word AND 0xF in
       if type = 1 \<or> type = 0xF then EromComponent nxt word l
       else if type AND NOT 8 \<noteq> 5 then State_Monad.return (None, l)
       else EromAddress nxt word l)"

fun EromLoop :: "nat \<Rightarrow> 'c erom_next \<Rightarrow> erom_locals \<Rightarrow> ('c, NTSTATUS \<times> CYW_CORE_MAP) state" where
  "EromLoop 0 nxt l = State_Monad.return (STATUS_DEVICE_DATA_ERROR, LMap l)"
| "EromLoop (Suc k) nxt l = do {
     (r, l) \<leftarrow> EromStep nxt l;
     case r of Some st \<Rightarrow> State_Monad.return (st, LMap l) | None \<Rightarrow> EromLoop k nxt l }"

definition CywParseErom :: "'c erom_next \<Rightarrow> ('c, NTSTATUS \<times> CYW_CORE_MAP) state" where
  "CywParseErom nxt = EromLoop 512 nxt erom_start"

section \<open>The reader interface\<close>

text \<open>
  What the parser needs of a reader: a context invariant that every read keeps, and a cost, such as
  the number of words read, that a read raises by at most one.
\<close>

locale erom_reader =
  fixes nxt :: "'c erom_next"
    and rinv :: "'c \<Rightarrow> bool"
    and cost :: "'c \<Rightarrow> nat"
  assumes next_inv: "rinv c \<Longrightarrow> wp nxt (\<lambda>_ c'. rinv c' \<and> cost c' \<le> cost c + 1) c"
begin

lemma EromNext_wp:
  assumes "rinv c" "cost c + 1 \<le> n"
    and "\<And>w c'. rinv c' \<Longrightarrow> cost c' \<le> cost c + 1 \<Longrightarrow> wp (k w) (\<lambda>_ c'. rinv c' \<and> cost c' \<le> n) c'"
  shows "wp (EromNext nxt l k) (\<lambda>_ c'. rinv c' \<and> cost c' \<le> n) c"
  unfolding EromNext_def wp_rules
  by (rule wp_mono [OF next_inv [OF assms(1)]]) (use assms(2,3) in \<open>auto simp: wp_rules\<close>)

lemma EromAddressTail_wp:
  "rinv c \<Longrightarrow> cost c \<le> n \<Longrightarrow> wp (EromAddressTail w u t l) (\<lambda>_ c'. rinv c' \<and> cost c' \<le> n) c"
  by (simp add: EromAddressTail_def Let_def wp_rules)

lemma EromAddress_wp:
  "rinv c \<Longrightarrow> cost c + 3 \<le> n \<Longrightarrow> wp (EromAddress nxt w l) (\<lambda>_ c'. rinv c' \<and> cost c' \<le> n) c"
  by (auto simp: EromAddress_def Let_def wp_rules intro!: EromNext_wp EromAddressTail_wp)

lemma EromComponent_wp:
  "rinv c \<Longrightarrow> cost c + 1 \<le> n \<Longrightarrow> wp (EromComponent nxt w l) (\<lambda>_ c'. rinv c' \<and> cost c' \<le> n) c"
  by (auto simp: EromComponent_def Let_def wp_rules split: prod.split intro!: EromNext_wp)

lemma EromStep_wp:
  assumes "rinv c" "cost c + 4 \<le> n"
  shows "wp (EromStep nxt l) (\<lambda>_ c'. rinv c' \<and> cost c' \<le> n) c"
  unfolding EromStep_def
  by (rule EromNext_wp) (use assms in \<open>simp_all add: Let_def wp_rules EromComponent_wp EromAddress_wp\<close>)

lemma EromLoop_wp:
  "rinv c \<Longrightarrow> cost c + 4 * k \<le> n \<Longrightarrow> wp (EromLoop k nxt l) (\<lambda>_ c'. rinv c' \<and> cost c' \<le> n) c"
proof (induction k arbitrary: l c)
  case 0
  then show ?case by (simp add: wp_rules)
next
  case (Suc k)
  have "wp (EromStep nxt l) (\<lambda>_ c'. rinv c' \<and> cost c' \<le> cost c + 4) c"
    by (rule EromStep_wp) (use Suc.prems in auto)
  then show ?case unfolding EromLoop.simps wp_rules
    by (rule wp_mono) (use Suc in \<open>auto simp: wp_rules split: option.split\<close>)
qed

lemma CywParseErom_wp: "rinv c \<Longrightarrow> wp (CywParseErom nxt) (\<lambda>_ c'. rinv c' \<and> cost c' \<le> cost c + 2048) c"
  using EromLoop_wp [of c 512 "cost c + 2048" erom_start] by (simp add: CywParseErom_def)

end

section \<open>The collected map\<close>

text \<open>Number of cores the map holds.\<close>

definition cores_found :: "CYW_CORE_MAP \<Rightarrow> nat" where
  "cores_found m = of_bool (MChipCommon m \<noteq> 0) + of_bool (MSdio m \<noteq> 0) + of_bool (MD11 m \<noteq> 0) +
     of_bool (MCr4 m \<noteq> 0)"

text \<open>Every address that was recorded is a valid one, and the wrappers of the CR4 and D11 cores too.\<close>

definition core_map_ok :: "CYW_CORE_MAP \<Rightarrow> bool" where
  "core_map_ok m \<longleftrightarrow>
     (\<forall>t. target_get t m \<noteq> 0 \<longrightarrow> CywValidCoreAddress (target_get t m)) \<and>
     (MCr4 m \<noteq> 0 \<longrightarrow> CywValidCoreAddress (MCr4Wrapper m) \<and> MCr4Wrapper m \<noteq> MCr4 m) \<and>
     (MD11 m \<noteq> 0 \<longrightarrow> CywValidCoreAddress (MD11Wrapper m) \<and> MD11Wrapper m \<noteq> MD11 m)"

definition erom_inv :: "erom_locals \<Rightarrow> bool" where
  "erom_inv l \<longleftrightarrow> core_map_ok (LMap l) \<and> MCount (LMap l) \<le> 32 \<and>
     cores_found (LMap l) + of_bool (LHaveCore l) \<le> unat (MCount (LMap l))"

lemma valid_core_nonzero: "CywValidCoreAddress a \<Longrightarrow> a \<noteq> 0"
  by (auto simp: CywValidCoreAddress_def)

lemma all_core_target: "(\<forall>t. P t) \<longleftrightarrow> P TChipCommon \<and> P TSdio \<and> P TD11 \<and> P TCr4"
  by (metis core_target.exhaust)

lemma core_map_ok_set:
  assumes "core_map_ok m" "target_get t m = 0" "CywValidCoreAddress b" "CywValidCoreAddress w" "b \<noteq> w"
  shows "core_map_ok ((case t of TCr4 \<Rightarrow> MCr4Wrapper_update (\<lambda>_. w) | TD11 \<Rightarrow> MD11Wrapper_update (\<lambda>_. w) | _ \<Rightarrow> id)
    (target_set t b m))"
  using assms unfolding core_map_ok_def all_core_target by (cases t) auto

lemma CywRecordCore_ok:
  assumes "core_map_ok m" "CywRecordCore m i b w = (st, m')"
  shows "core_map_ok m' \<and> MCount m' = MCount m \<and> cores_found m' \<le> cores_found m + 1"
proof (cases "m' = m")
  case True
  with assms show ?thesis by simp
next
  case False
  then obtain t where t: "core_target_of i = Some t" "target_get t m = 0" "CywValidCoreAddress b"
      "CywValidCoreAddress w" "b \<noteq> w"
    using assms(2) by (auto simp: CywRecordCore_def split: option.splits if_splits)
  have m': "m' = (case t of TCr4 \<Rightarrow> MCr4Wrapper_update (\<lambda>_. w) | TD11 \<Rightarrow> MD11Wrapper_update (\<lambda>_. w) | _ \<Rightarrow> id)
      (target_set t b m)"
    using assms(2) t by (auto simp: CywRecordCore_def core_target_of_def split: if_splits)
  show ?thesis
    using core_map_ok_set [OF assms(1) t(2-)] unfolding m' by (cases t) (auto simp: cores_found_def)
qed

definition erom_post :: "NTSTATUS option \<times> erom_locals \<Rightarrow> bool" where
  "erom_post r \<longleftrightarrow> (case r of
      (None, l) \<Rightarrow> erom_inv l
    | (Some st, l) \<Rightarrow> NT_SUCCESS st \<longrightarrow> core_map_ok (LMap l) \<and> EromEnd 0xF (LMap l) = STATUS_SUCCESS \<and>
        MCount (LMap l) \<le> 32 \<and> cores_found (LMap l) \<le> unat (MCount (LMap l)))"

lemma erom_post_cont [simp]: "erom_post (None, l) = erom_inv l"
  by (simp add: erom_post_def)

lemma erom_post_fail [simp]: "\<not> NT_SUCCESS st \<Longrightarrow> erom_post (Some st, l)"
  by (simp add: erom_post_def)

lemma EromNext_post:
  assumes "\<And>w c'. wp (k w) (\<lambda>r _. erom_post r) c'"
  shows "wp (EromNext nxt l k) (\<lambda>r _. erom_post r) c"
proof -
  have "wp nxt (\<lambda>_ _. True) c" by (simp add: wp_def split: prod.split)
  then show ?thesis
    unfolding EromNext_def wp_rules by (rule wp_mono) (use assms in \<open>auto simp: wp_rules\<close>)
qed

lemma EromEnd_success: "NT_SUCCESS (EromEnd w m) \<Longrightarrow> EromEnd 0xF m = STATUS_SUCCESS"
  by (auto simp: EromEnd_def split: if_splits)

lemma core_map_ok_count [simp]:
  "core_map_ok (m\<lparr>MCount := n\<rparr>) = core_map_ok m" "cores_found (m\<lparr>MCount := n\<rparr>) = cores_found m"
  by (simp_all add: core_map_ok_def cores_found_def all_core_target)

lemma erom_post_end:
  "core_map_ok (LMap l) \<Longrightarrow> MCount (LMap l) \<le> 32 \<Longrightarrow> cores_found (LMap l) \<le> unat (MCount (LMap l)) \<Longrightarrow>
    erom_post (Some (EromEnd w (LMap l)), l)"
  by (simp add: erom_post_def EromEnd_success)

lemma EromComponent_post:
  assumes "erom_inv l"
  shows "wp (EromComponent nxt w l) (\<lambda>r _. erom_post r) c"
proof -
  define sm where "sm = (if LHaveCore l then CywRecordCore (LMap l) (LId l) (LBase l) (LWrapper l)
                    else (STATUS_SUCCESS, LMap l))"
  obtain st m where sm: "sm = (st, m)" by (cases sm)
  have m: "core_map_ok m" "MCount m \<le> 32" "cores_found m \<le> unat (MCount m)"
    using assms sm CywRecordCore_ok [of "LMap l" "LId l" "LBase l" "LWrapper l" st m]
    by (auto simp: erom_inv_def sm_def split: if_splits)
  have cnt: "unat (MCount m + 1) = unat (MCount m) + 1"
    using m(2) unat_add_no_wrap [of "MCount m" 1] by (simp add: word_le_nat_alt)
  show ?thesis
    using m cnt erom_post_end [of "l\<lparr>LMap := m\<rparr>" w]
    by (auto simp: EromComponent_def sm_def [symmetric] sm Let_def wp_rules erom_inv_def not_less
        intro!: EromNext_post)
qed

lemma EromAddress_post: "erom_inv l \<Longrightarrow> wp (EromAddress nxt w l) (\<lambda>r _. erom_post r) c"
  by (auto simp: EromAddress_def EromAddressTail_def Let_def wp_rules erom_inv_def intro!: EromNext_post)

lemma EromStep_post: "erom_inv l \<Longrightarrow> wp (EromStep nxt l) (\<lambda>r _. erom_post r) c"
  unfolding EromStep_def
  by (rule EromNext_post) (simp add: Let_def wp_rules EromComponent_post EromAddress_post)

definition core_map_usable :: "CYW_CORE_MAP \<Rightarrow> bool" where
  "core_map_usable m \<longleftrightarrow> MChipCommon m = 0x18000000 \<and>
     (\<forall>t. CywValidCoreAddress (target_get t m)) \<and> inj (\<lambda>t. target_get t m) \<and>
     CywValidCoreAddress (MCr4Wrapper m) \<and> MCr4Wrapper m \<noteq> MCr4 m \<and>
     CywValidCoreAddress (MD11Wrapper m) \<and> MD11Wrapper m \<noteq> MD11 m \<and>
     4 \<le> MCount m \<and> MCount m \<le> 32"

lemma core_map_usableI:
  assumes "core_map_ok m" "EromEnd 0xF m = STATUS_SUCCESS" "MCount m \<le> 32" "cores_found m \<le> unat (MCount m)"
  shows "core_map_usable m"
proof -
  have nz: "MChipCommon m = 0x18000000" "MSdio m \<noteq> 0" "MD11 m \<noteq> 0" "MCr4 m \<noteq> 0"
    and ne: "MChipCommon m \<noteq> MSdio m" "MChipCommon m \<noteq> MCr4 m" "MChipCommon m \<noteq> MD11 m"
      "MSdio m \<noteq> MCr4 m" "MSdio m \<noteq> MD11 m" "MCr4 m \<noteq> MD11 m"
    using assms(2) by (auto simp: EromEnd_def split: if_splits)
  have "cores_found m = 4" using nz by (simp add: cores_found_def)
  then have "4 \<le> MCount m" using assms(4) by (simp add: word_le_nat_alt)
  moreover have "target_get t m \<noteq> 0" for t using nz by (cases t) auto
  moreover have "inj (\<lambda>t. target_get t m)"
  proof (rule injI)
    fix s t assume "target_get s m = target_get t m"
    then show "s = t" using ne by (cases s; cases t) auto
  qed
  ultimately show ?thesis
    using assms nz by (simp add: core_map_usable_def core_map_ok_def)
qed

lemma EromLoop_post:
  "erom_inv l \<Longrightarrow> wp (EromLoop k nxt l) (\<lambda>(st, m) _. NT_SUCCESS st \<longrightarrow> core_map_usable m) c"
proof (induction k arbitrary: l c)
  case 0
  then show ?case by (simp add: wp_rules)
next
  case (Suc k)
  show ?case unfolding EromLoop.simps wp_rules
    by (rule wp_mono [OF EromStep_post [OF Suc.prems]])
      (auto simp: wp_rules erom_post_def Suc.IH core_map_usableI split: option.splits)
qed

lemma erom_start_inv: "erom_inv erom_start"
proof -
  have "target_get t zero_map = 0" for t by (cases t) (simp_all add: zero_map_def)
  then show ?thesis by (simp add: erom_inv_def erom_start_def core_map_ok_def cores_found_def zero_map_def)
qed

text \<open>
  C13 (functional).  Whatever words the ROM holds and whenever the reader fails, a successful
  \<open>CywParseErom\<close> returns a usable map: ChipCommon at its fixed address, four different cores at
  page-aligned addresses of the backplane, valid wrappers of the CR4 and D11 cores that differ from
  the cores, and 4 to 32 components.
\<close>

theorem CywParseErom_usable:
  assumes "run_state (CywParseErom nxt) c = ((st, m), c')" and "NT_SUCCESS st"
  shows "core_map_usable m"
  using EromLoop_post [OF erom_start_inv, of 512 nxt c] assms by (simp add: wp_def CywParseErom_def)

definition sample_rom_next :: "u32 list erom_next" where
  "sample_rom_next = State (\<lambda>ws. case ws of
      [] \<Rightarrow> ((STATUS_DEVICE_DATA_ERROR, 0), [])
    | w # ws \<Rightarrow> ((STATUS_SUCCESS, w), ws))"

definition sample_rom :: "u32 list" where
  "sample_rom = [0x80001, 0x1, 0x18000005, 0x18100085, 0x82901, 0x1, 0x18002005, 0x18102085,
     0x81201, 0x4001, 0x18001005, 0x181010C5, 0x83E01, 0x1, 0x18003005, 0x18103085, 0xF]"

lemma EromLoop_numeral: "EromLoop (numeral k) nxt l = do {
     (r, l) \<leftarrow> EromStep nxt l;
     case r of Some st \<Rightarrow> State_Monad.return (st, LMap l) | None \<Rightarrow> EromLoop (pred_numeral k) nxt l }"
  by (simp add: numeral_eq_Suc)

lemma run_sample_rom [simp]:
  "run_state sample_rom_next (w # ws) = ((STATUS_SUCCESS, w), ws)"
  by (simp add: sample_rom_next_def)

lemma run_if: "run_state (if b then m else n) s = (if b then run_state m s else run_state n s)"
  by simp

lemma sample_rom_parsed:
  "run_state (CywParseErom sample_rom_next) sample_rom = ((STATUS_SUCCESS,
    \<lparr>MCount = 4, MChipCommon = 0x18000000, MSdio = 0x18002000, MD11 = 0x18001000, MCr4 = 0x18003000,
     MCr4Wrapper = 0x18103000, MD11Wrapper = 0x18101000\<rparr>), [])"
  by (simp add: CywParseErom_def EromLoop_numeral EromStep_def EromNext_def sample_rom_def erom_start_def
      zero_map_def EromComponent_def EromAddress_def EromAddressTail_def CywRecordCore_def core_target_of_def
      CywValidCoreAddress_def EromEnd_def Let_def run_if State_Monad.return_def)

theorem CywParseErom_usable_witness:
  "core_map_usable \<lparr>MCount = 4, MChipCommon = 0x18000000, MSdio = 0x18002000, MD11 = 0x18001000,
     MCr4 = 0x18003000, MCr4Wrapper = 0x18103000, MD11Wrapper = 0x18101000\<rparr>"
  by (rule CywParseErom_usable [OF sample_rom_parsed]) simp

end
