(* ===== verification/Chip.thy ===== *)
theory Chip
  imports Sdio_Safety Erom
begin

text \<open>
  The chip inventory of startup (\<open>cyw43455/chip.c\<close>): function 1 is enabled, the chip identified, the enumeration ROM
  parsed and every register that was touched put back; and \<open>Rpi5CywDirectSdioProbe\<close> of \<open>sdio/sdio.c\<close>, which brings the
  card up to there.
\<close>

section \<open>Backplane reads\<close>

text \<open>
  \<open>Rpi5CywWriteDiagnostics\<close> without the export to the registry.
\<close>

definition Rpi5CywWriteDiagnostics :: "u32 \<Rightarrow> NTSTATUS \<Rightarrow> ('w, unit) drv" where
  "Rpi5CywWriteDiagnostics stage st =
     cardS (\<lambda>k. k\<lparr>DiagStage := stage, ProbeStatus := st,
       ProbePhase := (if (stage \<ge> 20 \<and> stage \<le> 90) \<or> (stage \<ge> 200 \<and> stage \<le> 350) then stage else ProbePhase k)\<rparr>)"

record CYW_EROM_READER =
  RdAddress :: u32
  RdWindow :: u32
  RdRemaining :: u32

text \<open>The word of the four bytes that a read of length four returns.\<close>

definition WordOf :: "bytes \<Rightarrow> u32" where
  "WordOf b = (case SdioLoadLe32 b 0 of Some v \<Rightarrow> v | None \<Rightarrow> 0)"

fun WindowLoop :: "'w hw \<Rightarrow> nat list \<Rightarrow> u32 \<Rightarrow> ('w, NTSTATUS) drv" where
  "WindowLoop H [] window = ret STATUS_SUCCESS"
| "WindowLoop H (i # is) window = do {
     st \<leftarrow> SdioCmd52Write H 1 (0x1000A + word_of_nat i) (ucast (drop_bit (8 + i * 8) window)) 0xFF;
     orelse st (WindowLoop H is window) }"

text \<open>The read returns its status, the value and the window that is selected now.\<close>

definition CywReadBackplane32 :: "'w hw \<Rightarrow> u32 \<Rightarrow> u32 \<Rightarrow> ('w, NTSTATUS \<times> u32 \<times> u32) drv" where
  "CywReadBackplane32 H current address =
    (let window = address AND 0xFFFF8000 in
     if address < 0x18000000 \<or> address > 0x181FFFFC \<or> address AND 3 \<noteq> 0 then ret (STATUS_INVALID_PARAMETER, 0, current)
     else do {
       st \<leftarrow> (if current \<noteq> window then WindowLoop H [0, 1, 2] window else ret STATUS_SUCCESS);
       if \<not> NT_SUCCESS st then ret (st, 0, current)
       else do {
         (st, b) \<leftarrow> SdioCmd53Read H 1 ((address AND 0x7FFF) OR 0x8000) (replicate 4 0);
         ret (st, if NT_SUCCESS st then WordOf b else 0, window) } })"

text \<open>The word reader of the ROM parser, over the reader's fields and the driver's state.\<close>

definition CywNextEromWord :: "'w hw \<Rightarrow> (CYW_EROM_READER \<times> adapter \<times> 'w) erom_next" where
  "CywNextEromWord H = State (\<lambda>(r, s).
     if RdRemaining r = 0 then ((STATUS_DEVICE_DATA_ERROR, 0), (r, s))
     else
       let ((st, word, window), (a, w)) = run_state (CywReadBackplane32 H (RdWindow r) (RdAddress r)) s;
           k = ACard a; c = AChip a;
           c = (if NT_SUCCESS st \<and> EromWords k < 512
                then c\<lparr>EromTrace := (EromTrace c)[unat (EromWords k) := word]\<rparr> else c);
           k = k\<lparr>EromWords := EromWords k + 1\<rparr>
       in ((st, word), (\<lparr>RdAddress = RdAddress r + 4, RdWindow = window, RdRemaining = RdRemaining r - 1\<rparr>,
            (a\<lparr>ACard := k, AChip := c\<rparr>, w))))"

section \<open>Discovery of the cores\<close>

text \<open>The parser run from an address of the ROM; the result has the window the reader left selected.\<close>

definition ParseCores :: "'w hw \<Rightarrow> u32 \<Rightarrow> u32 \<Rightarrow> ('w, NTSTATUS \<times> CYW_CORE_MAP \<times> u32) drv" where
  "ParseCores H window address = State (\<lambda>s.
     let remaining = (0x1000 - (address AND 0xFFF)) div 4;
         r = \<lparr>RdAddress = address, RdWindow = window, RdRemaining = (if remaining > 512 then 512 else remaining)\<rparr>;
         ((st, m), (r, s)) = run_state (CywParseErom (CywNextEromWord H)) (r, s)
     in ((st, m, RdWindow r), s))"

definition StoreCores :: "CYW_CORE_MAP \<Rightarrow> ('w, unit) drv" where
  "StoreCores m = chipS (\<lambda>c. c\<lparr>CoreCount := MCount m, ChipCommonBase := MChipCommon m, SdioCoreBase := MSdio m,
     D11CoreBase := MD11 m, D11WrapperBase := MD11Wrapper m, Cr4CoreBase := MCr4 m, Cr4WrapperBase := MCr4Wrapper m\<rparr>)"

definition BankCount :: "u32 \<Rightarrow> u32" where
  "BankCount cap = (cap AND 15) + (drop_bit 4 cap AND 15)"

text \<open>RAM capabilities, read only from a CR4 core that is clocked and out of reset.\<close>

definition ReadCr4 :: "'w hw \<Rightarrow> u32 \<Rightarrow> CYW_CORE_MAP \<Rightarrow> ('w, NTSTATUS) drv" where
  "ReadCr4 H window m = do {
     (st, v, window) \<leftarrow> CywReadBackplane32 H window (MCr4Wrapper m + 0x408);
     orelse st (do {
     chipS (\<lambda>c. c\<lparr>Cr4IoControl := v\<rparr>);
     (st, v, window) \<leftarrow> CywReadBackplane32 H window (MCr4Wrapper m + 0x800);
     orelse st (do {
     chipS (\<lambda>c. c\<lparr>Cr4ResetControl := v\<rparr>);
     c \<leftarrow> asks AChip;
     if Cr4IoControl c AND 3 = 1 \<and> Cr4ResetControl c AND 1 = 0 then do {
       (st, cap, window) \<leftarrow> CywReadBackplane32 H window (MCr4 m + 4);
       orelse st (
         if cap = 0xFFFFFFFF \<or> BankCount cap = 0 then ret STATUS_DEVICE_DATA_ERROR
         else do {
           chipS (\<lambda>c. c\<lparr>Cr4Capabilities := cap, RamBankCount := BankCount cap\<rparr>);
           ret STATUS_SUCCESS }) }
     else ret STATUS_SUCCESS }) }) }"

definition CywDiscoverCores :: "'w hw \<Rightarrow> ('w, NTSTATUS) drv" where
  "CywDiscoverCores H = do {
     Rpi5CywWriteDiagnostics 300 STATUS_SUCCESS;
     c \<leftarrow> asks AChip;
     if drop_bit 28 (ChipIdRaw c) \<noteq> 1 \<or> ChipRevision c \<noteq> 6 then ret STATUS_DEVICE_CONFIGURATION_ERROR else do {
     (st, v, window) \<leftarrow> CywReadBackplane32 H 0x18000000 0x180000FC;
     orelse st (do {
     chipS (\<lambda>c. c\<lparr>EromBase := v\<rparr>);
     if v < 0x18000000 \<or> v \<ge> 0x18200000 \<or> v AND 3 \<noteq> 0 then ret STATUS_DEVICE_DATA_ERROR else do {
     (st, m, window) \<leftarrow> ParseCores H window v;
     StoreCores m;
     orelse st (do {
     Rpi5CywWriteDiagnostics 310 STATUS_SUCCESS;
     st \<leftarrow> ReadCr4 H window m;
     orelse st (do {
     chipS (\<lambda>c. c\<lparr>RamBase := 0x198000\<rparr>);
     cardS (\<lambda>k. k\<lparr>CoreInventoryComplete := True\<rparr>);
     ret STATUS_SUCCESS }) }) } }) } }"

section \<open>The probe\<close>

text \<open>
  What the label \<open>Done\<close> puts back: a field holds a value exactly when the flag \<open>EnableTouched\<close>, \<open>ClockTouched\<close> or
  \<open>WindowTouched\<close> is set.
\<close>

record probe_saved =
  SvEnable :: "u8 option"
  SvClock :: "u8 option"
  SvWindow :: "u8 list option"
  SvPhase :: u32

text \<open>A poll of a CMD52 register, a hundred times a millisecond apart, with the value stored each time.\<close>

fun ProbePoll :: "'w hw \<Rightarrow> nat \<Rightarrow> u8 \<Rightarrow> u32 \<Rightarrow> u8 \<Rightarrow> (u8 \<Rightarrow> ('w, unit) drv) \<Rightarrow> ('w, NTSTATUS) drv" where
  "ProbePoll H 0 function address bits store = ret STATUS_IO_TIMEOUT"
| "ProbePoll H (Suc n) function address bits store = do {
     (st, v) \<leftarrow> SdioCmd52Read H function address;
     orelse st (do {
     store v;
     if v AND bits \<noteq> 0 then ret STATUS_SUCCESS
     else do { SdioDelayMilliseconds H 1; ProbePoll H n function address bits store } }) }"

definition ProbeEnable :: "'w hw \<Rightarrow> probe_saved \<Rightarrow> ('w, NTSTATUS \<times> probe_saved) drv" where
  "ProbeEnable H p = do {
     (st, enable) \<leftarrow> SdioCmd52Read H 0 2;
     if \<not> NT_SUCCESS st then ret (st, p) else do {
     let p = p\<lparr>SvEnable := Some enable\<rparr>;
     st \<leftarrow> SdioCmd52Write H 0 2 (enable OR 2) 0xFE;
     if \<not> NT_SUCCESS st then ret (st, p) else do {
     let p = p\<lparr>SvPhase := 210\<rparr>;
     st \<leftarrow> ProbePoll H 100 0 3 2 (\<lambda>v. cardS (\<lambda>k. k\<lparr>IoReady := ucast v\<rparr>));
     if \<not> NT_SUCCESS st then ret (st, p) else do {
     chipS (\<lambda>c. c\<lparr>Function1Ready := True\<rparr>);
     cardS (\<lambda>k. k\<lparr>IoEnable := ucast (enable OR 2)\<rparr>);
     ret (STATUS_SUCCESS, p) } } } }"

definition ProbeClock :: "'w hw \<Rightarrow> probe_saved \<Rightarrow> ('w, NTSTATUS \<times> probe_saved) drv" where
  "ProbeClock H p = do {
     let p = p\<lparr>SvPhase := 220\<rparr>;
     (st, clock) \<leftarrow> SdioCmd52Read H 1 0x1000E;
     if \<not> NT_SUCCESS st then ret (st, p) else do {
     let p = p\<lparr>SvClock := Some clock\<rparr>;
     st \<leftarrow> SdioCmd52Write H 1 0x1000E 0x28 0x3F;
     if \<not> NT_SUCCESS st then ret (st, p) else do {
     st \<leftarrow> ProbePoll H 100 1 0x1000E 0xC0 (\<lambda>v. chipS (\<lambda>c. c\<lparr>ChipClockCsr := ucast v\<rparr>));
     if \<not> NT_SUCCESS st then ret (st, p) else do {
     st \<leftarrow> SdioCmd52Write H 1 0x1000E 0x21 0x3F;
     if \<not> NT_SUCCESS st then ret (st, p) else do {
     Stall H 65;
     ret (STATUS_SUCCESS, p) } } } } }"

fun ReadWindow :: "'w hw \<Rightarrow> nat list \<Rightarrow> ('w, NTSTATUS \<times> u8 list) drv" where
  "ReadWindow H [] = ret (STATUS_SUCCESS, [])"
| "ReadWindow H (i # is) = do {
     (st, v) \<leftarrow> SdioCmd52Read H 1 (0x1000A + word_of_nat i);
     if \<not> NT_SUCCESS st then ret (st, [])
     else do {
       (st, vs) \<leftarrow> ReadWindow H is;
       ret (st, v # vs) } }"

definition ProbeWindow :: "'w hw \<Rightarrow> probe_saved \<Rightarrow> ('w, NTSTATUS \<times> probe_saved) drv" where
  "ProbeWindow H p = do {
     let p = p\<lparr>SvPhase := 230\<rparr>;
     (st, vs) \<leftarrow> ReadWindow H [0, 1, 2];
     if \<not> NT_SUCCESS st then ret (st, p) else do {
     let p = p\<lparr>SvWindow := Some vs\<rparr>;
     st \<leftarrow> WindowLoop H [0, 1, 2] 0x18000000;
     ret (st, p) } }"

text \<open>Sixteen reads of the chip identification that must agree.\<close>

fun IdLoop :: "'w hw \<Rightarrow> nat \<Rightarrow> bool \<Rightarrow> ('w, NTSTATUS) drv" where
  "IdLoop H 0 first = ret STATUS_SUCCESS"
| "IdLoop H (Suc n) first = do {
     (st, b) \<leftarrow> SdioCmd53Read H 1 0x8000 (replicate 4 0);
     orelse st (do {
     let raw = WordOf b;
     (if first then chipS (\<lambda>c. c\<lparr>ChipIdRaw := raw, ChipId := raw AND 0xFFFF, ChipRevision := drop_bit 16 raw AND 0xF\<rparr>)
      else ret ());
     c \<leftarrow> asks AChip;
     if ChipId c \<noteq> 0x4345 \<or> raw \<noteq> ChipIdRaw c then ret STATUS_DEVICE_DATA_ERROR
     else IdLoop H n False }) }"

definition ProbeIdentify :: "'w hw \<Rightarrow> probe_saved \<Rightarrow> ('w, NTSTATUS \<times> probe_saved) drv" where
  "ProbeIdentify H p = do {
     let p = p\<lparr>SvPhase := 240\<rparr>;
     st \<leftarrow> IdLoop H 16 True;
     if \<not> NT_SUCCESS st then ret (st, p) else do {
     st \<leftarrow> CywDiscoverCores H;
     phase \<leftarrow> asks (\<lambda>a. ProbePhase (ACard a));
     ret (st, p\<lparr>SvPhase := (if NT_SUCCESS st then 350 else phase)\<rparr>) } }"

definition ProbeBody :: "'w hw \<Rightarrow> ('w, NTSTATUS \<times> probe_saved) drv" where
  "ProbeBody H = do {
     (st, p) \<leftarrow> ProbeEnable H \<lparr>SvEnable = None, SvClock = None, SvWindow = None, SvPhase = 200\<rparr>;
     if \<not> NT_SUCCESS st then ret (st, p) else do {
     (st, p) \<leftarrow> ProbeClock H p;
     if \<not> NT_SUCCESS st then ret (st, p) else do {
     (st, p) \<leftarrow> ProbeWindow H p;
     if \<not> NT_SUCCESS st then ret (st, p) else ProbeIdentify H p } } }"

text \<open>The macro \<open>RESTORE\<close>: the write is always issued, the first failure is kept.\<close>

definition Restore :: "NTSTATUS \<Rightarrow> ('w, NTSTATUS) drv \<Rightarrow> ('w, NTSTATUS) drv" where
  "Restore kept m = do { st \<leftarrow> m; ret (if \<not> NT_SUCCESS st \<and> NT_SUCCESS kept then st else kept) }"

fun RestoreWindow :: "'w hw \<Rightarrow> nat \<Rightarrow> u8 list \<Rightarrow> NTSTATUS \<Rightarrow> ('w, NTSTATUS) drv" where
  "RestoreWindow H i [] kept = ret kept"
| "RestoreWindow H i (v # vs) kept = do {
     kept \<leftarrow> Restore kept (SdioCmd52Write H 1 (0x1000A + word_of_nat i) v 0xFF);
     RestoreWindow H (Suc i) vs kept }"

definition ProbeRestore :: "'w hw \<Rightarrow> probe_saved \<Rightarrow> ('w, NTSTATUS) drv" where
  "ProbeRestore H p = do {
     kept \<leftarrow> (case SvWindow p of None \<Rightarrow> ret STATUS_SUCCESS | Some vs \<Rightarrow> RestoreWindow H 0 vs STATUS_SUCCESS);
     kept \<leftarrow> (case SvClock p of None \<Rightarrow> ret kept
       | Some v \<Rightarrow> Restore kept (SdioCmd52Write H 1 0x1000E (v AND 0x3F) 0x3F));
     (case SvEnable p of None \<Rightarrow> ret kept
       | Some v \<Rightarrow> Restore kept (SdioCmd52Write H 0 2 v 0xFE)) }"

definition Cyw43455Probe :: "'w hw \<Rightarrow> ('w, NTSTATUS) drv" where
  "Cyw43455Probe H = do {
     functions \<leftarrow> asks (\<lambda>a. SdioFunctions (ACard a));
     if functions < 1 then ret STATUS_DEVICE_CONFIGURATION_ERROR else do {
     Rpi5CywWriteDiagnostics 200 STATUS_SUCCESS;
     (st, p) \<leftarrow> ProbeBody H;
     c \<leftarrow> asks ACmd;
     kept \<leftarrow> ProbeRestore H p;
     cmdS (\<lambda>d. d\<lparr>LastCommand := LastCommand c, LastArgument := LastArgument c,
       LastInterruptStatus := LastInterruptStatus c, LastResponse := LastResponse c,
       LastCommandResetStatus := LastCommandResetStatus c\<rparr>);
     chipS (\<lambda>c. c\<lparr>ProbeRestoreStatus := kept\<rparr>);
     let spoiled = NT_SUCCESS st \<and> \<not> NT_SUCCESS kept;
     let st = (if spoiled then kept else st);
     Rpi5CywWriteDiagnostics (if spoiled then 260 else SvPhase p) st;
     ret st } }"

section \<open>The direct probe\<close>

text \<open>The reset of the I/O part of a card that a previous start left selected.\<close>

definition WarmReset :: "'w hw \<Rightarrow> ('w, unit) drv" where
  "WarmReset H = do {
     cardS (\<lambda>k. k\<lparr>WarmCardResetAttempts := WarmCardResetAttempts k + 1\<rparr>);
     (st, v) \<leftarrow> SdioCmd52Read H 0 6;
     let abort = (if NT_SUCCESS st then v else 0);
     st \<leftarrow> SdioCmd52Write H 0 6 (abort OR 8) 0;
     cardS (\<lambda>k. k\<lparr>WarmCardResetStatus := st\<rparr>);
     Rpi5CywWriteDiagnostics 30 st;
     SdioDelayMilliseconds H 2 }"

text \<open>A CMD52 read of function 0 whose value is kept, with the stage of its failure report.\<close>

definition ProbeRead :: "'w hw \<Rightarrow> u32 \<Rightarrow> u32 \<Rightarrow> (u8 \<Rightarrow> cardd \<Rightarrow> cardd) \<Rightarrow> ('w, NTSTATUS) drv \<Rightarrow> ('w, NTSTATUS) drv" where
  "ProbeRead H address stage store k = do {
     (st, v) \<leftarrow> SdioCmd52Read H 0 address;
     if \<not> NT_SUCCESS st then do { Rpi5CywWriteDiagnostics stage st; ret st }
     else do { cardS (store v); k } }"

text \<open>CMD3 and CMD7: the relative address, and the selection of the card.\<close>

definition SelectCard :: "'w hw \<Rightarrow> ('w, NTSTATUS) drv" where
  "SelectCard H = do {
     (st, response) \<leftarrow> SdioSendCommand H 3 0 (2 OR 8 OR 0x10) True;
     if \<not> NT_SUCCESS st then do { Rpi5CywWriteDiagnostics 60 st; ret st } else do {
     let rca = drop_bit 16 response AND 0xFFFF;
     cardS (\<lambda>k. k\<lparr>RelativeAddress := rca\<rparr>);
     if rca = 0 then do { Rpi5CywWriteDiagnostics 61 STATUS_DEVICE_DATA_ERROR; ret STATUS_DEVICE_DATA_ERROR } else do {
     (st, _) \<leftarrow> SdioSendCommand H 7 (push_bit 16 rca) (3 OR 8 OR 0x10) True;
     Rpi5CywWriteDiagnostics 70 st;
     ret st } } }"

definition ProbeRegisters :: "'w hw \<Rightarrow> ('w, NTSTATUS) drv" where
  "ProbeRegisters H =
     ProbeRead H 0 80 (\<lambda>v k. k\<lparr>CccrRevision := ucast v\<rparr>) (do {
     busS (\<lambda>b. b\<lparr>BusModeStage := 1, BusVerifyReads := 0, BusUpgradeStatus := STATUS_SUCCESS, BusVerifyStatus := STATUS_SUCCESS\<rparr>);
     st \<leftarrow> SdioRestoreIdentificationBus H;
     Rpi5CywWriteDiagnostics 80 st;
     orelse st (
     ProbeRead H 2 81 (\<lambda>v k. k\<lparr>IoEnable := ucast v\<rparr>) (
     ProbeRead H 3 82 (\<lambda>v k. k\<lparr>IoReady := ucast v\<rparr>) (
     ProbeRead H 0x100 83 (\<lambda>v k. k\<lparr>F1InterfaceCode := ucast v\<rparr>) (
     ProbeRead H 0x200 84 (\<lambda>v k. k\<lparr>F2InterfaceCode := ucast v\<rparr>) (do {
       v \<leftarrow> SdioRead32 H 0x24; hostS (\<lambda>h. h\<lparr>PresentState := v\<rparr>);
       v \<leftarrow> SdioRead16 H 0x2C; hostS (\<lambda>h. h\<lparr>ClockControl := ucast v\<rparr>);
       v \<leftarrow> SdioRead8 H 0x29; hostS (\<lambda>h. h\<lparr>PowerControl := ucast v\<rparr>);
       Rpi5CywWriteDiagnostics 90 STATUS_SUCCESS;
       ret STATUS_SUCCESS }))))) })"

definition Rpi5CywDirectSdioProbe :: "'w hw \<Rightarrow> ('w, NTSTATUS) drv" where
  "Rpi5CywDirectSdioProbe H = do {
     st \<leftarrow> SdioInitializeHost H;
     cardS (\<lambda>k. k\<lparr>EromWords := 0, CoreInventoryComplete := False\<rparr>);
     Rpi5CywWriteDiagnostics 20 st;
     orelse st (do {
     rca \<leftarrow> asks (\<lambda>a. RelativeAddress (ACard a));
     (if rca \<noteq> 0 then WarmReset H else ret ());
     (st, response) \<leftarrow> SdioNegotiateOperatingConditionWithRetries H;
     Rpi5CywWriteDiagnostics 40 st;
     orelse st (do {
     cardS (\<lambda>k. k\<lparr>SdioOcr := response\<rparr>);
     Rpi5CywWriteDiagnostics 50 STATUS_SUCCESS;
     st \<leftarrow> SelectCard H;
     orelse st (do {
     st \<leftarrow> ProbeRegisters H;
     orelse st (Cyw43455Probe H) }) }) }) }"

end
