(* ===== verification/Wire_Protocol.thy ===== *)
theory Wire_Protocol
  imports Cyw_Prelude
begin

text \<open>
  The wire-format validation of \<open>src/src/cyw43455/network_protocol.h\<close>: SDPCM and BCDC
  headers, Ethernet classification and filtering, transmit credits, NVRAM packing, country
  codes and the connect request.

  A pointer argument \<open>p\<close> is a buffer \<open>b\<close> and an offset \<open>o\<close> into it.  \<open>NULL\<close> pointers are
  not represented, so the tests \<open>!p\<close> do not appear.  The outer \<open>option\<close> of a result is
  memory safety (\<open>None\<close>: a read outside of the buffer or a wrapped subtraction); a C result
  0 with output parameters is an inner \<open>None\<close>.
\<close>

section \<open>Loads, stores and headers\<close>

definition CywLe16 :: "bytes \<Rightarrow> nat \<Rightarrow> u16 option" where
  "CywLe16 b off = do { x \<leftarrow> rd8 b off; y \<leftarrow> rd8 b (off + 1); Some (le16 x y) }"

definition CywLe32 :: "bytes \<Rightarrow> nat \<Rightarrow> u32 option" where
  "CywLe32 b off = do {
     x \<leftarrow> rd8 b off; y \<leftarrow> rd8 b (off + 1); z \<leftarrow> rd8 b (off + 2); w \<leftarrow> rd8 b (off + 3);
     Some (le32 x y z w) }"

definition CywBe32 :: "bytes \<Rightarrow> nat \<Rightarrow> u32 option" where
  "CywBe32 b off = do {
     x \<leftarrow> rd8 b off; y \<leftarrow> rd8 b (off + 1); z \<leftarrow> rd8 b (off + 2); w \<leftarrow> rd8 b (off + 3);
     Some (le32 w z y x) }"

definition CywPut16 :: "bytes \<Rightarrow> nat \<Rightarrow> u16 \<Rightarrow> bytes option" where
  "CywPut16 b off v = do { b \<leftarrow> wr8 b off (byte_of 0 v); wr8 b (off + 1) (byte_of 1 v) }"

definition CywPut32 :: "bytes \<Rightarrow> nat \<Rightarrow> u32 \<Rightarrow> bytes option" where
  "CywPut32 b off v = do {
     b \<leftarrow> wr8 b off (byte_of 0 v); b \<leftarrow> wr8 b (off + 1) (byte_of 1 v);
     b \<leftarrow> wr8 b (off + 2) (byte_of 2 v); wr8 b (off + 3) (byte_of 3 v) }"

definition CywPacketKind :: "bytes \<Rightarrow> nat \<Rightarrow> nat \<Rightarrow> nat option" where
  "CywPacketKind b off n =
    (if n < 14 then Some 0 else do {
       p12 \<leftarrow> rd8 b (off + 12); p13 \<leftarrow> rd8 b (off + 13);
       if p12 = 8 \<and> p13 = 6 then
         (if n < 42 then Some 0 else do {
            arp \<leftarrow> rdn b (off + 14) 7;
            if arp \<noteq> [0, 1, 8, 0, 6, 4, 0] then Some 0 else do {
              p21 \<leftarrow> rd8 b (off + 21);
              Some (if p21 = 1 then 1 else if p21 = 2 then 2 else 0) } })
       else if p12 = 0x86 \<and> p13 = 0xdd then
         (if n < 54 then Some 0 else do {
            p14 \<leftarrow> rd8 b (off + 14);
            Some (if drop_bit 4 p14 = 6 then 6 else 0) })
       else if p12 \<noteq> 8 \<or> p13 \<noteq> 0 \<or> n < 34 then Some 0
       else do {
         p14 \<leftarrow> rd8 b (off + 14);
         if drop_bit 4 p14 \<noteq> 4 then Some 0 else do {
           p16 \<leftarrow> rd8 b (off + 16); p17 \<leftarrow> rd8 b (off + 17);
           body \<leftarrow> csub n 14;
           let ihl = unat (p14 AND 15) * 4; total = unat p16 * 256 + unat p17 in
           if ihl < 20 \<or> total < ihl \<or> total > body \<or> ihl > body then Some 0 else do {
             p23 \<leftarrow> rd8 b (off + 23);
             Some (if p23 = 1 then 3 else if p23 = 17 then 4 else if p23 = 6 then 5 else 0) } } } })"

definition CywReceiveBudget :: "u32 \<Rightarrow> u64 \<Rightarrow> bool" where
  "CywReceiveBudget frames elapsed100ns \<longleftrightarrow> frames < 4 \<and> elapsed100ns < 20000"

definition CywSdpcmHeader :: "bytes \<Rightarrow> nat \<Rightarrow> nat \<Rightarrow> (nat \<times> nat) option option" where
  "CywSdpcmHeader b off available =
    (if available < 12 then Some None else do {
       n \<leftarrow> CywLe16 b off; m \<leftarrow> CywLe16 b (off + 2); p7 \<leftarrow> rd8 b (off + 7); p5 \<leftarrow> rd8 b (off + 5);
       if unat n < 12 \<or> m XOR n \<noteq> 0xffff \<or> unat p7 < 12 \<or> unat p7 > unat n \<or> p5 AND 15 > 3
       then Some None
       else Some (Some (unat n, unat p7)) })"

definition CywEthernetBody :: "bytes \<Rightarrow> nat \<Rightarrow> nat \<Rightarrow> (nat \<times> nat) option option" where
  "CywEthernetBody b off n =
    (if n < 4 then Some None else do {
       p0 \<leftarrow> rd8 b off; p2 \<leftarrow> rd8 b (off + 2);
       if drop_bit 4 p0 \<noteq> 2 \<or> p2 AND 15 \<noteq> 0 then Some None else do {
         p3 \<leftarrow> rd8 b (off + 3);
         let skip = 4 + unat p3 * 4 in
         if skip > n then Some None else do {
           len \<leftarrow> csub n skip;
           if len < 14 \<or> len > 1514 then Some None else Some (Some (skip, len)) } } })"

definition CywTxCredit :: "u8 \<Rightarrow> u8 \<Rightarrow> u8 \<Rightarrow> bool" where
  "CywTxCredit seq mx flow \<longleftrightarrow> (let n = mx - seq in n \<noteq> 0 \<and> n \<le> 0x40 \<and> flow = 0)"

section \<open>Receive filter\<close>

function CywMulticastLoop :: "bytes \<Rightarrow> bytes \<Rightarrow> nat \<Rightarrow> nat \<Rightarrow> bool option" where
  "CywMulticastLoop dst multicast count i =
    (if i < count then do {
       m \<leftarrow> rdn multicast (i * 6) 6;
       if dst = m then Some True else CywMulticastLoop dst multicast count (i + 1) }
     else Some False)"
  by pat_completeness auto
termination
  by (relation "measure (\<lambda>(d, m, count, i). count - i)") auto

declare CywMulticastLoop.simps [simp del]

definition CywAcceptEthernet :: "bytes \<Rightarrow> nat \<Rightarrow> bytes \<Rightarrow> u32 \<Rightarrow> bytes \<Rightarrow> nat \<Rightarrow> bool option" where
  "CywAcceptEthernet b off mac flt multicast count =
    (if count > 32 then Some False else do {
       dst \<leftarrow> rdn b off 6;
       if dst = replicate 6 255 then Some (flt AND 8 \<noteq> 0) else do {
         d0 \<leftarrow> rd8 b off;
         if d0 AND 1 \<noteq> 0 then
           (if flt AND 4 \<noteq> 0 then Some True
            else if flt AND 2 \<noteq> 0 then CywMulticastLoop dst multicast count 0
            else Some False)
         else if flt AND 1 \<noteq> 0 then do { own \<leftarrow> rdn mac 0 6; Some (dst = own) }
         else Some False } })"

section \<open>Country codes and the connect request\<close>

abbreviation is_upper :: "u8 \<Rightarrow> bool" where
  "is_upper c \<equiv> 65 \<le> c \<and> c \<le> 90"

text \<open>The request is returned as the 12 bytes of \<open>wl_country_t\<close>.\<close>

definition CywCountryRequest :: "u8 \<times> u8 \<Rightarrow> bytes option" where
  "CywCountryRequest alpha2 = (case alpha2 of (c0, c1) \<Rightarrow>
     if \<not> is_upper c0 \<or> \<not> is_upper c1 then None
     else Some ((replicate 12 0) [0 := c0, 8 := c0, 1 := c1, 9 := c1]))"

definition CywCountryMatches :: "u8 \<times> u8 \<Rightarrow> bytes \<Rightarrow> nat \<Rightarrow> bool option" where
  "CywCountryMatches alpha2 value length' = (case alpha2 of (c0, c1) \<Rightarrow>
     if length' \<noteq> 12 then Some False else do {
       v \<leftarrow> rdn value 0 12;
       rev \<leftarrow> CywLe32 value 4;
       Some (v ! 0 = c0 \<and> v ! 1 = c1 \<and> v ! 2 = 0 \<and> v ! 3 = 0 \<and> v ! 8 = c0 \<and> v ! 9 = c1 \<and>
             v ! 10 = 0 \<and> v ! 11 = 0 \<and> rev AND 0x80000000 = 0) })"

function CywCountryListLoop :: "bytes \<Rightarrow> u8 \<times> u8 \<Rightarrow> nat \<Rightarrow> nat \<Rightarrow> bool \<Rightarrow> bool option option" where
  "CywCountryListLoop data alpha2 n i found =
    (if i < n then do {
       code \<leftarrow> rdn data (16 + 4 * i) 4;
       if code ! 0 = 0 \<or> code ! 1 = 0 \<or> code ! 3 \<noteq> 0 then Some None
       else CywCountryListLoop data alpha2 n (i + 1)
              (found \<or> code ! 0 = fst alpha2 \<and> code ! 1 = snd alpha2 \<and> code ! 2 = 0) }
     else Some (Some found))"
  by pat_completeness auto
termination
  by (relation "measure (\<lambda>(d, a, n, i, f). n - i)") auto

declare CywCountryListLoop.simps [simp del]

definition CywCountryList :: "bytes \<Rightarrow> nat \<Rightarrow> u8 \<times> u8 \<Rightarrow> (nat \<times> bool) option option" where
  "CywCountryList data length' alpha2 =
    (if length' < 16 then Some None else do {
       bytes' \<leftarrow> CywLe32 data 0; n \<leftarrow> CywLe32 data 12; mode \<leftarrow> CywLe32 data 4;
       if unat bytes' < 16 then Some None else do {
         room \<leftarrow> csub (unat bytes') 16; avail \<leftarrow> csub length' 16;
         if mode \<noteq> 0 \<or> unat n > room div 4 \<or> unat n > avail div 4 then Some None else do {
           found \<leftarrow> CywCountryListLoop data alpha2 (unat n) 0 False;
           Some (map_option (\<lambda>f. (unat n, f)) found) } } })"

record CYW_CONNECT_REQUEST =
  CrVersion :: u32
  CrSsidLength :: u32
  CrCountry :: "u8 \<times> u8"
  CrReserved :: "u8 \<times> u8"
  CrSsid :: bytes
  CrPmk :: bytes

definition CywValidConnect :: "CYW_CONNECT_REQUEST \<Rightarrow> bool" where
  "CywValidConnect r \<longleftrightarrow>
     \<not> (CrVersion r \<noteq> 1 \<or> CrSsidLength r = 0 \<or> CrSsidLength r > 32 \<or>
        \<not> is_upper (fst (CrCountry r)) \<or> \<not> is_upper (snd (CrCountry r)) \<or>
        fst (CrReserved r) \<noteq> 0 \<or> snd (CrReserved r) \<noteq> 0)"

section \<open>NVRAM packing\<close>

text \<open>
  \<open>CywPackNvram\<close> strips comments and blank lines of a text and writes the remaining
  \<open>key=value\<close> lines, each followed by a NUL byte, into \<open>out\<close>.  Its inner loops are separate
  functions; \<open>'\n' = 10\<close>, \<open>'\r' = 13\<close>, \<open>'\t' = 9\<close>, \<open>' ' = 32\<close>, \<open>'#' = 35\<close>, \<open>'=' = 61\<close>.
\<close>

function NvramLineEnd :: "bytes \<Rightarrow> nat \<Rightarrow> nat \<Rightarrow> nat option option" where
  "NvramLineEnd raw sz i =
    (if i < sz then do {
       c \<leftarrow> rd8 raw i;
       if c = 10 then Some (Some i)
       else if c \<noteq> 13 \<and> c \<noteq> 9 \<and> (c < 32 \<or> c > 126) then Some None
       else NvramLineEnd raw sz (i + 1) }
     else Some (Some i))"
  by pat_completeness auto
termination
  by (relation "measure (\<lambda>(raw, sz, i). sz - i)") auto

function NvramSkipBlanks :: "bytes \<Rightarrow> nat \<Rightarrow> nat \<Rightarrow> nat option" where
  "NvramSkipBlanks raw start fin =
    (if start < fin then do {
       c \<leftarrow> rd8 raw start;
       if c = 32 \<or> c = 9 then NvramSkipBlanks raw (start + 1) fin else Some start }
     else Some start)"
  by pat_completeness auto
termination
  by (relation "measure (\<lambda>(raw, start, fin). fin - start)") auto

function NvramFind :: "u8 \<Rightarrow> bytes \<Rightarrow> nat \<Rightarrow> nat \<Rightarrow> nat option" where
  "NvramFind ch raw j fin =
    (if j < fin then do {
       c \<leftarrow> rd8 raw j;
       if c = ch then Some j else NvramFind ch raw (j + 1) fin }
     else Some fin)"
  by pat_completeness auto
termination
  by (relation "measure (\<lambda>(ch, raw, j, fin). fin - j)") auto

function NvramTrimEnd :: "bytes \<Rightarrow> nat \<Rightarrow> nat \<Rightarrow> nat option" where
  "NvramTrimEnd raw start fin =
    (if fin > start then do {
       c \<leftarrow> rd8 raw (fin - 1);
       if c = 32 \<or> c = 13 \<or> c = 9 then NvramTrimEnd raw start (fin - 1) else Some fin }
     else Some fin)"
  by pat_completeness auto
termination
  by (relation "measure (\<lambda>(raw, start, fin). fin - start)") auto

declare NvramLineEnd.simps [simp del] NvramSkipBlanks.simps [simp del]
  NvramFind.simps [simp del] NvramTrimEnd.simps [simp del]

lemma NvramLineEnd_bounds:
  "NvramLineEnd raw sz i = Some (Some e) \<Longrightarrow> i \<le> e \<and> (i \<le> sz \<longrightarrow> e \<le> sz)"
proof (induction raw sz i rule: NvramLineEnd.induct)
  case (1 raw sz i)
  then show ?case
    by (subst (asm) (2) NvramLineEnd.simps) (fastforce split: if_splits bind_splits)
qed

text \<open>
  The outer loop, one line per iteration.  \<open>end\<close> is the end of the line, \<open>eq\<close> the first \<open>=\<close>;
  a line with no key, no \<open>=\<close>, more than 1024 bytes or no room in \<open>out\<close> is an error.
\<close>

function NvramLines :: "bytes \<Rightarrow> nat \<Rightarrow> nat \<Rightarrow> nat \<Rightarrow> nat \<Rightarrow> bytes \<Rightarrow> (nat \<times> bytes) option option" where
  "NvramLines raw sz cap i used out =
    (if i < sz then
       (case NvramLineEnd raw sz i of
          None \<Rightarrow> None
        | Some None \<Rightarrow> Some None
        | Some (Some eol) \<Rightarrow>
            let i' = (if eol < sz then eol + 1 else eol) in
            do {
              start \<leftarrow> NvramSkipBlanks raw i eol;
              hash \<leftarrow> NvramFind 35 raw start eol;
              fin \<leftarrow> NvramTrimEnd raw start hash;
              if fin = start then NvramLines raw sz cap i' used out else do {
                eq \<leftarrow> NvramFind 61 raw start fin;
                len \<leftarrow> csub fin start;
                room \<leftarrow> csub cap used; room \<leftarrow> csub room 4;
                if eq = start \<or> eq = fin \<or> len > 1024 \<or> len + 1 > room then Some None else do {
                  line \<leftarrow> rdn raw start len;
                  out \<leftarrow> wrn out used line;
                  NvramLines raw sz cap i' (used + len + 1) out } } })
     else Some (Some (used, out)))"
  by pat_completeness auto
termination
  by (relation "measure (\<lambda>(raw, sz, cap, i, used, out). sz - i)")
    (auto dest!: NvramLineEnd_bounds)

declare NvramLines.simps [simp del]

definition CywPackNvram :: "bytes \<Rightarrow> nat \<Rightarrow> bytes \<Rightarrow> nat \<Rightarrow> (nat \<times> bytes) option option" where
  "CywPackNvram raw sz out cap =
    (if sz = 0 \<or> sz > 16384 \<or> cap < 8 then Some None else do {
       out \<leftarrow> wrn out 0 (replicate cap 0);
       r \<leftarrow> NvramLines raw sz cap 0 0 out;
       Some (case r of
          None \<Rightarrow> None
        | Some (used, out) \<Rightarrow>
            if used = 0 \<or> used + 4 > cap then None
            else let used = (used + 1 + 3) div 4 * 4 in
                 if used > cap \<or> used div 4 > 65535 then None else Some (used, out)) })"

section \<open>Memory safety\<close>

lemma CywLe16_Some [wire_simps]: "off + 2 \<le> length b \<Longrightarrow> CywLe16 b off = Some (le16 (b ! off) (b ! (off + 1)))"
  by (simp add: CywLe16_def wire_simps)

lemma CywLe32_Some [wire_simps]: "off + 4 \<le> length b \<Longrightarrow>
    CywLe32 b off = Some (le32 (b ! off) (b ! (off + 1)) (b ! (off + 2)) (b ! (off + 3)))"
  by (simp add: CywLe32_def wire_simps)

lemma CywBe32_Some [wire_simps]: "off + 4 \<le> length b \<Longrightarrow>
    CywBe32 b off = Some (le32 (b ! (off + 3)) (b ! (off + 2)) (b ! (off + 1)) (b ! off))"
  by (simp add: CywBe32_def wire_simps)

lemma CywPut16_Some [wire_simps]: "off + 2 \<le> length b \<Longrightarrow>
    CywPut16 b off v = Some (b[off := byte_of 0 v, off + 1 := byte_of 1 v])"
  by (simp add: CywPut16_def wire_simps)

lemma CywPut32_Some [wire_simps]: "off + 4 \<le> length b \<Longrightarrow>
    CywPut32 b off v =
      Some (b[off := byte_of 0 v, off + 1 := byte_of 1 v, off + 2 := byte_of 2 v, off + 3 := byte_of 3 v])"
  by (simp add: CywPut32_def wire_simps)

lemma CywLe16_Put16: "off + 2 \<le> length b \<Longrightarrow> CywPut16 b off v = Some b' \<Longrightarrow> CywLe16 b' off = Some v"
  by (auto simp: wire_simps)

lemma CywLe32_Put32: "off + 4 \<le> length b \<Longrightarrow> CywPut32 b off v = Some b' \<Longrightarrow> CywLe32 b' off = Some v"
  by (auto simp: wire_simps)

lemma CywPacketKind_safe: "off + n \<le> length b \<Longrightarrow> \<exists>k \<le> 6. CywPacketKind b off n = Some k"
  by (auto simp: CywPacketKind_def wire_simps Let_def)

lemma CywSdpcmHeader_safe: "off + available \<le> length b \<Longrightarrow> \<exists>r. CywSdpcmHeader b off available = Some r"
  by (auto simp: CywSdpcmHeader_def wire_simps)

lemma CywEthernetBody_safe: "off + n \<le> length b \<Longrightarrow> \<exists>r. CywEthernetBody b off n = Some r"
  by (auto simp: CywEthernetBody_def wire_simps Let_def)

lemma CywMulticastLoop_eq:
  assumes "length multicast \<ge> 6 * count"
  shows "CywMulticastLoop dst multicast count i =
    Some (\<exists>j. i \<le> j \<and> j < count \<and> sub_bytes multicast (6 * j) 6 = dst)"
  using assms
proof (induction dst multicast count i rule: CywMulticastLoop.induct)
  case (1 dst multicast count i)
  show ?case
  proof (cases "i < count")
    case True
    then have r: "rdn multicast (i * 6) 6 = Some (sub_bytes multicast (6 * i) 6)"
      using "1.prems" by (simp add: wire_simps mult.commute)
    show ?thesis
    proof (cases "dst = sub_bytes multicast (6 * i) 6")
      case same: True
      with True r show ?thesis
        by (subst CywMulticastLoop.simps) auto
    next
      case False
      with "1.IH" [OF True r] "1.prems" True r show ?thesis
        by (subst CywMulticastLoop.simps) (auto simp: le_eq_less_or_eq [of i] Suc_le_eq)
    qed
  next
    case False
    then show ?thesis by (subst CywMulticastLoop.simps) auto
  qed
qed

lemma CywCountryListLoop_safe:
  assumes "length data \<ge> 16 + 4 * n"
  shows "\<exists>r. CywCountryListLoop data alpha2 n i found = Some r"
  using assms
proof (induction data alpha2 n i found rule: CywCountryListLoop.induct)
  case (1 data alpha2 n i found)
  show ?case
  proof (cases "i < n")
    case True
    then have "rdn data (16 + 4 * i) 4 = Some (sub_bytes data (16 + 4 * i) 4)"
      using "1.prems" by (simp add: wire_simps)
    with "1.IH" [OF True this] "1.prems" True show ?thesis
      by (subst CywCountryListLoop.simps) auto
  qed (subst CywCountryListLoop.simps, simp)
qed

lemma CywCountryList_safe:
  assumes "length' \<le> length data"
  shows "\<exists>r. CywCountryList data length' alpha2 = Some r"
proof -
  have "\<exists>r. CywCountryListLoop data alpha2 n 0 False = Some r"
    if "n \<le> (length' - 16) div 4" "16 \<le> length'" for n
    using that assms by (intro CywCountryListLoop_safe) linarith
  from this [of "unat (le32 (data ! 12) (data ! 13) (data ! 14) (data ! 15))"] assms show ?thesis
    by (auto simp: CywCountryList_def wire_simps not_less)
qed

lemma NvramLineEnd_safe: "sz \<le> length raw \<Longrightarrow> \<exists>r. NvramLineEnd raw sz i = Some r"
proof (induction raw sz i rule: NvramLineEnd.induct)
  case (1 raw sz i)
  then show ?case
    by (subst NvramLineEnd.simps) (auto simp: wire_simps)
qed

lemma NvramSkipBlanks_safe:
  "start \<le> fin \<Longrightarrow> fin \<le> length raw \<Longrightarrow>
     \<exists>s. NvramSkipBlanks raw start fin = Some s \<and> start \<le> s \<and> s \<le> fin"
proof (induction raw start fin rule: NvramSkipBlanks.induct)
  case (1 raw start fin)
  then show ?case
    by (subst NvramSkipBlanks.simps) (fastforce simp: wire_simps)
qed

lemma NvramFind_safe:
  "j \<le> fin \<Longrightarrow> fin \<le> length raw \<Longrightarrow> \<exists>h. NvramFind ch raw j fin = Some h \<and> j \<le> h \<and> h \<le> fin"
proof (induction ch raw j fin rule: NvramFind.induct)
  case (1 ch raw j fin)
  then show ?case
    by (subst NvramFind.simps) (fastforce simp: wire_simps)
qed

lemma NvramTrimEnd_safe:
  "start \<le> fin \<Longrightarrow> fin \<le> length raw \<Longrightarrow>
     \<exists>e. NvramTrimEnd raw start fin = Some e \<and> start \<le> e \<and> e \<le> fin"
proof (induction raw start fin rule: NvramTrimEnd.induct)
  case (1 raw start fin)
  then show ?case
    by (subst NvramTrimEnd.simps) (fastforce simp: wire_simps)
qed

text \<open>One iteration of the outer loop on a line that ends at \<open>e\<close>.\<close>

lemma NvramLines_step:
  assumes "sz \<le> length raw" "used + 4 \<le> cap" "cap \<le> length out" "i < sz"
    and e: "NvramLineEnd raw sz i = Some (Some e)"
  shows "\<exists>i' used' out'. i < i' \<and> used' + 4 \<le> cap \<and> length out' = length out \<and>
    (NvramLines raw sz cap i used out = NvramLines raw sz cap i' used' out' \<or>
     NvramLines raw sz cap i used out = Some None)"
proof -
  define i' where "i' = (if e < sz then e + 1 else e)"
  have b: "i \<le> e" "e \<le> sz" "i < i'"
    using NvramLineEnd_bounds [OF e] assms by (auto simp: i'_def)
  obtain st where st: "NvramSkipBlanks raw i e = Some st" "i \<le> st" "st \<le> e"
    using NvramSkipBlanks_safe [of i e raw] b assms by auto
  obtain h where h: "NvramFind 35 raw st e = Some h" "st \<le> h" "h \<le> e"
    using NvramFind_safe [of st e raw 35] st b assms by auto
  obtain f where f: "NvramTrimEnd raw st h = Some f" "st \<le> f" "f \<le> h"
    using NvramTrimEnd_safe [of st h raw] st h b assms by auto
  obtain q where q: "NvramFind 61 raw st f = Some q"
    using NvramFind_safe [of st f raw 61] f h b assms by auto
  define d where "d = sub_bytes raw st (f - st)"
  have d: "rdn raw st (f - st) = Some d" "length d = f - st"
    using f h b assms by (auto simp: wire_simps d_def)
  define out' where "out' = take used out @ d @ drop (used + length d) out"
  have c: "csub f st = Some (f - st)" "csub cap used = Some (cap - used)"
    "csub (cap - used) 4 = Some (cap - used - 4)"
    using f assms by (auto simp: csub_def)
  have eq: "NvramLines raw sz cap i used out =
      (if f = st then NvramLines raw sz cap i' used out
       else if q = st \<or> q = f \<or> f - st > 1024 \<or> f - st + 1 > cap - used - 4 then Some None
       else do { out \<leftarrow> wrn out used d; NvramLines raw sz cap i' (used + (f - st) + 1) out })"
    using \<open>i < sz\<close> by (subst NvramLines.simps) (simp add: e st h f q d c i'_def)
  show ?thesis
  proof (cases "f - st + 1 \<le> cap - used - 4")
    case True
    then have "wrn out used d = Some out'" "length out' = length out"
      using assms d by (auto simp: wrn_def out'_def)
    with True b assms show ?thesis
      unfolding eq
      by (intro exI [of _ i'] exI [of _ "if f = st then used else used + (f - st) + 1"]
          exI [of _ "if f = st then out else out'"]) auto
  next
    case False
    with b assms show ?thesis
      unfolding eq by (intro exI [of _ i'] exI [of _ used] exI [of _ out]) auto
  qed
qed

lemma NvramLines_safe:
  assumes "sz \<le> length raw" and "cap \<le> length out" and "used + 4 \<le> cap"
  shows "\<exists>r. NvramLines raw sz cap i used out = Some r \<and>
    (\<forall>u o'. r = Some (u, o') \<longrightarrow> u + 4 \<le> cap \<and> length o' = length out)"
  using assms
proof (induction "sz - i" arbitrary: i used out rule: less_induct)
  case less
  show ?case
  proof (cases "i < sz")
    case False
    with less.prems show ?thesis by (subst NvramLines.simps) auto
  next
    case True
    obtain r where r: "NvramLineEnd raw sz i = Some r"
      using NvramLineEnd_safe [OF less.prems(1)] by blast
    show ?thesis
    proof (cases r)
      case None
      with True r show ?thesis by (subst NvramLines.simps) auto
    next
      case (Some e)
      from NvramLines_step [OF less.prems(1,3,2) True r [unfolded Some]]
      obtain i' used' out' where s: "i < i'" "used' + 4 \<le> cap" "length out' = length out"
        "NvramLines raw sz cap i used out = NvramLines raw sz cap i' used' out' \<or>
         NvramLines raw sz cap i used out = Some None"
        by blast
      show ?thesis
        using less.hyps [of i' out' used'] less.prems True s by auto
    qed
  qed
qed

lemma CywPackNvram_safe:
  assumes "sz \<le> length raw" and "cap \<le> length out"
  shows "\<exists>r. CywPackNvram raw sz out cap = Some r \<and>
    (\<forall>u o'. r = Some (u, o') \<longrightarrow> 4 dvd u \<and> 0 < u \<and> u \<le> cap \<and> length o' = length out)"
proof (cases "sz = 0 \<or> sz > 16384 \<or> cap < 8")
  case True
  then show ?thesis by (auto simp: CywPackNvram_def)
next
  case False
  define out0 where "out0 = replicate cap (0::u8) @ drop cap out"
  have o: "wrn out 0 (replicate cap 0) = Some out0" "length out0 = length out"
    using assms by (auto simp: wrn_def out0_def)
  with assms False obtain r where r: "NvramLines raw sz cap 0 0 out0 = Some r"
    "\<And>u o'. r = Some (u, o') \<Longrightarrow> u + 4 \<le> cap \<and> length o' = length out0"
    using NvramLines_safe [of sz raw cap out0 0 0] by fastforce
  have pos: "0 < (u + 1 + 3) div 4 * 4" "4 dvd (u + 1 + 3) div 4 * 4" for u :: nat
    by simp_all
  show ?thesis
  proof (cases r)
    case None
    with False o r show ?thesis by (simp add: CywPackNvram_def)
  next
    case (Some uo)
    obtain u o' where uo: "uo = (u, o')" by (cases uo)
    with False o r Some show ?thesis
      unfolding CywPackNvram_def Let_def by (simp add: pos div_greater_zero_iff del: One_nat_def add_Suc_right)
  qed
qed

section \<open>Properties\<close>

lemma CywAcceptEthernet_safe:
  "off + 6 \<le> length b \<Longrightarrow> 6 \<le> length mac \<Longrightarrow> 6 * count \<le> length multicast \<Longrightarrow>
     \<exists>r. CywAcceptEthernet b off mac flt multicast count = Some r"
  by (auto simp: CywAcceptEthernet_def wire_simps CywMulticastLoop_eq)

text \<open>
  C9 (safety).  The wire parsers never read outside of the received bytes and never wrap a
  length: packet classification, SDPCM header, Ethernet body, receive filter, country list
  and NVRAM packing return for every content of the buffer, and a packed NVRAM image is a
  positive multiple of four bytes within the capacity of its output buffer.
\<close>

theorem wire_parsers_memory_safe:
  "off + n \<le> length b \<Longrightarrow> CywPacketKind b off n \<noteq> None \<and> CywSdpcmHeader b off n \<noteq> None \<and>
     CywEthernetBody b off n \<noteq> None \<and> CywCountryList (drop off b) n alpha2 \<noteq> None \<and>
     (6 \<le> n \<longrightarrow> 6 \<le> length mac \<longrightarrow> 6 * count \<le> length multicast \<longrightarrow>
        CywAcceptEthernet b off mac flt multicast count \<noteq> None) \<and>
     (cap \<le> length out \<longrightarrow> (\<exists>r. CywPackNvram (drop off b) n out cap = Some r \<and>
        (\<forall>u o'. r = Some (u, o') \<longrightarrow> 4 dvd u \<and> 0 < u \<and> u \<le> cap \<and> length o' = length out)))"
  using CywPacketKind_safe [of off n b] CywSdpcmHeader_safe [of off n b]
    CywEthernetBody_safe [of off n b] CywCountryList_safe [of n "drop off b" alpha2]
    CywAcceptEthernet_safe [of off b mac count multicast flt] CywPackNvram_safe [of n "drop off b" cap out]
  by auto

theorem wire_parsers_memory_safe_witness:
  "CywPacketKind (replicate 20 8) 2 18 \<noteq> None \<and> CywPackNvram [65, 61, 49, 10] 4 (replicate 8 7) 8 \<noteq> None"
  using wire_parsers_memory_safe [of 2 18 "replicate 20 8" "(65, 66)" "[]" 0 "[]" 0 0 "[]"]
    wire_parsers_memory_safe [of 0 4 "[65, 61, 49, 10]" "(65, 66)" "[]" 0 "[]" 0 8 "replicate 8 7"]
  by auto

lemma CywSdpcmHeader_bounds:
  assumes "CywSdpcmHeader b off n = Some (Some (len, doff))"
  shows "12 \<le> n \<and> 12 \<le> doff \<and> doff \<le> len \<and> len \<le> 65535 \<and>
    CywLe16 b off = Some (word_of_nat len) \<and> CywLe16 b (off + 2) = Some (NOT (word_of_nat len))"
proof -
  from assms obtain w m where n: "12 \<le> n" and w: "CywLe16 b off = Some w" "CywLe16 b (off + 2) = Some m"
    and x: "m XOR w = 0xffff" and l: "len = unat w" "12 \<le> doff" "doff \<le> len"
    by (auto simp: CywSdpcmHeader_def not_less split: if_splits bind_splits)
  have x1: "m XOR w = - 1" using x by simp
  have "m = (m XOR w) XOR w" by (simp add: xor.assoc)
  also have "\<dots> = NOT w" by (simp only: x1) simp
  finally show ?thesis
    using n w l by auto
qed

lemma CywEthernetBody_bounds:
  "CywEthernetBody b off n = Some (Some (eoff, elen)) \<Longrightarrow>
     4 \<le> eoff \<and> eoff + elen = n \<and> 14 \<le> elen \<and> elen \<le> 1514"
  by (auto simp: CywEthernetBody_def Let_def split: if_splits bind_splits)

text \<open>
  An accepted SDPCM header has a complemented length check, a length of at least
  the header and a data offset inside of the frame; an accepted BCDC data frame has
  exactly the bytes behind its data offset, between 14 and 1514 of them.
\<close>

theorem accepted_headers_in_bounds:
  "(CywSdpcmHeader b off n = Some (Some (len, doff)) \<longrightarrow>
      12 \<le> n \<and> 12 \<le> doff \<and> doff \<le> len \<and> len \<le> 65535 \<and>
      CywLe16 b off = Some (word_of_nat len) \<and> CywLe16 b (off + 2) = Some (NOT (word_of_nat len))) \<and>
   (CywEthernetBody b off n = Some (Some (eoff, elen)) \<longrightarrow>
      4 \<le> eoff \<and> eoff + elen = n \<and> 14 \<le> elen \<and> elen \<le> 1514)"
  using CywSdpcmHeader_bounds [of b off n len doff] CywEthernetBody_bounds [of b off n eoff elen]
  by blast

theorem accepted_headers_in_bounds_witness:
  "CywSdpcmHeader [16, 0, 239, 255, 0, 2, 0, 12, 0, 1, 0, 0] 0 12 = Some (Some (16, 12)) \<and> (12::nat) \<le> 16"
  using accepted_headers_in_bounds [of "[16, 0, 239, 255, 0, 2, 0, 12, 0, 1, 0, 0]" 0 12 16 12 0 0]
  by (simp add: CywSdpcmHeader_def CywLe16_def rd8_def le16_def)

text \<open>The receive filter of NDIS, on sets of addresses.\<close>

definition multicast_set :: "bytes \<Rightarrow> nat \<Rightarrow> bytes set" where
  "multicast_set multicast count = (\<lambda>j. sub_bytes multicast (6 * j) 6) ` {..<count}"

definition ndis_filter_accepts :: "bytes \<Rightarrow> bytes \<Rightarrow> u32 \<Rightarrow> bytes set \<Rightarrow> bool" where
  "ndis_filter_accepts dst mac flt groups \<longleftrightarrow>
     (if dst = replicate 6 255 then flt AND 8 \<noteq> 0
      else if dst ! 0 AND 1 \<noteq> 0 then flt AND 4 \<noteq> 0 \<or> flt AND 2 \<noteq> 0 \<and> dst \<in> groups
      else flt AND 1 \<noteq> 0 \<and> dst = mac)"

lemma CywAcceptEthernet_filter:
  assumes "count \<le> 32" "off + 6 \<le> length b" "length mac = 6" "6 * count \<le> length multicast"
  shows "CywAcceptEthernet b off mac flt multicast count =
    Some (ndis_filter_accepts (sub_bytes b off 6) mac flt (multicast_set multicast count))"
proof -
  have "sub_bytes b off 6 ! 0 = b ! off" "sub_bytes mac 0 6 = mac"
    using assms by (simp_all add: sub_bytes_def)
  then show ?thesis
    using assms by (auto simp: CywAcceptEthernet_def wire_simps CywMulticastLoop_eq
        ndis_filter_accepts_def multicast_set_def intro: rev_image_eqI)
qed

text \<open>
  C11 (refinement).  For at most 32 multicast groups the byte-level receive filter accepts a
  frame exactly if the set-level NDIS filter does: broadcast frames by the broadcast bit,
  group frames by the all-multicast bit or by membership, unicast frames by the directed
  bit and the own address.
\<close>

theorem CywAcceptEthernet_refines_filter:
  assumes "count \<le> 32" "off + 6 \<le> length b" "length mac = 6" "6 * count \<le> length multicast"
  shows "CywAcceptEthernet b off mac flt multicast count =
    Some (ndis_filter_accepts (sub_bytes b off 6) mac flt (multicast_set multicast count))"
  using assms by (rule CywAcceptEthernet_filter)

theorem CywAcceptEthernet_refines_filter_witness:
  "CywAcceptEthernet [1, 0, 94, 0, 0, 251] 0 (replicate 6 2) 2 [1, 0, 94, 0, 0, 251] 1 =
    Some (ndis_filter_accepts (sub_bytes [1, 0, 94, 0, 0, 251] 0 6) (replicate 6 2) 2
      (multicast_set [1, 0, 94, 0, 0, 251] 1))"
  by (rule CywAcceptEthernet_refines_filter) simp_all

text \<open>Firmware credits: the window is the distance from the sequence number to the maximum.\<close>

definition credit_window :: "u8 \<Rightarrow> u8 \<Rightarrow> nat" where
  "credit_window seq mx = unat (mx - seq)"

lemma CywTxCredit_window: "CywTxCredit seq mx 0 \<longleftrightarrow> 1 \<le> credit_window seq mx \<and> credit_window seq mx \<le> 64"
  by (auto simp: CywTxCredit_def credit_window_def word_le_nat_alt Let_def unat_gt_0 Suc_le_eq)

lemma credit_window_Suc: "seq \<noteq> mx \<Longrightarrow> credit_window (seq + 1) mx = credit_window seq mx - 1"
  by (simp add: credit_window_def diff_diff_add [symmetric] unat_minus_one)

text \<open>
  A frame may be sent exactly if the wrapping 8-bit credit window holds 1 to
  64 credits and no flow bit is set; each send uses one credit, also across the wrap-around of
  the sequence number, so that a window of \<open>k\<close> credits admits exactly \<open>k\<close> sends.
\<close>

theorem CywTxCredit_admits_window:
  "credit_window seq mx = k \<Longrightarrow> k \<le> 64 \<Longrightarrow>
     (\<forall>j < k. CywTxCredit (seq + word_of_nat j) mx 0) \<and>
     \<not> CywTxCredit (seq + word_of_nat k) mx 0 \<and> (flow \<noteq> 0 \<longrightarrow> \<not> CywTxCredit seq mx flow)"
proof -
  assume k: "credit_window seq mx = k" "k \<le> 64"
  have w: "credit_window (seq + word_of_nat j) mx = k - j" if "j \<le> k" for j
    using that
  proof (induction j)
    case 0
    then show ?case using k by simp
  next
    case (Suc j)
    then have "credit_window (seq + word_of_nat j) mx = k - j" by simp
    moreover from this Suc.prems have "seq + word_of_nat j \<noteq> mx"
      by (auto simp: credit_window_def)
    ultimately show ?case
      using credit_window_Suc [of "seq + word_of_nat j" mx] by (simp add: algebra_simps)
  qed
  have "CywTxCredit (seq + word_of_nat j) mx 0" if "j < k" for j
    using that k w [of j] unfolding CywTxCredit_window by linarith
  moreover have "\<not> CywTxCredit (seq + word_of_nat k) mx 0"
    using w [of k] by (simp add: CywTxCredit_window)
  moreover have "flow \<noteq> 0 \<longrightarrow> \<not> CywTxCredit seq mx flow"
    by (simp add: CywTxCredit_def Let_def)
  ultimately show ?thesis by blast
qed

theorem CywTxCredit_admits_window_witness:
  "CywTxCredit 254 1 0 \<and> CywTxCredit (254 + word_of_nat 2) 1 0 \<and> \<not> CywTxCredit (254 + word_of_nat 3) 1 0 \<and>
     \<not> CywTxCredit 254 1 1"
proof -
  have "credit_window 254 1 = 3" by (simp add: credit_window_def)
  then have w: "\<forall>j < 3. CywTxCredit (254 + word_of_nat j) 1 0" "\<not> CywTxCredit (254 + word_of_nat 3) 1 0"
      "\<not> CywTxCredit 254 1 1"
    using CywTxCredit_admits_window [of 254 1 3 1] by simp_all
  show ?thesis using w(1) [rule_format, of 0] w(1) [rule_format, of 2] w(2,3) by simp
qed

text \<open>
  A country request built for an upper-case ISO code is recognised as that code
  (revision 0) when it is read back, for no other code, and lower-case codes are refused.
\<close>

theorem CywCountryRequest_roundtrip:
  "(case CywCountryRequest alpha2 of
      None \<Rightarrow> \<not> (is_upper (fst alpha2) \<and> is_upper (snd alpha2))
    | Some r \<Rightarrow> length r = 12 \<and> CywLe32 r 4 = Some 0 \<and>
        (\<forall>other. CywCountryMatches other r 12 = Some (other = alpha2)))"
  by (auto simp: CywCountryRequest_def CywCountryMatches_def wire_simps nth_list_update sub_bytes_def
      le32_def split: prod.splits)

end
