(* ===== verification/Firmware.thy ===== *)
theory Firmware
  imports Chip Wire_Protocol
begin

text \<open>
  Firmware upload and start (\<open>cyw43455/firmware.c\<close>, \<open>cyw43455/startup_bus.h\<close>): the files are read, the CPU halted, the RAM
  sized, the image written and read back, the NVRAM and the reset vector written, the CPU started and the
  operating bus verified.

  The file system is the record \<open>files\<close>: results of opening, of the size query, of the pool allocation and of the read.  A buffer
  from the pool is zeroed, so the padding of the image is zero.  The snapshots of \<open>CywFirmwareSnapshot\<close> are kept up to the
  export to the registry.
\<close>

section \<open>Files and progress\<close>

record 'w files =
  fs_open :: "nat \<Rightarrow> 'w \<Rightarrow> NTSTATUS \<times> 'w"
  fs_query :: "nat \<Rightarrow> 'w \<Rightarrow> (NTSTATUS \<times> int) \<times> 'w"
  fs_alloc :: "nat \<Rightarrow> 'w \<Rightarrow> bool \<times> 'w"
  fs_read :: "nat \<Rightarrow> nat \<Rightarrow> 'w \<Rightarrow> (NTSTATUS \<times> bytes) \<times> 'w"

definition pad4 :: "nat \<Rightarrow> nat" where
  "pad4 n = (n + 3) div 4 * 4"

text \<open>The data are the bytes of the file, in a buffer padded to whole words.\<close>

definition CywReadFirmwareFile :: "'w files \<Rightarrow> nat \<Rightarrow> nat \<Rightarrow> ('w, NTSTATUS \<times> nat \<times> bytes) drv" where
  "CywReadFirmwareFile F name limit = do {
     st \<leftarrow> world (fs_open F name);
     if \<not> NT_SUCCESS st then ret (st, 0, []) else do {
     (st, eof) \<leftarrow> world (fs_query F name);
     let st = (if NT_SUCCESS st \<and> (eof \<le> 0 \<or> eof > int limit) then STATUS_INVALID_IMAGE_FORMAT else st);
     if \<not> NT_SUCCESS st then ret (st, 0, []) else do {
     let sz = nat eof;
     ok \<leftarrow> world (fs_alloc F (pad4 sz));
     if \<not> ok then ret (STATUS_INSUFFICIENT_RESOURCES, sz, []) else do {
     (st, d) \<leftarrow> world (fs_read F name sz);
     if NT_SUCCESS st \<and> length d \<noteq> sz then ret (0xC0000011, sz, [])
     else if \<not> NT_SUCCESS st then ret (st, sz, [])
     else ret (st, sz, d @ replicate (pad4 sz - sz) 0) } } } }"

definition NetworkCancelled :: "'w hw \<Rightarrow> ('w, bool) drv" where
  "NetworkCancelled H = do { stop \<leftarrow> IoStopped H; if stop then ret True else world (hw_netstop H) }"

definition CywFirmwareSnapshot :: "'w hw \<Rightarrow> bool \<Rightarrow> ('w, unit) drv" where
  "CywFirmwareSnapshot H Force = do {
     now \<leftarrow> InterruptTime H;
     f \<leftarrow> asks AFw;
     if Force \<or> now \<ge> FirmwareNextSnapshot f then do {
       fwS (\<lambda>f. f\<lparr>FirmwareNextSnapshot := now + 50000000\<rparr>);
       Rpi5CywWriteDiagnostics 120 (FwNetworkStatus f) }
     else ret () }"

definition CywFirmwarePhase :: "'w hw \<Rightarrow> u32 \<Rightarrow> ('w, unit) drv" where
  "CywFirmwarePhase H phase = do { fwS (\<lambda>f. f\<lparr>FwNetworkPhase := phase\<rparr>); CywFirmwareSnapshot H True }"

section \<open>Backplane and RAM\<close>

text \<open>The window cache may be used only in the verified operating mode.\<close>

definition WindowCacheable :: "adapter \<Rightarrow> bool" where
  "WindowCacheable a \<longleftrightarrow> (let b = ABus a in
     BusModeStage b = 6 \<and> BusWidth b = 4 \<and> BusActualKhz b > 400 \<and>
     ((\<not> BusHighSpeedActive b \<and> BusActualKhz b \<le> 25000) \<or>
      (BusActualKhz b \<le> 50000 \<and> BusHighSpeedActive b \<and> BusHighSpeedStatus b = STATUS_SUCCESS \<and>
       BusCardSpeed b AND 0x0e = 2 \<and> HostControl (AHost a) AND 4 \<noteq> 0)))"

definition CywWindow :: "'w hw \<Rightarrow> u32 \<Rightarrow> ('w, NTSTATUS) drv" where
  "CywWindow H address = do {
     let window = address AND 0xffff8000;
     cache \<leftarrow> asks WindowCacheable;
     stop \<leftarrow> IoStopped H;
     if stop then ret STATUS_CANCELLED else do {
     b \<leftarrow> asks ABp;
     if cache \<and> BpWindowValid b \<and> BpWindow b = window then do {
       bpS (\<lambda>b. b\<lparr>BpWindowCacheHits := BpWindowCacheHits b + 1\<rparr>);
       ret STATUS_SUCCESS }
     else do {
       bpS (\<lambda>b. b\<lparr>BpWindowValid := False\<rparr>);
       st \<leftarrow> WindowLoop H [0, 1, 2] window;
       orelse st (do {
       (if cache then bpS (\<lambda>b. b\<lparr>BpWindow := window, BpWindowValid := True, BpWindowSelections := BpWindowSelections b + 1\<rparr>)
        else ret ());
       ret STATUS_SUCCESS }) } } }"

definition BackplaneAddress :: "u32 \<Rightarrow> bool" where
  "BackplaneAddress address \<longleftrightarrow> \<not> (address AND 3 \<noteq> 0 \<or> address < 0x18000000 \<or> address > 0x181ffffc)"

definition CywBpRead :: "'w hw \<Rightarrow> u32 \<Rightarrow> ('w, NTSTATUS \<times> u32) drv" where
  "CywBpRead H address =
    (if \<not> BackplaneAddress address then ret (STATUS_INVALID_PARAMETER, 0)
     else do {
       st \<leftarrow> CywWindow H address;
       (st, b) \<leftarrow> (if NT_SUCCESS st then SdioCmd53Read H 1 ((address AND 0x7fff) OR 0x8000) (replicate 4 0)
                   else ret (st, []));
       (if \<not> NT_SUCCESS st then bpS (\<lambda>b. b\<lparr>BpWindowValid := False\<rparr>) else ret ());
       ret (st, if NT_SUCCESS st then WordOf b else 0) })"

definition bytes32 :: "u32 \<Rightarrow> bytes" where
  "bytes32 v = [byte_of 0 v, byte_of 1 v, byte_of 2 v, byte_of 3 v]"

definition CywBpWrite :: "'w hw \<Rightarrow> u32 \<Rightarrow> u32 \<Rightarrow> ('w, NTSTATUS) drv" where
  "CywBpWrite H address v =
    (if \<not> BackplaneAddress address then ret STATUS_INVALID_PARAMETER
     else do {
       st \<leftarrow> CywWindow H address;
       (st, _) \<leftarrow> (if NT_SUCCESS st then SdioCmd53Write H 1 ((address AND 0x7fff) OR 0x8000) (bytes32 v)
                   else ret (st, []));
       (if \<not> NT_SUCCESS st then bpS (\<lambda>b. b\<lparr>BpWindowValid := False\<rparr>) else ret ());
       ret st })"

text \<open>A range of RAM, or the reset vector.\<close>

definition RamRange :: "chipd \<Rightarrow> u32 \<Rightarrow> u32 \<Rightarrow> bool" where
  "RamRange c address len \<longleftrightarrow> len \<noteq> 0 \<and>
     ((address = 0 \<and> len = 4) \<or>
      (address \<ge> RamBase c \<and> address - RamBase c \<le> RamSize c \<and> len \<le> RamSize c - (address - RamBase c)))"

text \<open>The length of the next chunk: it stays inside a 32 KiB window and within 64 bytes.\<close>

definition RamChunk :: "u32 \<Rightarrow> nat \<Rightarrow> nat" where
  "RamChunk address left = min (min (0x8000 - unat (address AND 0x7fff)) 64) left"

lemma RamChunk_bounds: "0 < left \<Longrightarrow> 0 < RamChunk address left \<and> RamChunk address left \<le> left"
proof -
  have "unat (address AND 0x7fff) \<le> 0x7fff"
    using word_and_le1 [of address "0x7fff"] by (simp add: word_le_nat_alt)
  then show "0 < left \<Longrightarrow> ?thesis" by (simp add: RamChunk_def)
qed

text \<open>
  One chunk: the status, the bytes and the window now selected.
\<close>

definition RamStep :: "'w hw \<Rightarrow> u32 \<Rightarrow> bytes \<Rightarrow> bool \<Rightarrow> u32 \<Rightarrow> ('w, NTSTATUS \<times> bytes \<times> u32) drv" where
  "RamStep H address chunk Write window = do {
     fwS (\<lambda>f. f\<lparr>RamTransferAddress := address, RamTransferLength := word_of_nat (length chunk), RamTransferWrite := Write,
       RamTransferStatus := STATUS_PENDING, RamTransferStage := 1\<rparr>);
     CywFirmwareSnapshot H False;
     st \<leftarrow> (if window \<noteq> address AND 0xffff8000 then CywWindow H address else ret STATUS_SUCCESS);
     if \<not> NT_SUCCESS st then do { fwS (\<lambda>f. f\<lparr>RamTransferStatus := st\<rparr>); ret (st, [], window) } else do {
     fwS (\<lambda>f. f\<lparr>RamTransferStage := 2\<rparr>);
     (st, d) \<leftarrow> (if Write then SdioCmd53Write H 1 ((address AND 0x7fff) OR 0x8000) chunk
                 else SdioCmd53Read H 1 ((address AND 0x7fff) OR 0x8000) chunk);
     fwS (\<lambda>f. f\<lparr>RamTransferStatus := st\<rparr>);
     if \<not> NT_SUCCESS st then ret (st, [], window) else do {
     base \<leftarrow> asks (\<lambda>a. RamBase (AChip a));
     fwS (\<lambda>f. f\<lparr>RamTransferStage := 3, FirmwareUploadedBytes :=
       (if Write \<and> FwNetworkPhase f = 420
        then min (address - base + word_of_nat (length chunk)) (FirmwareTotalBytes f) else FirmwareUploadedBytes f)\<rparr>);
     CywFirmwareSnapshot H False;
     ret (STATUS_SUCCESS, d, address AND 0xffff8000) } } }"

function RamLoop :: "'w hw \<Rightarrow> u32 \<Rightarrow> bytes \<Rightarrow> bool \<Rightarrow> u32 \<Rightarrow> ('w, NTSTATUS \<times> bytes) drv" where
  "RamLoop H address buf Write window =
    (if buf = [] then ret (STATUS_SUCCESS, [])
     else do {
       cancelled \<leftarrow> NetworkCancelled H;
       if cancelled then do {
         fwS (\<lambda>f. f\<lparr>RamTransferStatus := STATUS_CANCELLED, RamTransferStage := 4\<rparr>);
         ret (STATUS_CANCELLED, []) }
       else do {
         let n = RamChunk address (length buf);
         (st, d, window) \<leftarrow> RamStep H address (take n buf) Write window;
         if \<not> NT_SUCCESS st then ret (st, [])
         else do {
           (st, rest) \<leftarrow> RamLoop H (address + word_of_nat n) (drop n buf) Write window;
           ret (st, d @ rest) } } })"
  by pat_completeness auto
termination
  by (relation "measure (\<lambda>(H, address, buf, Write, window). length buf)") (simp_all add: RamChunk_bounds)

declare RamLoop.simps [simp del]

text \<open>The bytes of the result are those read; they are meant only when the status is a success.\<close>

definition CywRam :: "'w hw \<Rightarrow> u32 \<Rightarrow> bytes \<Rightarrow> bool \<Rightarrow> ('w, NTSTATUS \<times> bytes) drv" where
  "CywRam H address buf Write = do {
     c \<leftarrow> asks AChip;
     if \<not> RamRange c address (word_of_nat (length buf)) then ret (STATUS_INVALID_PARAMETER, [])
     else RamLoop H address buf Write 0xffffffff }"

section \<open>Cores\<close>

text \<open>A backplane read in a \<open>TRY\<close>.\<close>

definition tryRead :: "'w hw \<Rightarrow> u32 \<Rightarrow> (u32 \<Rightarrow> ('w, NTSTATUS) drv) \<Rightarrow> ('w, NTSTATUS) drv" where
  "tryRead H address k = do { (st, v) \<leftarrow> CywBpRead H address; orelse st (k v) }"

definition tryWrite :: "'w hw \<Rightarrow> u32 \<Rightarrow> u32 \<Rightarrow> ('w, NTSTATUS) drv \<Rightarrow> ('w, NTSTATUS) drv" where
  "tryWrite H address v k = do { st \<leftarrow> CywBpWrite H address v; orelse st k }"

text \<open>Put a core into reset unless it is there: both \<open>CywCr4Reset\<close> and \<open>CywD11Hold\<close> begin with it.\<close>

definition HoldCore :: "'w hw \<Rightarrow> u32 \<Rightarrow> u32 \<Rightarrow> ('w, NTSTATUS) drv \<Rightarrow> ('w, NTSTATUS) drv" where
  "HoldCore H w control k =
     tryRead H (w + 0x800) (\<lambda>v.
       if v AND 1 \<noteq> 0 then k
       else tryWrite H (w + 0x408) control (
         tryRead H (w + 0x408) (\<lambda>_.
         tryWrite H (w + 0x800) 1 (do {
         Stall H 10;
         tryRead H (w + 0x800) (\<lambda>v. if v AND 1 = 0 then ret STATUS_DEVICE_NOT_READY else k) }))))"

fun ReleaseLoop :: "'w hw \<Rightarrow> nat \<Rightarrow> u32 \<Rightarrow> ('w, NTSTATUS) drv" where
  "ReleaseLoop H 0 w = ret STATUS_IO_TIMEOUT"
| "ReleaseLoop H (Suc n) w = tryWrite H (w + 0x800) 0 (do {
     Stall H 50;
     tryRead H (w + 0x800) (\<lambda>v. if v AND 1 = 0 then ret STATUS_SUCCESS else ReleaseLoop H n w) })"

definition CywCr4Reset :: "'w hw \<Rightarrow> u32 \<Rightarrow> u32 \<Rightarrow> u32 \<Rightarrow> ('w, NTSTATUS) drv" where
  "CywCr4Reset H pre held post = do {
     w \<leftarrow> asks (\<lambda>a. Cr4WrapperBase (AChip a));
     HoldCore H w (pre OR 3) (
       tryWrite H (w + 0x408) (held OR 3) (
       tryRead H (w + 0x408) (\<lambda>_. do {
       st \<leftarrow> ReleaseLoop H 50 w;
       orelse st (
       tryWrite H (w + 0x408) (post OR 1) (
       tryRead H (w + 0x408) (\<lambda>_. do { Stall H 10; ret STATUS_SUCCESS }))) }))) }"

fun PollRegister :: "'w hw \<Rightarrow> nat \<Rightarrow> u8 \<Rightarrow> u32 \<Rightarrow> u8 \<Rightarrow> ('w, NTSTATUS) drv" where
  "PollRegister H 0 function address bits = ret STATUS_IO_TIMEOUT"
| "PollRegister H (Suc n) function address bits = do {
     cancelled \<leftarrow> NetworkCancelled H;
     if cancelled then ret STATUS_CANCELLED else do {
     (st, v) \<leftarrow> SdioCmd52Read H function address;
     orelse st (
       if v AND bits = bits then ret STATUS_SUCCESS
       else do { SdioDelayMilliseconds H 1; PollRegister H n function address bits }) } }"

definition CywClock :: "'w hw \<Rightarrow> u8 \<Rightarrow> u8 \<Rightarrow> ('w, NTSTATUS) drv" where
  "CywClock H request bits = do {
     st \<leftarrow> SdioCmd52Write H 1 0x1000e request 0x3f;
     orelse st (PollRegister H 1000 1 0x1000e bits) }"

definition CywEnable :: "'w hw \<Rightarrow> u8 \<Rightarrow> ('w, NTSTATUS) drv" where
  "CywEnable H bits = do {
     (st, v) \<leftarrow> SdioCmd52Read H 0 2;
     orelse st (do {
     st \<leftarrow> SdioCmd52Write H 0 2 (v OR bits) 0xfe;
     orelse st (PollRegister H 1000 0 3 bits) }) }"

definition CywD11Hold :: "'w hw \<Rightarrow> ('w, NTSTATUS) drv" where
  "CywD11Hold H = do {
     c \<leftarrow> asks AChip;
     let w = D11WrapperBase c;
     if w < 0x18100000 \<or> w > 0x181ff000 \<or> w = Cr4WrapperBase c then ret STATUS_DEVICE_CONFIGURATION_ERROR
     else HoldCore H w 0xf (
       tryWrite H (w + 0x408) 7 (tryRead H (w + 0x408) (\<lambda>_. ret STATUS_SUCCESS))) }"

section \<open>The startup bus\<close>

fun StartupProbeLoop :: "'w hw \<Rightarrow> nat \<Rightarrow> ('w, NTSTATUS) drv" where
  "StartupProbeLoop H 0 = ret STATUS_SUCCESS"
| "StartupProbeLoop H (Suc n) = do {
     cancelled \<leftarrow> NetworkCancelled H;
     if cancelled then ret STATUS_CANCELLED else do {
     c \<leftarrow> asks AChip;
     tryRead H (ChipCommonBase c) (\<lambda>v.
       if v \<noteq> ChipIdRaw c then ret STATUS_DEVICE_DATA_ERROR else StartupProbeLoop H n) } }"

definition CywStartupProbeBus :: "'w hw \<Rightarrow> ('w, NTSTATUS) drv" where
  "CywStartupProbeBus H = do {
     bpS (\<lambda>b. b\<lparr>BpWindowValid := False\<rparr>);
     busS (\<lambda>b. b\<lparr>BusModeStage := 5\<rparr>);
     StartupProbeLoop H 16 }"

text \<open>The attempt at 4 bits and 25 MHz; its status is kept as \<open>FirmwareStartupStatus\<close>.\<close>

definition TryFastBus :: "'w hw \<Rightarrow> ('w, NTSTATUS) drv" where
  "TryFastBus H = do {
     (st, caps) \<leftarrow> SdioCmd52Read H 0 8;
     orelse st (do {
     capabilities \<leftarrow> asks (\<lambda>a. Capabilities (AHost a));
     if capabilities AND 0xFF00 = 0 \<or> caps AND 0x40 \<noteq> 0 then ret STATUS_DEVICE_CONFIGURATION_ERROR else do {
     st \<leftarrow> SdioRestoreDefaultOperatingBus H;
     orelse st (do {
     b \<leftarrow> asks ABus;
     if BusWidth b \<noteq> 4 \<or> BusActualKhz b \<le> 400 \<or> BusActualKhz b > 25000 \<or> BusHighSpeedActive b
     then ret STATUS_DEVICE_DATA_ERROR
     else CywStartupProbeBus H }) } }) }"

definition CywPrepareFirmwareBus :: "'w hw \<Rightarrow> ('w, NTSTATUS) drv" where
  "CywPrepareFirmwareBus H = do {
     fwS (\<lambda>f. f\<lparr>FirmwareStartupBusKhz := 0, FirmwareStartupFallback := False, FirmwareStartupElapsedMs := 0,
       FirmwareStartupStatus := STATUS_SUCCESS\<rparr>);
     cancelled \<leftarrow> NetworkCancelled H;
     if cancelled then ret STATUS_CANCELLED else do {
     st \<leftarrow> TryFastBus H;
     fwS (\<lambda>f. f\<lparr>FirmwareStartupStatus := st\<rparr>);
     if NT_SUCCESS st then do {
       busS (\<lambda>b. b\<lparr>BusModeStage := 6\<rparr>);
       khz \<leftarrow> asks (\<lambda>a. BusActualKhz (ABus a));
       fwS (\<lambda>f. f\<lparr>FirmwareStartupBusKhz := khz\<rparr>);
       ret STATUS_SUCCESS }
     else do {
       cancelled \<leftarrow> NetworkCancelled H;
       if cancelled \<or> st = STATUS_CANCELLED then ret STATUS_CANCELLED else do {
       stage \<leftarrow> asks (\<lambda>a. BusModeStage (ABus a));
       if stage = 99 then ret st else do {
       fwS (\<lambda>f. f\<lparr>FirmwareStartupFallback := True\<rparr>);
       st \<leftarrow> SdioRestoreIdentificationBus H;
       st \<leftarrow> (if NT_SUCCESS st then CywStartupProbeBus H else ret st);
       if \<not> NT_SUCCESS st then do {
         busS (\<lambda>b. b\<lparr>BusModeStage := 99, BusRecoveryStatus := st\<rparr>);
         ret st }
       else do {
         busS (\<lambda>b. b\<lparr>BusModeStage := 1\<rparr>);
         bpS (\<lambda>b. b\<lparr>BpWindowValid := False\<rparr>);
         khz \<leftarrow> asks (\<lambda>a. BusActualKhz (ABus a));
         fwS (\<lambda>f. f\<lparr>FirmwareStartupBusKhz := khz\<rparr>);
         ret STATUS_SUCCESS } } } } } }"

definition CywFinishFirmwareBus :: "'w hw \<Rightarrow> ('w, NTSTATUS) drv" where
  "CywFinishFirmwareBus H = do {
     cancelled \<leftarrow> NetworkCancelled H;
     if cancelled then ret STATUS_CANCELLED else do {
     st \<leftarrow> SdioRestoreIdentificationBus H;
     bpS (\<lambda>b. b\<lparr>BpWindowValid := False\<rparr>);
     st \<leftarrow> (if NT_SUCCESS st then CywStartupProbeBus H else ret st);
     if \<not> NT_SUCCESS st then do { busS (\<lambda>b. b\<lparr>BusModeStage := 99, BusRecoveryStatus := st\<rparr>); ret st }
     else do { busS (\<lambda>b. b\<lparr>BusModeStage := 1\<rparr>); ret STATUS_SUCCESS } } }"

section \<open>Firmware start\<close>

fun tryWrites :: "'w hw \<Rightarrow> (u8 \<times> u32 \<times> u8 \<times> u8) list \<Rightarrow> ('w, NTSTATUS) drv" where
  "tryWrites H [] = ret STATUS_SUCCESS"
| "tryWrites H ((function, address, v, verify) # ws) = do {
     st \<leftarrow> SdioCmd52Write H function address v verify;
     orelse st (tryWrites H ws) }"

text \<open>The FIFO and interrupts of a previous firmware are quiesced and function 1 is set up.\<close>

definition FwQuiesce :: "'w hw \<Rightarrow> ('w, NTSTATUS) drv" where
  "FwQuiesce H = do {
     (st, byte) \<leftarrow> SdioCmd52Read H 0 2;
     orelse st (do {
     st \<leftarrow> tryWrites H [(0, 2, byte AND NOT 4, 0xfe), (0, 4, 0, 7), (0, 6, 2, 0), (0, 0x110, 64, 0xff), (0, 0x111, 0, 0xff)];
     orelse st (do {
     st \<leftarrow> CywEnable H 2;
     orelse st (do {
     st \<leftarrow> CywClock H 0x28 0x40;
     orelse st (do {
     st \<leftarrow> SdioCmd52Write H 1 0x1000e 0x21 0x3f;
     orelse st (do { Stall H 65; ret STATUS_SUCCESS }) }) }) }) }) }"

fun RamBankLoop :: "'w hw \<Rightarrow> u32 list \<Rightarrow> ('w, NTSTATUS) drv" where
  "RamBankLoop H [] = ret STATUS_SUCCESS"
| "RamBankLoop H (i # is) = do {
     core \<leftarrow> asks (\<lambda>a. Cr4CoreBase (AChip a));
     tryWrite H (core + 0x40) i (
     tryRead H (core + 0x44) (\<lambda>v.
       if v = 0xffffffff then ret STATUS_DEVICE_DATA_ERROR
       else do {
         chipS (\<lambda>c. c\<lparr>RamSize := RamSize c + ((v AND 0x7f) + 1) * (if v AND 0x200 \<noteq> 0 then 1024 else 8192)\<rparr>);
         RamBankLoop H is })) }"

text \<open>The CPU is halted, the 802.11 core held in reset and the RAM banks are summed up.\<close>

definition FwHalt :: "'w hw \<Rightarrow> ('w, NTSTATUS) drv" where
  "FwHalt H = do {
     CywFirmwarePhase H 410;
     c \<leftarrow> asks AChip;
     tryRead H (Cr4WrapperBase c + 0x408) (\<lambda>v. do {
     st \<leftarrow> CywCr4Reset H (v AND 0x20) 0x20 0x20;
     orelse st (do {
     st \<leftarrow> CywD11Hold H;
     orelse st (
     tryRead H (Cr4CoreBase c + 4) (\<lambda>cap.
       let bank = BankCount cap in
       if bank = 0 \<or> bank > 30 then ret STATUS_DEVICE_DATA_ERROR
       else do {
         chipS (\<lambda>c. c\<lparr>RamSize := 0\<rparr>);
         RamBankLoop H (map word_of_nat [0..<unat bank]) })) }) }) }"

function ReadbackLoop :: "'w hw \<Rightarrow> bytes \<Rightarrow> nat \<Rightarrow> nat \<Rightarrow> ('w, NTSTATUS) drv" where
  "ReadbackLoop H fw fwSize off =
    (if off \<ge> length fw then ret STATUS_SUCCESS
     else do {
       let n = min (length fw - off) 512;
       base \<leftarrow> asks (\<lambda>a. RamBase (AChip a));
       (st, check) \<leftarrow> CywRam H (base + word_of_nat off) (replicate n 0) False;
       orelse st (
         if check \<noteq> take n (drop off fw) then ret STATUS_DEVICE_DATA_ERROR
         else do {
           fwS (\<lambda>f. f\<lparr>FirmwareBytes := word_of_nat (min (off + n) fwSize)\<rparr>);
           CywFirmwareSnapshot H False;
           ReadbackLoop H fw fwSize (off + n) }) })"
  by pat_completeness auto
termination
  by (relation "measure (\<lambda>(H, fw, fwSize, off). length fw - off)") auto

declare ReadbackLoop.simps [simp del]

definition FwUpload :: "'w hw \<Rightarrow> bytes \<Rightarrow> nat \<Rightarrow> ('w, NTSTATUS) drv" where
  "FwUpload H fw fwSize = do {
     begin' \<leftarrow> InterruptTime H;
     st \<leftarrow> CywPrepareFirmwareBus H;
     orelse st (do {
     CywFirmwarePhase H 420;
     base \<leftarrow> asks (\<lambda>a. RamBase (AChip a));
     (st, _) \<leftarrow> CywRam H base fw True;
     orelse st (do {
     CywFirmwarePhase H 421;
     st \<leftarrow> ReadbackLoop H fw fwSize 0;
     orelse st (do {
     now \<leftarrow> InterruptTime H;
     fwS (\<lambda>f. f\<lparr>FirmwareStartupElapsedMs := ucast ((now - begin') div 10000)\<rparr>);
     CywFinishFirmwareBus H }) }) }) }"

definition NvramToken :: "nat \<Rightarrow> u32" where
  "NvramToken nvSize = (let token = word_of_nat (nvSize div 4) in push_bit 16 (NOT token AND 0xffff) OR (token AND 0xffff))"

definition FwBoot :: "'w hw \<Rightarrow> bytes \<Rightarrow> bytes \<Rightarrow> ('w, NTSTATUS) drv" where
  "FwBoot H fw nv = do {
     CywFirmwarePhase H 422;
     c \<leftarrow> asks AChip;
     (st, _) \<leftarrow> CywRam H (RamBase c + RamSize c - word_of_nat (length nv) - 4) nv True;
     orelse st (do {
     (st, _) \<leftarrow> CywRam H (RamBase c + RamSize c - 4) (bytes32 (NvramToken (length nv))) True;
     orelse st (do {
     (st, _) \<leftarrow> CywRam H 0 (take 4 fw) True;
     orelse st (
     tryWrite H (SdioCoreBase c + 0x20) 0xffffffff (do {
     CywFirmwarePhase H 430;
     st \<leftarrow> CywCr4Reset H 0x20 0 0;
     orelse st (do {
     st \<leftarrow> CywClock H 0x10 0xc0;
     orelse st (do {
     (st, byte) \<leftarrow> SdioCmd52Read H 1 0x10009;
     orelse st (do {
     st \<leftarrow> tryWrites H [(1, 0x10009, byte OR 0x10, 0x10), (1, 0x10008, 0x60, 0xff), (1, 0x1001d, 0xd0, 0xff),
       (0, 0x210, 0, 0xff), (0, 0x211, 2, 0xff)];
     orelse st (
     tryWrite H (SdioCoreBase c + 0x48) 0x40000 (do {
     st \<leftarrow> CywEnable H 4;
     orelse st (do {
     st \<leftarrow> SdioCmd52Write H 0 4 7 7;
     orelse st (
     tryWrite H (SdioCoreBase c + 0x24) 0x200000f0 (do {
     CywFirmwarePhase H 440;
     SdioNegotiateOperatingSpeed H })) }) })) }) }) }) })) }) }) }"

fun VerifyReads :: "'w hw \<Rightarrow> nat \<Rightarrow> ('w, NTSTATUS) drv" where
  "VerifyReads H 0 = ret STATUS_SUCCESS"
| "VerifyReads H (Suc n) = do {
     cancelled \<leftarrow> NetworkCancelled H;
     c \<leftarrow> asks AChip;
     (st, v) \<leftarrow> (if cancelled then ret (STATUS_CANCELLED, 0) else CywBpRead H (ChipCommonBase c));
     let st = (if NT_SUCCESS st \<and> v \<noteq> ChipIdRaw c then STATUS_DEVICE_DATA_ERROR else st);
     orelse st (do {
     busS (\<lambda>b. b\<lparr>BusVerifyReads := BusVerifyReads b + 1\<rparr>);
     VerifyReads H n }) }"

text \<open>The sixteen reads at \<open>VerifyOperatingBus\<close>; \<open>retry\<close> is the jump back to the label, when it may still be taken.\<close>

definition VerifyRound :: "'w hw \<Rightarrow> ('w, NTSTATUS) drv option \<Rightarrow> ('w, NTSTATUS) drv" where
  "VerifyRound H retry = do {
     busS (\<lambda>b. b\<lparr>BusModeStage := 5, BusVerifyReads := 0\<rparr>);
     st \<leftarrow> VerifyReads H 16;
     if NT_SUCCESS st then do {
       busS (\<lambda>b. b\<lparr>BusModeStage := 6, BusVerifyStatus := STATUS_SUCCESS\<rparr>);
       CywFirmwarePhase H 450;
       ret st }
     else do {
       busS (\<lambda>b. b\<lparr>BusVerifyStatus := st\<rparr>);
       fast \<leftarrow> asks (\<lambda>a. BusHighSpeedActive (ABus a));
       case retry of
         Some again \<Rightarrow>
           if fast \<and> st \<noteq> STATUS_CANCELLED then do {
             busS (\<lambda>b. b\<lparr>BusHighSpeedStatus := st\<rparr>);
             st \<leftarrow> SdioRestoreDefaultOperatingBus H;
             orelse st again }
           else RecoverBus H st
       | None \<Rightarrow> RecoverBus H st } }"

definition VerifyOperatingBus :: "'w hw \<Rightarrow> ('w, NTSTATUS) drv" where
  "VerifyOperatingBus H = VerifyRound H (Some (VerifyRound H None))"

definition PackNvram :: "bytes \<Rightarrow> nat \<Rightarrow> bytes option" where
  "PackNvram raw rawSize = (case CywPackNvram raw rawSize (replicate (rawSize + 8) 0) (rawSize + 8) of
      Some (Some (n, out)) \<Rightarrow> Some (take n out)
    | _ \<Rightarrow> None)"

text \<open>The body from \<open>CywReadFirmwareFile\<close> to the label \<open>Exit\<close>.\<close>

definition FwBody :: "'w hw \<Rightarrow> 'w files \<Rightarrow> ('w, NTSTATUS) drv" where
  "FwBody H F = do {
     (st, fwSize, fw) \<leftarrow> CywReadFirmwareFile F 0 (1024 * 1024);
     orelse st (do {
     fwS (\<lambda>f. f\<lparr>FirmwareTotalBytes := word_of_nat fwSize\<rparr>);
     (st, rawSize, raw) \<leftarrow> CywReadFirmwareFile F 1 16384;
     orelse st (
     if fwSize < 4 then ret STATUS_INVALID_IMAGE_FORMAT else do {
     ok \<leftarrow> world (fs_alloc F (rawSize + 8));
     if \<not> ok then ret STATUS_INSUFFICIENT_RESOURCES else
     case PackNvram raw rawSize of
       None \<Rightarrow> ret STATUS_INVALID_IMAGE_FORMAT
     | Some nv \<Rightarrow> do {
         st \<leftarrow> FwQuiesce H;
         orelse st (do {
         st \<leftarrow> FwHalt H;
         orelse st (do {
         size' \<leftarrow> asks (\<lambda>a. unat (RamSize (AChip a)));
         if size' > 4 * 1024 * 1024 \<or> length nv + 4 > size' \<or> length fw > size' - length nv - 4
         then ret STATUS_INVALID_IMAGE_FORMAT
         else do {
           st \<leftarrow> FwUpload H fw fwSize;
           orelse st (do {
           st \<leftarrow> FwBoot H fw nv;
           orelse st (VerifyOperatingBus H) }) } }) }) } }) }) }"

definition CywFirmwareStart :: "'w hw \<Rightarrow> 'w files \<Rightarrow> ('w, NTSTATUS) drv" where
  "CywFirmwareStart H F = do {
     bpS (\<lambda>b. b\<lparr>BpWindowValid := False\<rparr>);
     a \<leftarrow> asks (\<lambda>a. a);
     if ChipId (AChip a) \<noteq> 0x4345 \<or> ChipRevision (AChip a) \<noteq> 6 \<or> \<not> CoreInventoryComplete (ACard a) \<or>
        SdioFunctions (ACard a) < 2 \<or> Cr4WrapperBase (AChip a) = 0 then ret STATUS_DEVICE_CONFIGURATION_ERROR
     else do {
       fwS (\<lambda>f. f\<lparr>FwNetworkStatus := STATUS_SUCCESS, FirmwareBytes := 0, FirmwareTotalBytes := 0, FirmwareUploadedBytes := 0,
         FirmwareNextSnapshot := 0, RamTransferStatus := STATUS_SUCCESS, RamTransferStage := 0, RamTransferAddress := 0,
         RamTransferLength := 0, RamTransferWrite := False\<rparr>);
       CywFirmwarePhase H 400;
       st \<leftarrow> FwBody H F;
       fwS (\<lambda>f. f\<lparr>FwNetworkStatus := st\<rparr>);
       CywFirmwareSnapshot H True;
       ret st } }"

definition CywFirmwareStop :: "'w hw \<Rightarrow> ('w, unit) drv" where
  "CywFirmwareStop H = do {
     bpS (\<lambda>b. b\<lparr>BpWindowValid := False\<rparr>);
     stop \<leftarrow> IoStopped H;
     a \<leftarrow> asks (\<lambda>a. a);
     if stop \<or> \<not> NT_SUCCESS (BusRecoveryStatus (ABus a)) then ret ()
     else do {
       (if FwNetworkPhase (AFw a) \<ge> 410 then do {
          CywBpWrite H (SdioCoreBase (AChip a) + 0x24) 0;
          CywCr4Reset H 0 0x20 0x20;
          CywD11Hold H;
          ret () }
        else ret ());
       (st, v) \<leftarrow> SdioCmd52Read H 0 2;
       (if NT_SUCCESS st then do { SdioCmd52Write H 0 2 (v AND NOT 6) 0; ret () } else ret ());
       bpS (\<lambda>b. b\<lparr>BpWindowValid := False\<rparr>) } }"

end
