(* ===== verification/Rx_Glom.thy ===== *)
theory Rx_Glom
  imports Wire_Protocol
begin

text \<open>
  Receive aggregation, \<open>src/src/cyw43455/rx_performance.h\<close>: read-ahead hints, the glom
  descriptor that announces the sub-frame lengths of a superframe, and the validation
  of the complete superframe before its first child is delivered.
\<close>

abbreviation "CYW_WIRE_CAPACITY \<equiv> (65536 :: nat)"
abbreviation "CYW_CONTROL_CAPACITY \<equiv> (8192 :: nat)"
abbreviation "CYW_RX_GLOM_MAX \<equiv> (32 :: nat)"
abbreviation "CYW_RX_FRAME_MAX \<equiv> (2048 :: nat)"

record CYW_RX_GLOM =
  GlCount :: nat
  GlIndex :: nat
  GlBytes :: nat
  GlDescriptorBytes :: nat
  GlNextLength :: nat
  GlPending :: bool
  GlSlot :: "nat list"
  GlStart :: "nat list"
  GlEnd :: "nat list"
  GlPayload :: "nat list"

definition zero_glom :: CYW_RX_GLOM where
  "zero_glom = \<lparr> GlCount = 0, GlIndex = 0, GlBytes = 0, GlDescriptorBytes = 0, GlNextLength = 0,
     GlPending = False, GlSlot = replicate 32 0, GlStart = replicate 32 0, GlEnd = replicate 32 0,
     GlPayload = replicate 32 0 \<rparr>"

definition CywRxNextLength :: "bytes \<Rightarrow> nat \<Rightarrow> nat option" where
  "CywRxNextLength b off = do {
     h6 \<leftarrow> rd8 b (off + 6);
     let n = unat h6 * 16 in
     Some (if n \<ge> 64 \<and> n \<le> CYW_RX_FRAME_MAX then n else 0) }"

definition CywRxReadAheadValid :: "bytes \<Rightarrow> nat \<Rightarrow> nat \<Rightarrow> nat \<Rightarrow> bool option" where
  "CywRxReadAheadValid b off hint len = do {
     h5 \<leftarrow> rd8 b (off + 5);
     Some (hint \<ge> 64 \<and> hint \<le> CYW_RX_FRAME_MAX \<and> hint mod 16 = 0 \<and>
           len \<ge> 12 \<and> (len + 15) div 16 * 16 = hint \<and> h5 AND 15 \<noteq> 0) }"

function GlomDescriptorLoop :: "CYW_RX_GLOM \<Rightarrow> bytes \<Rightarrow> nat \<Rightarrow> nat \<Rightarrow> nat \<Rightarrow> nat \<Rightarrow>
    (CYW_RX_GLOM \<times> nat option) option" where
  "GlomDescriptorLoop g b off n i tot =
    (if i < n then do {
       w \<leftarrow> CywLe16 b (off + 2 * i);
       room \<leftarrow> csub CYW_WIRE_CAPACITY tot;
       if unat w < (if i \<noteq> 0 then 12 else 24) \<or> unat w mod 4 \<noteq> 0 \<or> unat w > room
       then Some (g, None)
       else GlomDescriptorLoop (g\<lparr>GlSlot := (GlSlot g)[i := unat w]\<rparr>) b off n (i + 1)
              (tot + unat w) }
     else Some (g, Some tot))"
  by pat_completeness auto
termination
  by (relation "measure (\<lambda>(g, b, off, n, i, tot). n - i)") auto

declare GlomDescriptorLoop.simps [simp del]

definition CywRxGlomDescriptor :: "CYW_RX_GLOM \<Rightarrow> bytes \<Rightarrow> nat \<Rightarrow> nat \<Rightarrow> (bool \<times> CYW_RX_GLOM) option" where
  "CywRxGlomDescriptor g b off bytes' =
    (let g = g\<lparr>GlCount := 0, GlIndex := 0, GlPending := False\<rparr> in
     if bytes' = 0 \<or> odd bytes' \<or> bytes' > CYW_RX_GLOM_MAX * 2 then Some (False, g) else do {
       r \<leftarrow> GlomDescriptorLoop g b off (bytes' div 2) 0 0;
       Some (case r of
          (g, None) \<Rightarrow> (False, g)
        | (g, Some tot) \<Rightarrow>
            let g = g\<lparr>GlBytes := (tot + 511) div 512 * 512\<rparr> in
            if GlBytes g > CYW_WIRE_CAPACITY then (False, g)
            else (True, g\<lparr>GlDescriptorBytes := tot, GlCount := bytes' div 2, GlPending := True\<rparr>)) })"

function GlomValidateLoop :: "CYW_RX_GLOM \<Rightarrow> bytes \<Rightarrow> nat \<Rightarrow> nat \<Rightarrow> nat \<Rightarrow> nat \<Rightarrow>
    (CYW_RX_GLOM \<times> nat option) option" where
  "GlomValidateLoop g data bytes' off i pos =
    (if i < GlCount g then do {
       extra \<leftarrow> csub bytes' (GlDescriptorBytes g);
       rest \<leftarrow> csub bytes' pos;
       let slot = GlSlot g ! i + (if i + 1 = GlCount g then extra else 0);
           skip = (if i \<noteq> 0 then 0 else off);
           base = pos + skip in
       if slot > rest then Some (g, None) else do {
         available \<leftarrow> csub slot skip;
         h \<leftarrow> CywSdpcmHeader data base available;
         case h of
           None \<Rightarrow> Some (g, None)
         | Some (n, off') \<Rightarrow> do {
             b5 \<leftarrow> rd8 data (base + 5);
             if n > available \<or> n > CYW_RX_FRAME_MAX \<or> b5 AND 0x80 \<noteq> 0 \<or>
                (b5 AND 15 \<noteq> 1 \<and> b5 AND 15 \<noteq> 2)
             then Some (g, None)
             else GlomValidateLoop
                    (g\<lparr>GlStart := (GlStart g)[i := base], GlEnd := (GlEnd g)[i := base + n],
                       GlPayload := (GlPayload g)[i := base + off']\<rparr>)
                    data bytes' off (i + 1) (pos + slot) } } }
     else Some (g, Some pos))"
  by pat_completeness auto
termination
  by (relation "measure (\<lambda>(g, d, bs, off, i, pos). GlCount g - i)") auto

declare GlomValidateLoop.simps [simp del]

definition CywRxGlomValidate :: "CYW_RX_GLOM \<Rightarrow> bytes \<Rightarrow> nat \<Rightarrow> (bool \<times> CYW_RX_GLOM) option" where
  "CywRxGlomValidate g data bytes' =
    (if \<not> GlPending g \<or> GlCount g = 0 \<or> GlCount g > CYW_RX_GLOM_MAX \<or>
        bytes' \<noteq> GlBytes g \<or> bytes' > CYW_WIRE_CAPACITY then Some (False, g) else do {
       h \<leftarrow> CywSdpcmHeader data 0 bytes';
       case h of
         None \<Rightarrow> Some (False, g)
       | Some (len, off) \<Rightarrow> do {
           b5 \<leftarrow> rd8 data 5;
           lim \<leftarrow> csub (GlSlot g ! 0) 12;
           if b5 AND 0x8f \<noteq> 3 \<or> (len + 511) div 512 * 512 \<noteq> bytes' \<or> off > lim
           then Some (False, g)
           else do {
             r \<leftarrow> GlomValidateLoop g data bytes' off 0 0;
             case r of
               (g, None) \<Rightarrow> Some (False, g)
             | (g, Some pos) \<Rightarrow>
                 if pos \<noteq> bytes' then Some (False, g) else do {
                   nl \<leftarrow> CywRxNextLength data 0;
                   Some (True, g\<lparr>GlNextLength := nl, GlIndex := 0, GlPending := False\<rparr>) } } } })"

section \<open>Descriptors\<close>

text \<open>What a pending descriptor promises.\<close>

definition glom_arrays :: "CYW_RX_GLOM \<Rightarrow> bool" where
  "glom_arrays g \<longleftrightarrow> length (GlSlot g) = 32 \<and> length (GlStart g) = 32 \<and>
     length (GlEnd g) = 32 \<and> length (GlPayload g) = 32"

definition glom_pending_ok :: "CYW_RX_GLOM \<Rightarrow> bool" where
  "glom_pending_ok g \<longleftrightarrow> glom_arrays g \<and> 1 \<le> GlCount g \<and> GlCount g \<le> CYW_RX_GLOM_MAX \<and> GlPending g \<and>
     24 \<le> GlSlot g ! 0 \<and> (\<forall>i < GlCount g. 12 \<le> GlSlot g ! i \<and> GlSlot g ! i mod 4 = 0) \<and>
     sum_list (take (GlCount g) (GlSlot g)) = GlDescriptorBytes g \<and>
     GlBytes g = (GlDescriptorBytes g + 511) div 512 * 512 \<and> GlBytes g \<le> CYW_WIRE_CAPACITY"

lemma GlomDescriptorLoop_spec:
  assumes "glom_arrays g" "n \<le> 32" "off + 2 * n \<le> length b" "i \<le> n" "tot \<le> CYW_WIRE_CAPACITY"
    and "sum_list (take i (GlSlot g)) = tot"
    and "\<forall>j < i. 12 \<le> GlSlot g ! j \<and> GlSlot g ! j mod 4 = 0" "0 < i \<longrightarrow> 24 \<le> GlSlot g ! 0"
  shows "\<exists>g' r. GlomDescriptorLoop g b off n i tot = Some (g', r) \<and> glom_arrays g' \<and>
    GlCount g' = GlCount g \<and> GlPending g' = GlPending g \<and> (\<forall>t. r = Some t \<longrightarrow> sum_list (take n (GlSlot g')) = t \<and> t \<le> CYW_WIRE_CAPACITY \<and>
       (\<forall>j < n. 12 \<le> GlSlot g' ! j \<and> GlSlot g' ! j mod 4 = 0) \<and> (0 < n \<longrightarrow> 24 \<le> GlSlot g' ! 0))"
  using assms
proof (induction "n - i" arbitrary: g i tot)
  case 0
  then show ?case by (subst GlomDescriptorLoop.simps) auto
next
  case (Suc m)
  then have i: "i < n" by simp
  define w where "w = unat (le16 (b ! (off + 2 * i)) (b ! (off + 2 * i + 1)))"
  define g1 where "g1 = g\<lparr>GlSlot := (GlSlot g)[i := w]\<rparr>"
  have eq: "GlomDescriptorLoop g b off n i tot =
      (if w < (if i \<noteq> 0 then 12 else 24) \<or> w mod 4 \<noteq> 0 \<or> w > CYW_WIRE_CAPACITY - tot then Some (g, None)
       else GlomDescriptorLoop g1 b off n (i + 1) (tot + w))"
    using i Suc.prems by (subst GlomDescriptorLoop.simps) (simp add: wire_simps w_def g1_def)
  show ?case
  proof (cases "w < (if i \<noteq> 0 then 12 else 24) \<or> w mod 4 \<noteq> 0 \<or> w > CYW_WIRE_CAPACITY - tot")
    case True
    with eq Suc.prems show ?thesis by auto
  next
    case False
    have "take (i + 1) (GlSlot g1) = take i (GlSlot g) @ [w]"
      using i Suc.prems by (simp add: g1_def take_Suc_conv_app_nth glom_arrays_def)
    then have "sum_list (take (i + 1) (GlSlot g1)) = tot + w"
      using Suc.prems by simp
    moreover have "\<forall>j < i + 1. 12 \<le> GlSlot g1 ! j \<and> GlSlot g1 ! j mod 4 = 0"
      using Suc.prems i False by (auto simp: g1_def nth_list_update glom_arrays_def less_Suc_eq split: if_splits)
    moreover have "24 \<le> GlSlot g1 ! 0"
      using Suc.prems i False by (auto simp: g1_def nth_list_update glom_arrays_def split: if_splits)
    moreover have "glom_arrays g1"
      using Suc.prems by (simp add: g1_def glom_arrays_def)
    ultimately show ?thesis
      using Suc.hyps(1) [of "i + 1" g1 "tot + w"] Suc.hyps(2) Suc.prems i False eq
      by (auto simp: g1_def)
  qed
qed

lemma CywRxGlomDescriptor_spec:
  assumes "glom_arrays g" "off + bytes' \<le> length b"
  shows "\<exists>ok g'. CywRxGlomDescriptor g b off bytes' = Some (ok, g') \<and> glom_arrays g' \<and>
    (ok \<longrightarrow> glom_pending_ok g') \<and> (\<not> ok \<longrightarrow> GlCount g' = 0 \<and> \<not> GlPending g')"
proof (cases "bytes' = 0 \<or> odd bytes' \<or> bytes' > CYW_RX_GLOM_MAX * 2")
  case True
  with assms show ?thesis by (auto simp: CywRxGlomDescriptor_def glom_arrays_def)
next
  case False
  then have even: "2 * (bytes' div 2) = bytes'" by auto
  define g0 where "g0 = g\<lparr>GlCount := 0, GlIndex := 0, GlPending := False\<rparr>"
  have "glom_arrays g0" using assms by (simp add: g0_def glom_arrays_def)
  moreover have "bytes' div 2 \<le> 32" "off + 2 * (bytes' div 2) \<le> length b"
    using assms False even by auto
  ultimately obtain g' r where l: "GlomDescriptorLoop g0 b off (bytes' div 2) 0 0 = Some (g', r)"
      "glom_arrays g'" "GlCount g' = 0" "\<not> GlPending g'"
    and t: "\<forall>t. r = Some t \<longrightarrow> sum_list (take (bytes' div 2) (GlSlot g')) = t \<and>
       t \<le> CYW_WIRE_CAPACITY \<and> (\<forall>j < bytes' div 2. 12 \<le> GlSlot g' ! j \<and> GlSlot g' ! j mod 4 = 0) \<and>
       (0 < bytes' div 2 \<longrightarrow> 24 \<le> GlSlot g' ! 0)"
    using GlomDescriptorLoop_spec [of g0 "bytes' div 2" off b 0 0] by (auto simp: g0_def)
  show ?thesis
  proof (cases r)
    case None
    with False l show ?thesis
      by (auto simp: CywRxGlomDescriptor_def Let_def g0_def [symmetric])
  next
    case (Some tot)
    have pos: "1 \<le> bytes' div 2" "bytes' div 2 \<le> 32"
      using False even by auto
    with False l t Some show ?thesis
      by (auto simp: CywRxGlomDescriptor_def Let_def g0_def [symmetric] glom_arrays_def glom_pending_ok_def)
  qed
qed

section \<open>Superframes\<close>

text \<open>The first \<open>n\<close> children lie one after the other below \<open>limit\<close>.\<close>

definition glom_children_ok :: "CYW_RX_GLOM \<Rightarrow> bytes \<Rightarrow> nat \<Rightarrow> nat \<Rightarrow> bool" where
  "glom_children_ok g data n limit \<longleftrightarrow> (\<forall>j < n.
     GlStart g ! j + 12 \<le> GlPayload g ! j \<and> GlPayload g ! j \<le> GlEnd g ! j \<and>
     GlEnd g ! j \<le> limit \<and> GlEnd g ! j - GlStart g ! j \<le> CYW_RX_FRAME_MAX \<and>
     data ! (GlStart g ! j + 5) AND 15 \<in> {1, 2} \<and>
     (j + 1 < n \<longrightarrow> GlEnd g ! j \<le> GlStart g ! (j + 1)))"

lemma glom_children_ok_snoc:
  assumes "glom_children_ok g data i pos" "glom_arrays g" "i < 32" "pos \<le> base"
    and "12 \<le> off'" "off' \<le> n" "n \<le> CYW_RX_FRAME_MAX" "base + n \<le> limit"
    and "data ! (base + 5) AND 15 \<in> {1, 2}"
  shows "glom_children_ok (g\<lparr>GlStart := (GlStart g)[i := base], GlEnd := (GlEnd g)[i := base + n],
    GlPayload := (GlPayload g)[i := base + off']\<rparr>) data (i + 1) limit"
proof -
  have old: "GlStart g ! j + 12 \<le> GlPayload g ! j" "GlPayload g ! j \<le> GlEnd g ! j"
      "GlEnd g ! j \<le> base" "GlEnd g ! j \<le> limit" "GlEnd g ! j - GlStart g ! j \<le> CYW_RX_FRAME_MAX"
      "data ! (GlStart g ! j + 5) AND 15 \<in> {1, 2}"
      "j + 1 < i \<Longrightarrow> GlEnd g ! j \<le> GlStart g ! (j + 1)" if "j < i" for j
    using assms(1) that assms(4,8) unfolding glom_children_ok_def by fastforce+
  show ?thesis
    using old assms(2-) unfolding glom_children_ok_def glom_arrays_def
    by (auto simp: nth_list_update less_Suc_eq)
qed

lemma sum_list_take_Suc: "i < length xs \<Longrightarrow> sum_list (take (Suc i) xs) = sum_list (take i xs) + (xs ! i :: nat)"
  by (simp add: take_Suc_conv_app_nth)

lemma sum_list_take_le: "i \<le> n \<Longrightarrow> sum_list (take i xs) \<le> sum_list (take n (xs :: nat list))"
  by (metis min.absorb1 take_take sum_list_append append_take_drop_id le_add1)

lemma GlomValidateLoop_spec:
  assumes "glom_arrays g" "GlCount g \<le> 32" "bytes' \<le> length data" "i \<le> GlCount g"
    and "GlDescriptorBytes g \<le> bytes'" "sum_list (take (GlCount g) (GlSlot g)) = GlDescriptorBytes g"
    and "pos = (if i = GlCount g \<and> 0 < i then bytes' else sum_list (take i (GlSlot g)))"
    and "off + 12 \<le> GlSlot g ! 0" "glom_children_ok g data i pos"
  shows "\<exists>g' r. GlomValidateLoop g data bytes' off i pos = Some (g', r) \<and> glom_arrays g' \<and>
    GlCount g' = GlCount g \<and>
    (\<forall>p. r = Some p \<longrightarrow> glom_children_ok g' data (GlCount g) p \<and> p \<le> bytes')"
  using assms
proof (induction "GlCount g - i" arbitrary: g i pos)
  case 0
  then show ?case by (subst GlomValidateLoop.simps) (auto split: if_splits)
next
  case (Suc m)
  then have i: "i < GlCount g" by simp
  define slot where "slot = GlSlot g ! i + (if Suc i = GlCount g then bytes' - GlDescriptorBytes g else 0)"
  define skip where "skip = (if 0 < i then 0 else off)"
  have pos: "pos = sum_list (take i (GlSlot g))" using i Suc.prems by simp
  have sum: "sum_list (take (Suc i) (GlSlot g)) = pos + GlSlot g ! i"
    using i Suc.prems by (simp add: pos sum_list_take_Suc glom_arrays_def)
  have le: "pos + GlSlot g ! i \<le> GlDescriptorBytes g"
    using sum_list_take_le [of "Suc i" "GlCount g" "GlSlot g"] i Suc.prems sum by simp
  have slot_le: "pos + slot \<le> bytes'" "skip \<le> slot" and next_pos:
      "pos + slot = (if i + 1 = GlCount g \<and> 0 < i + 1 then bytes' else sum_list (take (i + 1) (GlSlot g)))"
    using le sum Suc.prems i by (auto simp: slot_def skip_def)
  have c: "csub bytes' (GlDescriptorBytes g) = Some (bytes' - GlDescriptorBytes g)"
    "csub bytes' pos = Some (bytes' - pos)" "csub slot skip = Some (slot - skip)"
    using slot_le Suc.prems by (auto simp: csub_def)
  have ns: "\<not> bytes' - pos < slot" using slot_le by simp
  obtain h where h: "CywSdpcmHeader data (pos + skip) (slot - skip) = Some h"
    using CywSdpcmHeader_safe [of "pos + skip" "slot - skip" data] slot_le Suc.prems by auto
  show ?case
  proof (cases h)
    case None
    have "GlomValidateLoop g data bytes' off i pos = Some (g, None)"
      using i slot_le
      by (subst GlomValidateLoop.simps)
        (simp add: c h None ns Let_def slot_def [symmetric] skip_def [symmetric] split del: if_split)
    with Suc.prems show ?thesis by auto
  next
    case (Some no)
    obtain n off' where no: "no = (n, off')" by (cases no)
    have hb: "12 \<le> slot - skip" "12 \<le> off'" "off' \<le> n"
      using CywSdpcmHeader_bounds [of data "pos + skip" "slot - skip" n off'] h Some no by auto
    have r5: "rd8 data (pos + skip + 5) = Some (data ! (pos + skip + 5))"
      using hb slot_le Suc.prems by (auto simp: rd8_def)
    define b5 where "b5 = data ! (pos + skip + 5)"
    define g1 where "g1 = g\<lparr>GlStart := (GlStart g)[i := pos + skip], GlEnd := (GlEnd g)[i := pos + skip + n],
       GlPayload := (GlPayload g)[i := pos + skip + off']\<rparr>"
    have eq: "GlomValidateLoop g data bytes' off i pos =
       (if n > slot - skip \<or> n > CYW_RX_FRAME_MAX \<or> b5 AND 0x80 \<noteq> 0 \<or> (b5 AND 15 \<noteq> 1 \<and> b5 AND 15 \<noteq> 2)
        then Some (g, None) else GlomValidateLoop g1 data bytes' off (i + 1) (pos + slot))"
      using i slot_le
      by (subst GlomValidateLoop.simps)
        (simp add: c h Some no r5 ns Let_def slot_def [symmetric] skip_def [symmetric] g1_def b5_def
          split del: if_split cong del: if_weak_cong)
    show ?thesis
    proof (cases "n > slot - skip \<or> n > CYW_RX_FRAME_MAX \<or> b5 AND 0x80 \<noteq> 0 \<or> (b5 AND 15 \<noteq> 1 \<and> b5 AND 15 \<noteq> 2)")
      case True
      with eq Suc.prems show ?thesis by auto
    next
      case False
      have "glom_children_ok g1 data (i + 1) (pos + slot)"
        unfolding g1_def
        by (rule glom_children_ok_snoc [where pos = pos])
          (use Suc.prems i hb False slot_le in \<open>auto simp: b5_def\<close>)
      moreover have "glom_arrays g1" using Suc.prems by (simp add: g1_def glom_arrays_def)
      ultimately show ?thesis
        using Suc.hyps(1) [of g1 "i + 1" "pos + slot"] Suc.hyps(2) Suc.prems i eq False next_pos
        by (auto simp: g1_def)
    qed
  qed
qed

lemma CywRxGlomValidate_spec:
  assumes "glom_pending_ok g" "bytes' \<le> length data"
  shows "\<exists>ok g'. CywRxGlomValidate g data bytes' = Some (ok, g') \<and> glom_arrays g' \<and>
    (ok \<longrightarrow> GlCount g' = GlCount g \<and> GlIndex g' = 0 \<and> \<not> GlPending g' \<and>
       glom_children_ok g' data (GlCount g') bytes')"
proof (cases "bytes' = GlBytes g")
  case False
  then show ?thesis using assms by (auto simp: CywRxGlomValidate_def glom_pending_ok_def)
next
  case True
  have wf: "glom_arrays g" "1 \<le> GlCount g" "GlCount g \<le> 32" "24 \<le> GlSlot g ! 0" "GlPending g"
    "sum_list (take (GlCount g) (GlSlot g)) = GlDescriptorBytes g" "GlBytes g \<le> CYW_WIRE_CAPACITY"
    using assms by (auto simp: glom_pending_ok_def)
  have db: "GlDescriptorBytes g \<le> bytes'" using assms True by (simp add: glom_pending_ok_def)
  obtain h where h: "CywSdpcmHeader data 0 bytes' = Some h"
    using CywSdpcmHeader_safe [of 0 bytes' data] assms by auto
  show ?thesis
  proof (cases h)
    case None
    with wf True h show ?thesis by (auto simp: CywRxGlomValidate_def)
  next
    case (Some lo)
    obtain len off where lo: "lo = (len, off)" by (cases lo)
    have "12 \<le> bytes'"
      using CywSdpcmHeader_bounds [of data 0 bytes' len off] h Some lo by simp
    then have r: "rd8 data 5 = Some (data ! 5)" "rd8 data 6 = Some (data ! 6)"
      "csub (GlSlot g ! 0) 12 = Some (GlSlot g ! 0 - 12)"
      using assms wf by (auto simp: rd8_def csub_def)
    show ?thesis
    proof (cases "data ! 5 AND 0x8f \<noteq> 3 \<or> (len + 511) div 512 * 512 \<noteq> bytes' \<or> off > GlSlot g ! 0 - 12")
      case True
      with wf \<open>bytes' = GlBytes g\<close> h Some lo show ?thesis
        by (auto simp: CywRxGlomValidate_def r)
    next
      case False
      have "off + 12 \<le> GlSlot g ! 0" "glom_children_ok g data 0 0"
        using False wf by (auto simp: glom_children_ok_def)
      then obtain g' q where v: "GlomValidateLoop g data bytes' off 0 0 = Some (g', q)" "glom_arrays g'"
        "GlCount g' = GlCount g" "\<forall>p. q = Some p \<longrightarrow> glom_children_ok g' data (GlCount g) p \<and> p \<le> bytes'"
        using GlomValidateLoop_spec [of g bytes' data 0 0 off] wf db assms by auto
      have eq: "CywRxGlomValidate g data bytes' = (case q of
            None \<Rightarrow> Some (False, g')
          | Some p \<Rightarrow> if p \<noteq> bytes' then Some (False, g') else do {
              nl \<leftarrow> CywRxNextLength data 0;
              Some (True, g'\<lparr>GlNextLength := nl, GlIndex := 0, GlPending := False\<rparr>) })"
        using wf True False h Some lo by (simp add: CywRxGlomValidate_def r v(1) [unfolded True] split: option.split)
      then show ?thesis
        using v wf by (cases q) (auto simp: CywRxNextLength_def r glom_arrays_def glom_children_ok_def Let_def)
    qed
  qed
qed

text \<open>
  C10 (safety).  A glom descriptor and the superframe it announces are decoded without reading
  outside of the received bytes.  If the superframe is accepted, its children are
  1 to 32 frames of channel 1 or 2 that lie one after the other, without overlap, inside
  of the superframe, each with a payload inside of its own bounds and at most 2048 bytes.
\<close>

theorem glom_superframe_safe:
  assumes "glom_arrays g" and "off + n \<le> length b"
  shows "\<exists>ok g'. CywRxGlomDescriptor g b off n = Some (ok, g') \<and>
    (ok \<longrightarrow> GlBytes g' \<le> length data \<longrightarrow>
      (\<exists>valid g''. CywRxGlomValidate g' data (GlBytes g') = Some (valid, g'') \<and>
        (valid \<longrightarrow> 1 \<le> GlCount g'' \<and> GlCount g'' \<le> 32 \<and>
           glom_children_ok g'' data (GlCount g'') (GlBytes g'))))"
proof -
  obtain ok g' where d: "CywRxGlomDescriptor g b off n = Some (ok, g')" "ok \<longrightarrow> glom_pending_ok g'"
    using CywRxGlomDescriptor_spec [OF assms] by blast
  have "\<exists>valid g''. CywRxGlomValidate g' data (GlBytes g') = Some (valid, g'') \<and>
      (valid \<longrightarrow> 1 \<le> GlCount g'' \<and> GlCount g'' \<le> 32 \<and> glom_children_ok g'' data (GlCount g'') (GlBytes g'))"
    if wf: "glom_pending_ok g'" and len: "GlBytes g' \<le> length data"
  proof -
    have "1 \<le> GlCount g'" "GlCount g' \<le> 32" using wf by (auto simp: glom_pending_ok_def)
    then show ?thesis using CywRxGlomValidate_spec [OF wf len] by metis
  qed
  with d show ?thesis by blast
qed

definition sample_superframe :: bytes where
  "sample_superframe = [24, 0, 231, 255, 0, 3, 0, 12, 0, 0, 0, 0,
     16, 0, 239, 255, 0, 2, 0, 12, 0, 0, 0, 0] @ replicate 488 0"

theorem glom_superframe_safe_witness:
  "\<exists>g' g''. CywRxGlomDescriptor zero_glom [24, 0] 0 2 = Some (True, g') \<and> GlBytes g' = 512 \<and>
     CywRxGlomValidate g' sample_superframe 512 = Some (True, g'') \<and>
     glom_children_ok g'' sample_superframe (GlCount g'') 512"
proof -
  have d: "CywRxGlomDescriptor zero_glom [24, 0] 0 2 = Some (True, zero_glom\<lparr>GlSlot := (replicate 32 0)[0 := 24],
      GlBytes := 512, GlDescriptorBytes := 24, GlCount := 1, GlPending := True\<rparr>)" (is "_ = Some (True, ?g)")
    by (simp add: CywRxGlomDescriptor_def GlomDescriptorLoop.simps zero_glom_def CywLe16_def rd8_def le16_def
        csub_def Let_def)
  have v: "map_option fst (CywRxGlomValidate ?g sample_superframe 512) = Some True"
    by (simp add: CywRxGlomValidate_def GlomValidateLoop.simps zero_glom_def CywLe16_def rd8_def le16_def
        csub_def Let_def sample_superframe_def CywSdpcmHeader_def CywRxNextLength_def)
  have "glom_arrays zero_glom" by (simp add: glom_arrays_def zero_glom_def)
  from glom_superframe_safe [OF this, of 0 2 "[24, 0]" sample_superframe] d v show ?thesis
    by (auto simp: sample_superframe_def)
qed

end
