(* ===== verification/Control_Plane.thy ===== *)
theory Control_Plane
  imports Wire_Protocol Scan_Protocol
begin

text \<open>
  The control plane: link state, firmware events, user requests and the scan life cycle
  (\<open>cyw43455/network.c\<close>, \<open>scan_control.h\<close>, \<open>scan_sequence.h\<close>, \<open>stability_diag.h\<close>).

  The record \<open>net\<close> holds the fields of \<open>CYW_NETWORK\<close> and of the adapter that these functions share.
  Every function is one transition of it; a spin-lock region is one atomic transition.  The clock
  \<open>KeQueryInterruptTime()\<close> is the argument \<open>now\<close>.  Link indications to NDIS and wake-ups of the worker are
  recorded in \<open>NIndicated\<close> (most recent first) and \<open>NWake\<close>.  Steps of the worker that talk to the firmware
  appear with the status the firmware command returned as an argument.
\<close>

datatype media_state = MediaUnknown | MediaConnected | MediaDisconnected

record stab =
  SbDisconnectCount :: u32
  SbLastSource :: u32
  SbLastEvent :: u32
  SbLastStatus :: u32
  SbLastReason :: u32
  SbLastPhase :: u32
  SbLastPower :: u32
  SbLast100ns :: u64
  SbFwCount :: u32
  SbFwDeauth :: u32
  SbFwDisassoc :: u32
  SbFwLinkDown :: u32
  SbFwAuthLoss :: u32
  SbFwOther :: u32
  SbExplicit :: u32
  SbPowerState :: u32

record net =
  NStop :: bool
  NPaused :: bool
  NReady :: bool
  NAssociated :: bool
  NAuthorized :: bool
  NPublished :: bool
  NSelectingBand :: bool
  NPowered :: bool
  NRadioBusy :: bool
  NRequest :: u32
  NScanReport :: CYW_SCAN_REPORT
  NScanCountry :: "u8 \<times> u8"
  NScanBusy :: bool
  NControlBusy :: bool
  NScanComplete :: bool
  NScanAcceptEvents :: bool
  NScanSyncId :: nat
  NScanCancel :: bool
  NScanEventStatus :: u32
  NConnect :: CYW_CONNECT_REQUEST
  NWake :: bool
  NGate :: ndis_status
  NIndicated :: "bool list"
  AIoStopped :: bool
  ANdisPaused :: bool
  ANetworkPhase :: u32
  ANetworkStatus :: NTSTATUS
  AMedia :: media_state
  ALinkEvent :: u32
  ALinkReason :: u32
  ABandStage :: u32
  AStab :: stab

section \<open>Classification of firmware events\<close>

definition CywFirmwarePskProgress :: "u32 \<Rightarrow> u32 \<Rightarrow> bool" where
  "CywFirmwarePskProgress status reason \<longleftrightarrow>
     (if reason \<noteq> 0 then False
      else status = 4 \<or> status = 5 \<or> status = 8 \<or> status = 9 \<or> status = 10 \<or> status = 11)"

definition CywFirmwareDisconnectClass :: "u32 \<Rightarrow> u32 \<Rightarrow> u8 \<Rightarrow> u32 \<Rightarrow> u32" where
  "CywFirmwareDisconnectClass type status flags reason =
    (if type = 5 \<or> type = 6 then 1
     else if type = 11 \<or> type = 12 then 2
     else if type = 16 \<and> (flags AND 1 = 0 \<or> status \<noteq> 0) then 3
     else if type = 46 \<and> (status \<noteq> 6 \<or> reason \<noteq> 0) \<and> \<not> CywFirmwarePskProgress status reason then 4
     else if type = 0 \<and> status \<noteq> 0 then 5
     else 0)"

definition CywNetworkCancelled :: "net \<Rightarrow> bool" where
  "CywNetworkCancelled N \<longleftrightarrow> AIoStopped N \<or> NStop N"

definition CywConnectionWasUp :: "net \<Rightarrow> bool" where
  "CywConnectionWasUp N \<longleftrightarrow> AMedia N = MediaConnected \<or> NAssociated N \<and> NAuthorized N"

definition CywRecordDisconnect :: "u64 \<Rightarrow> u32 \<Rightarrow> u32 \<Rightarrow> u32 \<Rightarrow> u32 \<Rightarrow> net \<Rightarrow> net" where
  "CywRecordDisconnect now source event status reason N =
     N\<lparr>AStab := (AStab N)\<lparr>SbDisconnectCount := SbDisconnectCount (AStab N) + 1, SbLastSource := source,
       SbLastEvent := event, SbLastStatus := status, SbLastReason := reason, SbLastPhase := ANetworkPhase N,
       SbLastPower := SbPowerState (AStab N), SbLast100ns := now\<rparr>\<rparr>"

definition CywRecordFirmwareDisconnect :: "u64 \<Rightarrow> u32 \<Rightarrow> u32 \<Rightarrow> u32 \<Rightarrow> u32 \<Rightarrow> net \<Rightarrow> net" where
  "CywRecordFirmwareDisconnect now class' event status reason N =
    (if class' = 0 then N
     else
       let S = AStab N;
           S = S\<lparr>SbFwCount := SbFwCount S + 1\<rparr>;
           S = (if class' = 1 then S\<lparr>SbFwDeauth := SbFwDeauth S + 1\<rparr>
                else if class' = 2 then S\<lparr>SbFwDisassoc := SbFwDisassoc S + 1\<rparr>
                else if class' = 3 then S\<lparr>SbFwLinkDown := SbFwLinkDown S + 1\<rparr>
                else if class' = 4 then S\<lparr>SbFwAuthLoss := SbFwAuthLoss S + 1\<rparr>
                else S\<lparr>SbFwOther := SbFwOther S + 1\<rparr>)
       in CywRecordDisconnect now 1 event status reason (N\<lparr>AStab := S\<rparr>))"

section \<open>Transmit gate and link state\<close>

definition CywRefreshTxGate :: "net \<Rightarrow> net" where
  "CywRefreshTxGate N = N\<lparr>NGate :=
     (if AIoStopped N \<or> NStop N then NDIS_STATUS_LOW_POWER_STATE
      else if NPaused N then NDIS_STATUS_PAUSED
      else if \<not> NReady N \<or> \<not> NAssociated N \<or> \<not> NAuthorized N \<or> NSelectingBand N
      then NDIS_STATUS_MEDIA_DISCONNECTED
      else NDIS_STATUS_SUCCESS)\<rparr>"

definition CywLink :: "bool \<Rightarrow> net \<Rightarrow> net" where
  "CywLink up N =
    (let state = (if up then MediaConnected else MediaDisconnected) in
     if up \<and> NSelectingBand N then N
     else if AMedia N = state then N
     else
       let N = CywRefreshTxGate (N\<lparr>AMedia := state\<rparr>) in
       if NPublished N then N\<lparr>NIndicated := up # NIndicated N\<rparr> else N)"

section \<open>Events\<close>

definition CywScanCancelled :: "net \<Rightarrow> bool" where
  "CywScanCancelled N \<longleftrightarrow> AIoStopped N \<or> NStop N \<or> NPaused N \<or> \<not> NPowered N \<or> NScanCancel N"

definition CywScanEvent :: "u32 \<Rightarrow> bytes \<Rightarrow> nat \<Rightarrow> net \<Rightarrow> net option" where
  "CywScanEvent eventStatus payload length' N =
    (if \<not> NScanBusy N \<or> \<not> NScanAcceptEvents N \<or> NScanComplete N then Some N
     else if eventStatus = 8 then do {
       (result, entry) \<leftarrow> CywScanParsePartial payload length' (NScanSyncId N);
       if result = 0 then Some N
       else case entry of
         None \<Rightarrow> Some (N\<lparr>NScanComplete := True, NScanEventStatus := 1\<rparr>)
       | Some e \<Rightarrow> Some (N\<lparr>NScanReport := CywScanAdd (NScanReport N) e\<rparr>) }
     else if length' \<noteq> 0 then
       if length' < 12 then Some (N\<lparr>NScanComplete := True, NScanEventStatus := 1\<rparr>)
       else do {
         sync \<leftarrow> CywScanU16 payload 8;
         if sync \<noteq> NScanSyncId N then Some N
         else do {
           len \<leftarrow> CywScanU32 payload 0;
           Some (N\<lparr>NScanEventStatus := (if len < 12 \<or> len > length' then 1 else eventStatus),
                   NScanComplete := True\<rparr>) } }
     else Some (N\<lparr>NScanEventStatus := eventStatus, NScanComplete := True\<rparr>))"

text \<open>The part of \<open>CywEvent\<close> after the event was decoded.\<close>

definition CywLinkFlags :: "u32 \<Rightarrow> u32 \<Rightarrow> u8 \<Rightarrow> u32 \<Rightarrow> net \<Rightarrow> net" where
  "CywLinkFlags type status flags reason N =
    (if type = 16 then
       let a = (flags AND 1 \<noteq> 0 \<and> status = 0)
       in N\<lparr>NAssociated := a, NAuthorized := (if \<not> a then False else NAuthorized N)\<rparr>
     else if type = 46 then
       if status = 6 \<and> reason = 0 then N\<lparr>NAuthorized := True\<rparr>
       else if \<not> CywFirmwarePskProgress status reason then N\<lparr>NAuthorized := False\<rparr>
       else N
     else if type = 5 \<or> type = 6 \<or> type = 11 \<or> type = 12 \<or> (type = 0 \<and> status \<noteq> 0)
     then N\<lparr>NAssociated := False, NAuthorized := False\<rparr>
     else N)"

definition CywLinkEvent :: "u64 \<Rightarrow> u32 \<Rightarrow> u32 \<Rightarrow> u8 \<Rightarrow> u32 \<Rightarrow> net \<Rightarrow> net" where
  "CywLinkEvent now type status flags reason N =
    (if NScanBusy N then N
     else
       let was = CywConnectionWasUp N;
           class' = CywFirmwareDisconnectClass type status flags reason;
           N = CywLinkFlags type status flags reason (N\<lparr>ALinkEvent := type, ALinkReason := reason\<rparr>);
           up = (NAssociated N \<and> NAuthorized N);
           N = (if was \<and> \<not> up \<and> class' \<noteq> 0
                then CywRecordFirmwareDisconnect now class' type status reason N else N);
           N = CywLink up N
       in N\<lparr>ANetworkPhase :=
            (if NSelectingBand N then if ABandStage N = 6 \<or> ABandStage N = 8 then 510 else 520
             else if NAssociated N \<and> NAuthorized N then 600
             else if NAssociated N then 520 else 500)\<rparr>)"

definition CywEvent :: "u64 \<Rightarrow> bytes \<Rightarrow> nat \<Rightarrow> net \<Rightarrow> net option" where
  "CywEvent now p n N =
    (if n < 4 then Some N else do {
     p0 \<leftarrow> rd8 p 0;
     p2 \<leftarrow> rd8 p 2;
     p3 \<leftarrow> rd8 p 3;
     if drop_bit 4 p0 \<noteq> 2 \<or> p2 AND 15 \<noteq> 0 then Some N else
     let skip = 4 + unat p3 * 4 in
     if skip > n then Some N else do {
     left \<leftarrow> csub n skip;
     if left < 72 then Some N else do {
     t \<leftarrow> rdn p (skip + 12) 2;
     o19 \<leftarrow> rdn p (skip + 19) 5;
     if t \<noteq> [0x88, 0x6c] \<or> o19 \<noteq> [0, 0x10, 0x18, 0, 1] then Some N else do {
     datalen \<leftarrow> CywBe32 p (skip + 24 + 20);
     room \<leftarrow> csub left 72;
     if unat datalen > room then Some N else do {
     type \<leftarrow> CywBe32 p (skip + 24 + 4);
     status \<leftarrow> CywBe32 p (skip + 24 + 8);
     reason \<leftarrow> CywBe32 p (skip + 24 + 12);
     flags \<leftarrow> rd8 p (skip + 24 + 3);
     if type = 69 then do {
       payload \<leftarrow> rdn p (skip + 72) (unat datalen);
       CywScanEvent status payload (unat datalen) N }
     else Some (CywLinkEvent now type status flags reason N) }}}}})"

section \<open>Scan requests\<close>

definition zero_entry :: CYW_SCAN_ENTRY where
  "zero_entry = \<lparr>SeSsidLength = 0, SeSsid = replicate 32 0, SeBssid = replicate 6 0, SeChanspec = 0, SeRssi = 0,
     SeSecurityFlags = 0, SeControlChannel = 0\<rparr>"

definition zero_report :: CYW_SCAN_REPORT where
  "zero_report = \<lparr>SrVersion = 0, SrGeneration = 0, SrState = 0, SrStatus = 0, SrCount = 0, SrFlags = 0,
     SrCountry = 0, SrFirmwareError = 0, SrEntries = replicate CYW_SCAN_MAX_ENTRIES zero_entry\<rparr>"

definition zero_connect :: CYW_CONNECT_REQUEST where
  "zero_connect = \<lparr>CrVersion = 0, CrSsidLength = 0, CrCountry = (0, 0), CrReserved = (0, 0),
     CrSsid = replicate 32 0, CrPmk = replicate 32 0\<rparr>"

text \<open>The common part of a cancellation: a queued scan ends at once, a running one is asked to.\<close>

definition ScanCancelQueued :: "net \<Rightarrow> net" where
  "ScanCancelQueued N =
    (if NRequest N = 4 \<and> \<not> NControlBusy N
     then N\<lparr>NRequest := 0, NScanReport := (NScanReport N)\<lparr>SrState := 5, SrStatus := STATUS_CANCELLED, SrCount := 0\<rparr>,
            NScanBusy := False\<rparr>
     else N)"

datatype ioctl = IoctlConnect | IoctlStatus | IoctlDisconnect | IoctlRadioRefresh | IoctlRadioStatus
  | IoctlScanStart | IoctlScanStatus | IoctlScanCancel | IoctlOther

text \<open>
  \<open>CywScanControl\<close> returns the status, the number of output bytes and, for a status query, the
  report that was copied.
\<close>

definition ScanStartValid :: "bytes \<Rightarrow> bool option" where
  "ScanStartValid b = do {
     v \<leftarrow> CywLe32 b 0;
     c0 \<leftarrow> rd8 b 4; c1 \<leftarrow> rd8 b 5; r0 \<leftarrow> rd8 b 6; r1 \<leftarrow> rd8 b 7;
     Some (v = 1 \<and> c0 \<ge> 65 \<and> c0 \<le> 90 \<and> c1 \<ge> 65 \<and> c1 \<le> 90 \<and> r0 = 0 \<and> r1 = 0) }"

definition ScanAdmit :: "u8 \<Rightarrow> u8 \<Rightarrow> net \<Rightarrow> NTSTATUS \<times> net" where
  "ScanAdmit c0 c1 N =
    (if \<not> NReady N \<or> NStop N \<or> NPaused N \<or> AIoStopped N then (STATUS_DEVICE_NOT_READY, N)
     else if NRequest N \<noteq> 0 \<or> NControlBusy N \<or> NRadioBusy N \<or> NScanBusy N \<or> NSelectingBand N \<or>
       NAssociated N \<or> NAuthorized N \<or> ANetworkPhase N \<noteq> 500 \<or> ANetworkStatus N \<noteq> STATUS_SUCCESS
     then (STATUS_DEVICE_BUSY, N)
     else
       let g = SrGeneration (NScanReport N) + 1;
           g = (if g = 0 then 1 else g)
       in (STATUS_SUCCESS,
           N\<lparr>NScanReport := zero_report\<lparr>SrVersion := 1, SrGeneration := g, SrState := 1, SrStatus := STATUS_PENDING,
               SrCountry := ucast c0 OR push_bit 8 (ucast c1)\<rparr>,
             NScanCountry := (c0, c1), NScanComplete := False, NScanAcceptEvents := False, NScanEventStatus := 0,
             NScanCancel := False, NScanBusy := True, NRequest := 4, NWake := True\<rparr>))"

definition CywScanControl :: "ioctl \<Rightarrow> bytes \<Rightarrow> nat \<Rightarrow> nat \<Rightarrow> net \<Rightarrow>
    (NTSTATUS \<times> nat \<times> CYW_SCAN_REPORT option \<times> net) option" where
  "CywScanControl code b inLen outLen N =
    (if code = IoctlScanStatus \<and> inLen = 0 \<and> outLen \<ge> 3616
     then Some (STATUS_SUCCESS, 3616, Some (NScanReport N), N)
     else if code = IoctlScanCancel \<and> inLen = 4 then do {
       g \<leftarrow> CywLe32 b 0;
       if g = 0 \<or> g \<noteq> SrGeneration (NScanReport N) then Some (STATUS_INVALID_PARAMETER, 0, None, N)
       else Some (STATUS_SUCCESS, 0, None,
         if NScanBusy N then (ScanCancelQueued (N\<lparr>NScanCancel := True\<rparr>))\<lparr>NWake := True\<rparr> else N) }
     else if code = IoctlScanStart \<and> inLen = 8 then do {
       ok \<leftarrow> ScanStartValid b;
       if \<not> ok then Some (STATUS_INVALID_PARAMETER, 0, None, N) else do {
       c0 \<leftarrow> rd8 b 4;
       c1 \<leftarrow> rd8 b 5;
       Some (case ScanAdmit c0 c1 N of (st, N) \<Rightarrow> (st, 0, None, N)) } }
     else Some (STATUS_INVALID_PARAMETER, 0, None, N))"

definition CywScanReset :: "net \<Rightarrow> net" where
  "CywScanReset N = N\<lparr>NScanReport := zero_report\<lparr>SrVersion := 1, SrGeneration := SrGeneration (NScanReport N)\<rparr>,
     NScanBusy := False, NControlBusy := False, NScanComplete := False, NScanAcceptEvents := False,
     NScanCancel := False, NScanEventStatus := 0\<rparr>"

definition CywScanQuiesce :: "net \<Rightarrow> net" where
  "CywScanQuiesce N =
    (if NScanBusy N
     then if NRequest N = 4 \<and> \<not> NControlBusy N
          then (ScanCancelQueued (N\<lparr>NScanCancel := True\<rparr>))\<lparr>NScanAcceptEvents := False\<rparr>
          else N\<lparr>NScanCancel := True\<rparr>
     else N)"

section \<open>The control device\<close>

text \<open>The 76-byte connect request as the record of the wire protocol.\<close>

definition DecodeConnect :: "bytes \<Rightarrow> CYW_CONNECT_REQUEST option" where
  "DecodeConnect b = do {
     v \<leftarrow> CywLe32 b 0; l \<leftarrow> CywLe32 b 4;
     c0 \<leftarrow> rd8 b 8; c1 \<leftarrow> rd8 b 9; r0 \<leftarrow> rd8 b 10; r1 \<leftarrow> rd8 b 11;
     ssid \<leftarrow> rdn b 12 32; pmk \<leftarrow> rdn b 44 32;
     Some \<lparr>CrVersion = v, CrSsidLength = l, CrCountry = (c0, c1), CrReserved = (r0, r1), CrSsid = ssid, CrPmk = pmk\<rparr> }"

definition NetBusy :: "net \<Rightarrow> bool" where
  "NetBusy N \<longleftrightarrow> NRequest N \<noteq> 0 \<or> NRadioBusy N \<or> NScanBusy N"

definition NetOnline :: "net \<Rightarrow> bool" where
  "NetOnline N \<longleftrightarrow> \<not> (\<not> NReady N \<or> \<not> NAssociated N \<or> \<not> NAuthorized N \<or> NSelectingBand N \<or> NPaused N \<or> NStop N)"

definition DispatchRadioRefresh :: "net \<Rightarrow> NTSTATUS \<times> net" where
  "DispatchRadioRefresh N =
    (if \<not> NetOnline N then (STATUS_DEVICE_NOT_READY, N)
     else if NetBusy N then (STATUS_DEVICE_BUSY, N)
     else (STATUS_SUCCESS, N\<lparr>NRadioBusy := True, NRequest := 3, NWake := True\<rparr>))"

definition DispatchRequest :: "u32 \<Rightarrow> CYW_CONNECT_REQUEST \<Rightarrow> net \<Rightarrow> NTSTATUS \<times> net" where
  "DispatchRequest op r N =
    (if \<not> NReady N then (STATUS_DEVICE_NOT_READY, N)
     else if NetBusy N then (STATUS_DEVICE_BUSY, N)
     else (STATUS_SUCCESS, N\<lparr>NConnect := r, NRequest := op, NWake := True\<rparr>))"

text \<open>
  \<open>CywDispatch\<close> on a device-control request, with the adapter present: the status, the number of bytes
  returned and the new state.  The words of a status reply are read-only copies of diagnostic fields; here
  only their number matters, and for a radio report whether it is marked valid.
\<close>

definition CywDispatch :: "ioctl \<Rightarrow> bytes \<Rightarrow> nat \<Rightarrow> nat \<Rightarrow> net \<Rightarrow> (NTSTATUS \<times> nat \<times> net) option" where
  "CywDispatch code b inLen outLen N =
    (if code = IoctlScanStart \<or> code = IoctlScanStatus \<or> code = IoctlScanCancel then do {
       (st, n, _, N) \<leftarrow> CywScanControl code b inLen outLen N; Some (st, n, N) }
     else if code = IoctlStatus \<and> outLen \<ge> 32
     then Some (STATUS_SUCCESS, if outLen \<ge> 96 then 96 else if outLen \<ge> 48 then 48 else 32, N)
     else if code = IoctlRadioStatus \<and> outLen \<ge> 80
     then Some (STATUS_SUCCESS, if outLen \<ge> 256 then 256 else 80, N)
     else if code = IoctlRadioRefresh \<and> inLen = 0
     then Some (case DispatchRadioRefresh N of (st, N) \<Rightarrow> (st, 0, N))
     else if code = IoctlConnect \<and> inLen = 76 then do {
       r \<leftarrow> DecodeConnect b;
       if CywValidConnect r then Some (case DispatchRequest 1 r N of (st, N) \<Rightarrow> (st, 0, N))
       else Some (STATUS_INVALID_PARAMETER, 0, N) }
     else if code = IoctlDisconnect \<and> inLen = 0
     then Some (case DispatchRequest 2 zero_connect N of (st, N) \<Rightarrow> (st, 0, N))
     else Some (STATUS_INVALID_PARAMETER, 0, N))"

section \<open>Steps of the worker\<close>

text \<open>Pick up the queued request, and the end of its processing.\<close>

definition WorkerTake :: "net \<Rightarrow> u32 \<times> CYW_CONNECT_REQUEST \<times> net" where
  "WorkerTake N = (NRequest N, NConnect N,
     N\<lparr>NRequest := 0, NControlBusy := (NRequest N \<noteq> 0), NConnect := zero_connect\<rparr>)"

definition WorkerDone :: "net \<Rightarrow> net" where
  "WorkerDone N = N\<lparr>NControlBusy := False\<rparr>"

definition RadioPublish :: "net \<Rightarrow> net" where
  "RadioPublish N = N\<lparr>NRadioBusy := False\<rparr>"

text \<open>An explicit disconnect, after its firmware command returned \<open>st\<close>.\<close>

definition WorkerDisconnect :: "u64 \<Rightarrow> NTSTATUS \<Rightarrow> net \<Rightarrow> net" where
  "WorkerDisconnect now st N =
    (let N = N\<lparr>AStab := (AStab N)\<lparr>SbExplicit := SbExplicit (AStab N) + 1\<rparr>\<rparr>;
         N = (if CywConnectionWasUp N then CywRecordDisconnect now 2 0 0 0 N else N);
         N = CywLink False (N\<lparr>NSelectingBand := False, NAssociated := False, NAuthorized := False\<rparr>);
         N = (if NT_SUCCESS st then N\<lparr>ANetworkPhase := 500\<rparr> else N)
     in CywRefreshTxGate (N\<lparr>ANetworkStatus := st\<rparr>))"

text \<open>The beginning and the possible ends of \<open>CywConnect\<close>.\<close>

definition ConnectBegin :: "net \<Rightarrow> net" where
  "ConnectBegin N =
    (let N = CywLink False (N\<lparr>NAssociated := False, NAuthorized := False\<rparr>)
     in N\<lparr>ANetworkPhase := 510, ANetworkStatus := STATUS_SUCCESS, ABandStage := 0, NSelectingBand := True\<rparr>)"

definition ConnectFailed :: "NTSTATUS \<Rightarrow> net \<Rightarrow> net" where
  "ConnectFailed st N =
     CywLink False (N\<lparr>ABandStage := (if st = STATUS_CANCELLED then 8 else 6), NSelectingBand := True,
       NAssociated := False, NAuthorized := False\<rparr>)"

definition ConnectLegacy :: "net \<Rightarrow> net" where
  "ConnectLegacy N =
    (let N = N\<lparr>ABandStage := 7, NSelectingBand := False\<rparr>;
         N = CywLink (NAssociated N \<and> NAuthorized N) N
     in N\<lparr>ANetworkPhase := (if NAssociated N \<and> NAuthorized N then 600 else 520)\<rparr>)"

definition JoinExit :: "NTSTATUS \<Rightarrow> u32 \<Rightarrow> net \<Rightarrow> net" where
  "JoinExit st stage N =
    (let N = N\<lparr>ABandStage := stage\<rparr>;
         N = (if \<not> NT_SUCCESS st
              then N\<lparr>ABandStage := (if st = STATUS_CANCELLED then 8 else 6), NAssociated := False, NAuthorized := False\<rparr>
              else N);
         N = N\<lparr>NSelectingBand := \<not> NT_SUCCESS st\<rparr>;
         N = CywLink (NT_SUCCESS st \<and> NAssociated N \<and> NAuthorized N) N
     in N\<lparr>ANetworkPhase := (if NT_SUCCESS st then 600 else 510)\<rparr>)"

text \<open>What the worker does with the result of \<open>CywConnect\<close>.\<close>

definition WorkerConnected :: "NTSTATUS \<Rightarrow> net \<Rightarrow> net" where
  "WorkerConnected st N =
    (let N = (if \<not> NT_SUCCESS st then CywLink False (N\<lparr>NAssociated := False, NAuthorized := False\<rparr>) else N)
     in CywRefreshTxGate (N\<lparr>ANetworkStatus := st\<rparr>))"

text \<open>
  \<open>CywScanRequest\<close>: its start, with the check that leaves a link alone that came up in the meantime; the
  opening of the window for scan events; and its end with the statuses of scan and cleanup.
\<close>

definition ScanBegin :: "net \<Rightarrow> net" where
  "ScanBegin N = N\<lparr>NScanAcceptEvents := False, NScanComplete := False,
     NScanSyncId := unat ((SrGeneration (NScanReport N) - 1) mod 65535) + 1,
     NScanReport := (NScanReport N)\<lparr>SrState := 2\<rparr>\<rparr>"

definition ScanAllowed :: "net \<Rightarrow> bool" where
  "ScanAllowed N \<longleftrightarrow> \<not> CywScanCancelled N \<and>
     \<not> (\<not> NReady N \<or> NAssociated N \<or> NAuthorized N \<or> NSelectingBand N \<or> ANetworkPhase N \<noteq> 500 \<or>
        ANetworkStatus N \<noteq> STATUS_SUCCESS)"

definition ScanOpen :: "net \<Rightarrow> net" where
  "ScanOpen N = N\<lparr>NScanAcceptEvents := True\<rparr>"

definition ScanFinish :: "bool \<Rightarrow> NTSTATUS \<Rightarrow> NTSTATUS \<Rightarrow> u32 \<Rightarrow> net \<Rightarrow> net" where
  "ScanFinish dirty status cleanup error N =
    (let N = N\<lparr>NScanAcceptEvents := False\<rparr>;
         N = (if dirty then N\<lparr>NAssociated := False, NAuthorized := False\<rparr> else N);
         N = (if \<not> NT_SUCCESS cleanup then CywRefreshTxGate (N\<lparr>NReady := False, ANetworkStatus := cleanup\<rparr>) else N);
         status = (if \<not> NT_SUCCESS cleanup then cleanup else status);
         status = (if CywScanCancelled N \<and> NT_SUCCESS status then STATUS_CANCELLED else status);
         r = (NScanReport N)\<lparr>SrStatus := status, SrFirmwareError := error,
               SrState := (if NT_SUCCESS status then 3 else if status = STATUS_CANCELLED then 5 else 4)\<rparr>;
         r = (if \<not> NT_SUCCESS status then r\<lparr>SrCount := 0, SrEntries := replicate CYW_SCAN_MAX_ENTRIES zero_entry\<rparr> else r)
     in N\<lparr>NScanReport := r, NScanBusy := False\<rparr>)"

definition WorkerReady :: "net \<Rightarrow> net" where
  "WorkerReady N = CywRefreshTxGate (N\<lparr>NReady := True, ANetworkStatus := STATUS_SUCCESS\<rparr>)"

definition WorkerFailed :: "u64 \<Rightarrow> NTSTATUS \<Rightarrow> net \<Rightarrow> net" where
  "WorkerFailed now st N =
    (let N = (if \<not> NStop N \<and> \<not> NPaused N \<and> CywConnectionWasUp N then CywRecordDisconnect now 4 0 st 0 N else N)
     in CywLink False (N\<lparr>ANetworkStatus := st, NReady := False, NAssociated := False, NAuthorized := False\<rparr>))"

definition WorkerExit :: "net \<Rightarrow> net" where
  "WorkerExit N = (CywScanQuiesce N)\<lparr>NReady := False\<rparr>"

section \<open>Life cycle\<close>

definition CywNetworkPause :: "bool \<Rightarrow> net \<Rightarrow> net" where
  "CywNetworkPause paused N =
    (let N = N\<lparr>ANdisPaused := paused, NPublished := True, NWake := True, NPaused := paused\<rparr>;
         N = (if paused then CywScanQuiesce N else N)
     in CywRefreshTxGate N)"

text \<open>\<open>CywNetworkPower\<close>: the request to stop, the work after the worker has ended, and the restart.\<close>

definition PowerOffBegin :: "u64 \<Rightarrow> net \<Rightarrow> net" where
  "PowerOffBegin now N =
    (let N = (if CywConnectionWasUp N then CywRecordDisconnect now 3 0 0 0 N else N)
     in CywRefreshTxGate (N\<lparr>NReady := False, NStop := True, NWake := True\<rparr>))"

definition PowerOffEnd :: "net \<Rightarrow> net" where
  "PowerOffEnd N =
    (let N = N\<lparr>NPowered := False, AIoStopped := True, NAssociated := False, NAuthorized := False\<rparr>;
         N = CywLink False N
     in CywScanReset (N\<lparr>NRequest := 0, NRadioBusy := False, NConnect := zero_connect\<rparr>))"

definition PowerOn :: "net \<Rightarrow> net" where
  "PowerOn N = (CywScanReset N)\<lparr>AIoStopped := False, NStop := False, NReady := False, NPowered := True,
     NPaused := ANdisPaused N\<rparr>"

definition CywNetworkShutdown :: "net \<Rightarrow> net" where
  "CywNetworkShutdown N = N\<lparr>AIoStopped := True, NStop := True\<rparr>"

text \<open>
  The interleaving.  The second component says what the worker is doing: it handles one request at a
  time.  \<open>WStopped\<close> is a worker that ended and whose thread is still referenced, \<open>WOff\<close> the state without a
  thread, in which power may be turned on.  Control-device requests, pause and shutdown come from other threads at any moment; events are
  dispatched by the worker wherever it polls the bus.
\<close>

datatype wpc = WOff | WStopped | WStarting | WIdle | WOp u32 | WConnecting | WScanning | WFinish

inductive ctl_step :: "net \<times> wpc \<Rightarrow> net \<times> wpc \<Rightarrow> bool" where
  dispatch: "CywDispatch code b i k N = Some (st, n, N') \<Longrightarrow> ctl_step (N, w) (N', w)"
| pause: "ctl_step (N, w) (CywNetworkPause b N, w)"
| shutdown: "ctl_step (N, w) (CywNetworkShutdown N, w)"
| event: "w \<noteq> WStopped \<Longrightarrow> w \<noteq> WOff \<Longrightarrow> CywEvent now p n N = Some N' \<Longrightarrow> ctl_step (N, w) (N', w)"
| ready: "\<not> NStop N \<Longrightarrow> ctl_step (N, WStarting) (WorkerReady N, WIdle)"
| failed: "w = WStarting \<or> w = WIdle \<Longrightarrow> \<not> NT_SUCCESS st \<Longrightarrow>
    ctl_step (N, w) (WorkerExit (WorkerFailed now st N), WStopped)"
| exit: "w = WStarting \<or> w = WIdle \<Longrightarrow> NStop N \<Longrightarrow> ctl_step (N, w) (WorkerExit N, WStopped)"
| take: "\<not> NStop N \<Longrightarrow> \<not> NPaused N \<Longrightarrow> WorkerTake N = (op', r, N') \<Longrightarrow>
    ctl_step (N, WIdle) (N', if op' = 0 then WIdle else WOp op')"
| radio: "ctl_step (N, WOp 3) (RadioPublish N, WFinish)"
| disconnect: "ctl_step (N, WOp 2) (WorkerDisconnect now st N, WFinish)"
| connect_begin: "ctl_step (N, WOp 1) (ConnectBegin N, WConnecting)"
| connect_failed: "\<not> NT_SUCCESS st \<Longrightarrow>
    ctl_step (N, WConnecting) (WorkerConnected st (ConnectFailed st N), WFinish)"
| connect_legacy: "NT_SUCCESS st \<Longrightarrow>
    ctl_step (N, WConnecting) (WorkerConnected st (ConnectLegacy N), WFinish)"
| connect_joined: "NT_SUCCESS st \<Longrightarrow>
    ctl_step (N, WConnecting) (WorkerConnected st (JoinExit st stage N), WFinish)"
| join_failed: "\<not> NT_SUCCESS st \<Longrightarrow>
    ctl_step (N, WConnecting) (WorkerConnected st (ConnectFailed st (JoinExit st stage N)), WFinish)"
| scan_refused: "\<not> ScanAllowed (ScanBegin N) \<Longrightarrow> \<not> NT_SUCCESS st \<Longrightarrow>
    ctl_step (N, WOp 4) (ScanFinish False st STATUS_SUCCESS error (ScanBegin N), WFinish)"
| scan_begin: "ScanAllowed (ScanBegin N) \<Longrightarrow> ctl_step (N, WOp 4) (ScanBegin N, WScanning)"
| scan_open: "ctl_step (N, WScanning) (ScanOpen N, WScanning)"
| scan_finish: "ctl_step (N, WScanning) (ScanFinish True status cleanup error N, WFinish)"
| finished: "ctl_step (N, WFinish) (WorkerDone N, WIdle)"
| power_off_begin: "ctl_step (N, w) (PowerOffBegin now N, w)"
| power_off_end: "w = WStopped \<or> w = WOff \<Longrightarrow> ctl_step (N, w) (PowerOffEnd N, WOff)"
| power_on: "ctl_step (N, WOff) (PowerOn N, WStarting)"
| power_on_failed: "ctl_step (N, WOff) (PowerOn N, WOff)"

definition ctl_init :: "net \<times> wpc \<Rightarrow> bool" where
  "ctl_init s \<longleftrightarrow> (case s of (N, w) \<Rightarrow> w = WStarting \<and>
     \<not> NReady N \<and> \<not> NAssociated N \<and> \<not> NAuthorized N \<and> \<not> NSelectingBand N \<and> AMedia N \<noteq> MediaConnected \<and>
     NRequest N = 0 \<and> \<not> NRadioBusy N \<and> \<not> NScanBusy N \<and> \<not> NControlBusy N \<and> \<not> NScanAcceptEvents N \<and>
     NGate N = NDIS_STATUS_PAUSED \<and> NScanReport N = zero_report\<lparr>SrVersion := 1\<rparr>)"

section \<open>The control invariant\<close>

text \<open>
  At most one of scan, radio query and connection request is pending or running; the busy flags say exactly
  which.  The media state follows the association flags, and the transmit gate is open only while
  the link is up and NDIS has not paused the adapter.
\<close>

definition requests_ok :: "u32 \<Rightarrow> bool \<Rightarrow> bool \<Rightarrow> bool \<Rightarrow> wpc \<Rightarrow> bool" where
  "requests_ok request scanBusy radioBusy controlBusy w \<longleftrightarrow> request \<le> 4 \<and>
     (\<forall>k. w = WOp k \<longrightarrow> k \<in> {1, 2, 3, 4}) \<and>
     (scanBusy \<longleftrightarrow> request = 4 \<or> w = WOp 4 \<or> w = WScanning) \<and>
     (radioBusy \<longleftrightarrow> request = 3 \<or> w = WOp 3) \<and>
     (scanBusy \<longrightarrow> request = 0 \<or> request = 4) \<and> (radioBusy \<longrightarrow> request = 0 \<or> request = 3) \<and>
     \<not> (scanBusy \<and> radioBusy) \<and>
     (controlBusy \<longleftrightarrow> w \<notin> {WOff, WStopped, WStarting, WIdle}) \<and> (request = 4 \<longrightarrow> \<not> controlBusy) \<and>
     (request = 3 \<longrightarrow> w \<noteq> WOp 3)"

definition scan_ok :: "bool \<Rightarrow> bool \<Rightarrow> CYW_SCAN_REPORT \<Rightarrow> wpc \<Rightarrow> bool" where
  "scan_ok accept scanBusy r w \<longleftrightarrow> (accept \<longrightarrow> w = WScanning) \<and>
     (scanBusy \<longleftrightarrow> SrState r = 1 \<or> SrState r = 2) \<and> (scanBusy \<longrightarrow> SrGeneration r \<noteq> 0) \<and> scan_report_wf r"

definition link_ok :: "media_state \<Rightarrow> ndis_status \<Rightarrow> bool \<Rightarrow> bool \<Rightarrow> bool \<Rightarrow> bool \<Rightarrow> wpc \<Rightarrow> bool" where
  "link_ok media gate associated authorized selecting paused w \<longleftrightarrow>
     (media = MediaConnected \<longleftrightarrow> associated \<and> authorized \<and> \<not> selecting) \<and>
     (gate = NDIS_STATUS_SUCCESS \<longrightarrow> associated \<and> authorized \<and> \<not> selecting \<and> \<not> paused) \<and>
     (w = WScanning \<longrightarrow> \<not> associated \<and> \<not> authorized) \<and>
     (w = WOff \<longrightarrow> \<not> (associated \<and> authorized \<and> \<not> selecting))"

definition idle_ok :: "bool \<Rightarrow> u32 \<Rightarrow> wpc \<Rightarrow> bool" where
  "idle_ok ready request w \<longleftrightarrow> (w = WOff \<or> w = WStopped \<longrightarrow> \<not> ready) \<and> (w = WOff \<longrightarrow> request = 0)"

definition ctl_inv :: "net \<times> wpc \<Rightarrow> bool" where
  "ctl_inv s \<longleftrightarrow> (case s of (N, w) \<Rightarrow>
     requests_ok (NRequest N) (NScanBusy N) (NRadioBusy N) (NControlBusy N) w \<and>
     scan_ok (NScanAcceptEvents N) (NScanBusy N) (NScanReport N) w \<and> idle_ok (NReady N) (NRequest N) w \<and>
     link_ok (AMedia N) (NGate N) (NAssociated N) (NAuthorized N) (NSelectingBand N) (NPaused N) w)"

lemma CywRefreshTxGate_frame [simp]:
  "NStop (CywRefreshTxGate N) = NStop N"
  "NPaused (CywRefreshTxGate N) = NPaused N"
  "NReady (CywRefreshTxGate N) = NReady N"
  "NAssociated (CywRefreshTxGate N) = NAssociated N"
  "NAuthorized (CywRefreshTxGate N) = NAuthorized N"
  "NPublished (CywRefreshTxGate N) = NPublished N"
  "NSelectingBand (CywRefreshTxGate N) = NSelectingBand N"
  "NPowered (CywRefreshTxGate N) = NPowered N"
  "NRadioBusy (CywRefreshTxGate N) = NRadioBusy N"
  "NRequest (CywRefreshTxGate N) = NRequest N"
  "NScanReport (CywRefreshTxGate N) = NScanReport N"
  "NScanBusy (CywRefreshTxGate N) = NScanBusy N"
  "NControlBusy (CywRefreshTxGate N) = NControlBusy N"
  "NScanAcceptEvents (CywRefreshTxGate N) = NScanAcceptEvents N"
  "NScanComplete (CywRefreshTxGate N) = NScanComplete N"
  "NScanSyncId (CywRefreshTxGate N) = NScanSyncId N"
  "NScanCancel (CywRefreshTxGate N) = NScanCancel N"
  "AIoStopped (CywRefreshTxGate N) = AIoStopped N"
  "ANdisPaused (CywRefreshTxGate N) = ANdisPaused N"
  "AMedia (CywRefreshTxGate N) = AMedia N"
  "ANetworkPhase (CywRefreshTxGate N) = ANetworkPhase N"
  "ANetworkStatus (CywRefreshTxGate N) = ANetworkStatus N"
  "ABandStage (CywRefreshTxGate N) = ABandStage N"
  by (simp_all add: CywRefreshTxGate_def)

lemma CywLink_frame [simp]:
  "NStop (CywLink up N) = NStop N"
  "NPaused (CywLink up N) = NPaused N"
  "NReady (CywLink up N) = NReady N"
  "NAssociated (CywLink up N) = NAssociated N"
  "NAuthorized (CywLink up N) = NAuthorized N"
  "NPublished (CywLink up N) = NPublished N"
  "NSelectingBand (CywLink up N) = NSelectingBand N"
  "NPowered (CywLink up N) = NPowered N"
  "NRadioBusy (CywLink up N) = NRadioBusy N"
  "NRequest (CywLink up N) = NRequest N"
  "NScanReport (CywLink up N) = NScanReport N"
  "NScanBusy (CywLink up N) = NScanBusy N"
  "NControlBusy (CywLink up N) = NControlBusy N"
  "NScanAcceptEvents (CywLink up N) = NScanAcceptEvents N"
  "NScanComplete (CywLink up N) = NScanComplete N"
  "NScanSyncId (CywLink up N) = NScanSyncId N"
  "NScanCancel (CywLink up N) = NScanCancel N"
  "AIoStopped (CywLink up N) = AIoStopped N"
  "ANdisPaused (CywLink up N) = ANdisPaused N"
  "ANetworkPhase (CywLink up N) = ANetworkPhase N"
  "ANetworkStatus (CywLink up N) = ANetworkStatus N"
  "ABandStage (CywLink up N) = ABandStage N"
  by (simp_all add: CywLink_def Let_def)

lemma CywRecordDisconnect_frame [simp]:
  "NStop (CywRecordDisconnect now a b c d N) = NStop N"
  "NPaused (CywRecordDisconnect now a b c d N) = NPaused N"
  "NReady (CywRecordDisconnect now a b c d N) = NReady N"
  "NAssociated (CywRecordDisconnect now a b c d N) = NAssociated N"
  "NAuthorized (CywRecordDisconnect now a b c d N) = NAuthorized N"
  "NPublished (CywRecordDisconnect now a b c d N) = NPublished N"
  "NSelectingBand (CywRecordDisconnect now a b c d N) = NSelectingBand N"
  "NPowered (CywRecordDisconnect now a b c d N) = NPowered N"
  "NRadioBusy (CywRecordDisconnect now a b c d N) = NRadioBusy N"
  "NRequest (CywRecordDisconnect now a b c d N) = NRequest N"
  "NScanReport (CywRecordDisconnect now a b c d N) = NScanReport N"
  "NScanBusy (CywRecordDisconnect now a b c d N) = NScanBusy N"
  "NControlBusy (CywRecordDisconnect now a b c d N) = NControlBusy N"
  "NScanAcceptEvents (CywRecordDisconnect now a b c d N) = NScanAcceptEvents N"
  "NScanComplete (CywRecordDisconnect now a b c d N) = NScanComplete N"
  "NScanSyncId (CywRecordDisconnect now a b c d N) = NScanSyncId N"
  "NScanCancel (CywRecordDisconnect now a b c d N) = NScanCancel N"
  "NGate (CywRecordDisconnect now a b c d N) = NGate N"
  "AIoStopped (CywRecordDisconnect now a b c d N) = AIoStopped N"
  "ANdisPaused (CywRecordDisconnect now a b c d N) = ANdisPaused N"
  "AMedia (CywRecordDisconnect now a b c d N) = AMedia N"
  "ANetworkPhase (CywRecordDisconnect now a b c d N) = ANetworkPhase N"
  "ANetworkStatus (CywRecordDisconnect now a b c d N) = ANetworkStatus N"
  "ABandStage (CywRecordDisconnect now a b c d N) = ABandStage N"
  by (simp_all add: CywRecordDisconnect_def)

lemma CywRecordFirmwareDisconnect_frame [simp]:
  "NStop (CywRecordFirmwareDisconnect now a b c d N) = NStop N"
  "NPaused (CywRecordFirmwareDisconnect now a b c d N) = NPaused N"
  "NReady (CywRecordFirmwareDisconnect now a b c d N) = NReady N"
  "NAssociated (CywRecordFirmwareDisconnect now a b c d N) = NAssociated N"
  "NAuthorized (CywRecordFirmwareDisconnect now a b c d N) = NAuthorized N"
  "NPublished (CywRecordFirmwareDisconnect now a b c d N) = NPublished N"
  "NSelectingBand (CywRecordFirmwareDisconnect now a b c d N) = NSelectingBand N"
  "NPowered (CywRecordFirmwareDisconnect now a b c d N) = NPowered N"
  "NRadioBusy (CywRecordFirmwareDisconnect now a b c d N) = NRadioBusy N"
  "NRequest (CywRecordFirmwareDisconnect now a b c d N) = NRequest N"
  "NScanReport (CywRecordFirmwareDisconnect now a b c d N) = NScanReport N"
  "NScanBusy (CywRecordFirmwareDisconnect now a b c d N) = NScanBusy N"
  "NControlBusy (CywRecordFirmwareDisconnect now a b c d N) = NControlBusy N"
  "NScanAcceptEvents (CywRecordFirmwareDisconnect now a b c d N) = NScanAcceptEvents N"
  "NScanComplete (CywRecordFirmwareDisconnect now a b c d N) = NScanComplete N"
  "NScanSyncId (CywRecordFirmwareDisconnect now a b c d N) = NScanSyncId N"
  "NScanCancel (CywRecordFirmwareDisconnect now a b c d N) = NScanCancel N"
  "NGate (CywRecordFirmwareDisconnect now a b c d N) = NGate N"
  "AIoStopped (CywRecordFirmwareDisconnect now a b c d N) = AIoStopped N"
  "ANdisPaused (CywRecordFirmwareDisconnect now a b c d N) = ANdisPaused N"
  "AMedia (CywRecordFirmwareDisconnect now a b c d N) = AMedia N"
  "ANetworkPhase (CywRecordFirmwareDisconnect now a b c d N) = ANetworkPhase N"
  "ANetworkStatus (CywRecordFirmwareDisconnect now a b c d N) = ANetworkStatus N"
  "ABandStage (CywRecordFirmwareDisconnect now a b c d N) = ABandStage N"
  by (simp_all add: CywRecordFirmwareDisconnect_def Let_def)

lemma CywLinkFlags_frame [simp]:
  "NStop (CywLinkFlags t st f r N) = NStop N"
  "NPaused (CywLinkFlags t st f r N) = NPaused N"
  "NReady (CywLinkFlags t st f r N) = NReady N"
  "NPublished (CywLinkFlags t st f r N) = NPublished N"
  "NSelectingBand (CywLinkFlags t st f r N) = NSelectingBand N"
  "NPowered (CywLinkFlags t st f r N) = NPowered N"
  "NRadioBusy (CywLinkFlags t st f r N) = NRadioBusy N"
  "NRequest (CywLinkFlags t st f r N) = NRequest N"
  "NScanReport (CywLinkFlags t st f r N) = NScanReport N"
  "NScanBusy (CywLinkFlags t st f r N) = NScanBusy N"
  "NControlBusy (CywLinkFlags t st f r N) = NControlBusy N"
  "NScanAcceptEvents (CywLinkFlags t st f r N) = NScanAcceptEvents N"
  "NScanComplete (CywLinkFlags t st f r N) = NScanComplete N"
  "NScanSyncId (CywLinkFlags t st f r N) = NScanSyncId N"
  "NScanCancel (CywLinkFlags t st f r N) = NScanCancel N"
  "NGate (CywLinkFlags t st f r N) = NGate N"
  "AIoStopped (CywLinkFlags t st f r N) = AIoStopped N"
  "ANdisPaused (CywLinkFlags t st f r N) = ANdisPaused N"
  "AMedia (CywLinkFlags t st f r N) = AMedia N"
  "ANetworkPhase (CywLinkFlags t st f r N) = ANetworkPhase N"
  "ANetworkStatus (CywLinkFlags t st f r N) = ANetworkStatus N"
  "ABandStage (CywLinkFlags t st f r N) = ABandStage N"
  by (simp_all add: CywLinkFlags_def Let_def)

text \<open>What \<open>CywLink\<close> does to the media state and the gate.\<close>

lemma CywRefreshTxGate_gate:
  "NGate (CywRefreshTxGate N) = NDIS_STATUS_SUCCESS \<longleftrightarrow>
     \<not> AIoStopped N \<and> \<not> NStop N \<and> \<not> NPaused N \<and> NReady N \<and> NAssociated N \<and> NAuthorized N \<and> \<not> NSelectingBand N"
  by (auto simp: CywRefreshTxGate_def)

lemma CywLink_media:
  "AMedia (CywLink up N) = (if up \<and> NSelectingBand N then AMedia N else if up then MediaConnected else MediaDisconnected)"
  by (auto simp: CywLink_def Let_def)

lemma CywLink_gate:
  "NGate (CywLink up N) = NDIS_STATUS_SUCCESS \<Longrightarrow>
    NGate N = NDIS_STATUS_SUCCESS \<and> AMedia (CywLink up N) = AMedia N \<or>
    NGate (CywRefreshTxGate N) = NDIS_STATUS_SUCCESS"
  by (auto simp: CywLink_def CywRefreshTxGate_def Let_def split: if_splits)

text \<open>Re-establishing the link invariant after the flags changed: \<open>CywLink\<close> with the current state.\<close>

lemma link_ok_CywLink:
  assumes old: "link_ok (AMedia M) (NGate M) a u sel (NPaused M) w"
    and up: "up \<longleftrightarrow> NAssociated M \<and> NAuthorized M"
    and sel: "NSelectingBand M \<longrightarrow> \<not> up \<or> AMedia M \<noteq> MediaConnected"
    and w: "w' = WScanning \<longrightarrow> \<not> NAssociated M \<and> \<not> NAuthorized M" "w' = WOff \<longrightarrow> \<not> up"
  shows "link_ok (AMedia (CywLink up M)) (NGate (CywLink up M)) (NAssociated M) (NAuthorized M) (NSelectingBand M)
    (NPaused M) w'"
proof -
  have m: "AMedia (CywLink up M) = MediaConnected \<longleftrightarrow> NAssociated M \<and> NAuthorized M \<and> \<not> NSelectingBand M"
    using up sel by (auto simp: CywLink_media)
  have "NAssociated M \<and> NAuthorized M \<and> \<not> NSelectingBand M \<and> \<not> NPaused M"
    if "NGate (CywLink up M) = NDIS_STATUS_SUCCESS"
    using CywLink_gate [OF that] old m by (auto simp: CywRefreshTxGate_gate link_ok_def)
  then show ?thesis using m w up unfolding link_ok_def by blast
qed

lemma link_ok_refresh:
  "link_ok (AMedia N) (NGate N) a u sel p w \<Longrightarrow> a = NAssociated N \<Longrightarrow> u = NAuthorized N \<Longrightarrow> sel = NSelectingBand N \<Longrightarrow>
    p = NPaused N \<Longrightarrow> link_ok (AMedia N) (NGate (CywRefreshTxGate N)) a u sel p w"
  by (auto simp: link_ok_def CywRefreshTxGate_gate)

subsection \<open>Requests from other threads\<close>

lemma scan_report_wf_empty: "length (SrEntries r) = 64 \<Longrightarrow> SrCount r = 0 \<Longrightarrow> scan_report_wf r"
  by (simp add: scan_report_wf_def scan_list_def)

lemma requests_ok_queue:
  assumes "requests_ok 0 False False c w"
  shows "\<not> c \<Longrightarrow> requests_ok 4 True False c w" "requests_ok 3 False True c w"
    "requests_ok 1 False False c w" "requests_ok 2 False False c w"
  using assms by (auto simp: requests_ok_def)

lemma requests_ok_cancel: "requests_ok 4 b r False w \<Longrightarrow> requests_ok 0 False r False w"
  by (auto simp: requests_ok_def)

lemma scan_ok_cancel: "scan_ok a b r w \<Longrightarrow> scan_ok a False (r\<lparr>SrState := 5, SrStatus := x, SrCount := 0\<rparr>) w"
  by (simp add: scan_ok_def scan_report_wf_def scan_list_def)

lemma scan_ok_new:
  "g \<noteq> 0 \<Longrightarrow> scan_ok False True (zero_report\<lparr>SrVersion := 1, SrGeneration := g, SrState := 1, SrStatus := x, SrCountry := y\<rparr>) w"
  by (simp add: scan_ok_def scan_report_wf_empty zero_report_def)

lemma scan_ok_reset: "scan_ok False False (zero_report\<lparr>SrVersion := v, SrGeneration := g\<rparr>) w"
  by (simp add: scan_ok_def scan_report_wf_empty zero_report_def)

lemma idle_ok_intros:
  "idle_ok False 0 w" "idle_ok ready r w \<Longrightarrow> idle_ok ready 0 w" "idle_ok ready r w \<Longrightarrow> idle_ok False r w"
  "idle_ok True r w \<Longrightarrow> idle_ok True r' w" "w \<noteq> WOff \<Longrightarrow> w \<noteq> WStopped \<Longrightarrow> idle_ok ready r w" "w \<noteq> WOff \<Longrightarrow> idle_ok False r w"
  by (auto simp: idle_ok_def)

lemma ScanAdmit_inv: "ScanAdmit c0 c1 N = (st, N') \<Longrightarrow> ctl_inv (N, w) \<Longrightarrow> ctl_inv (N', w)"
  by (auto simp: ScanAdmit_def Let_def ctl_inv_def scan_ok_new intro: requests_ok_queue idle_ok_intros split: if_splits)

lemma ScanCancelQueued_inv: "ctl_inv (N, w) \<Longrightarrow> ctl_inv (ScanCancelQueued (N\<lparr>NScanCancel := b\<rparr>), w)"
  by (auto simp: ScanCancelQueued_def ctl_inv_def intro: requests_ok_cancel scan_ok_cancel idle_ok_intros)

text \<open>Fields the invariant does not read.\<close>

lemma ctl_inv_frame [simp]:
  "ctl_inv (N\<lparr>NWake := b\<rparr>, w) = ctl_inv (N, w)" "ctl_inv (N\<lparr>NScanCancel := c\<rparr>, w) = ctl_inv (N, w)"
  "ctl_inv (N\<lparr>ANetworkPhase := ph\<rparr>, w) = ctl_inv (N, w)" "ctl_inv (N\<lparr>ANetworkStatus := st\<rparr>, w) = ctl_inv (N, w)"
  by (simp_all add: ctl_inv_def)

lemma ctl_inv_not_ready: "ctl_inv (N, w) \<Longrightarrow> ctl_inv (N\<lparr>NReady := False\<rparr>, w)"
  by (auto simp: ctl_inv_def intro: idle_ok_intros)

lemma scan_ok_close: "scan_ok a b r w \<Longrightarrow> scan_ok False b r w"
  by (simp add: scan_ok_def)

lemma ctl_inv_close: "ctl_inv (N, w) \<Longrightarrow> ctl_inv (N\<lparr>NScanAcceptEvents := False\<rparr>, w)"
  by (auto simp: ctl_inv_def intro: scan_ok_close)

lemma CywScanControl_inv:
  assumes "CywScanControl code b i k N = Some (st, n, r, N')" "ctl_inv (N, w)"
  shows "ctl_inv (N', w)"
  using assms ScanCancelQueued_inv [of N w True]
  by (auto simp: CywScanControl_def split: if_splits bind_splits prod.splits dest: ScanAdmit_inv)

lemma DispatchRadioRefresh_inv: "DispatchRadioRefresh N = (st, N') \<Longrightarrow> ctl_inv (N, w) \<Longrightarrow> ctl_inv (N', w)"
  by (auto simp: DispatchRadioRefresh_def NetBusy_def NetOnline_def ctl_inv_def split: if_splits intro: requests_ok_queue idle_ok_intros)

lemma DispatchRequest_inv:
  "DispatchRequest op' r N = (st, N') \<Longrightarrow> op' = 1 \<or> op' = 2 \<Longrightarrow> ctl_inv (N, w) \<Longrightarrow> ctl_inv (N', w)"
  by (auto simp: DispatchRequest_def NetBusy_def ctl_inv_def split: if_splits intro: requests_ok_queue idle_ok_intros)

lemma CywDispatch_inv:
  assumes "CywDispatch code b i k N = Some (st, n, N')" "ctl_inv (N, w)"
  shows "ctl_inv (N', w)"
  using assms
  by (auto simp: CywDispatch_def split: if_splits bind_splits prod.splits
      dest: CywScanControl_inv DispatchRadioRefresh_inv DispatchRequest_inv)

lemma CywScanQuiesce_inv: "ctl_inv (N, w) \<Longrightarrow> ctl_inv (CywScanQuiesce N, w)"
  using ScanCancelQueued_inv [of N w True] ctl_inv_close [of "ScanCancelQueued (N\<lparr>NScanCancel := True\<rparr>)" w]
  by (simp add: CywScanQuiesce_def)

lemma ctl_inv_refresh: "ctl_inv (N, w) \<Longrightarrow> ctl_inv (CywRefreshTxGate N, w)"
  by (simp add: ctl_inv_def link_ok_refresh)

subsection \<open>Events\<close>

lemma CywScanEvent_inv:
  assumes "CywScanEvent st p n N = Some N'" "ctl_inv (N, w)" "n \<le> length p"
  shows "ctl_inv (N', w)"
proof -
  have add: "scan_ok a b (CywScanAdd r e) w" if "scan_ok a b r w" "scan_entry_ok e" for a b r e
  proof -
    have "SrState (CywScanAdd r e) = SrState r" "SrGeneration (CywScanAdd r e) = SrGeneration r"
      by (simp_all add: CywScanAdd_def split: option.split)
    then show ?thesis using that CywScanAdd_spec [of r e] by (simp add: scan_ok_def)
  qed
  obtain c eo where parse: "CywScanParsePartial p n (NScanSyncId N) = Some (c, eo)" "\<forall>e. eo = Some e \<longrightarrow> scan_entry_ok e"
    using CywScanParsePartial_spec [OF assms(3), of "NScanSyncId N"] by blast
  have frame: "ctl_inv (N\<lparr>NScanComplete := x, NScanEventStatus := y\<rparr>, w)"
    "ctl_inv (N\<lparr>NScanEventStatus := y, NScanComplete := x\<rparr>, w)" for x y
    using assms(2) by (simp_all add: ctl_inv_def)
  have "ctl_inv (N\<lparr>NScanReport := CywScanAdd (NScanReport N) e\<rparr>, w)" if "eo = Some e" for e
    using assms(2) parse(2) that by (simp add: ctl_inv_def add)
  then show ?thesis
    using assms(1,2) frame
    by (auto simp: CywScanEvent_def parse(1) split: if_splits option.splits bind_splits)
qed

lemma CywLinkEvent_inv:
  assumes "ctl_inv (N, w)" "w \<noteq> WOff"
  shows "ctl_inv (CywLinkEvent now type st fl reason N, w)"
proof (cases "NScanBusy N")
  case True
  with assms show ?thesis by (simp add: CywLinkEvent_def)
next
  case False
  then have w: "w \<noteq> WScanning" using assms by (auto simp: ctl_inv_def requests_ok_def)
  define M where "M = CywLinkFlags type st fl reason (N\<lparr>ALinkEvent := type, ALinkReason := reason\<rparr>)"
  define up where "up = (NAssociated M \<and> NAuthorized M)"
  define M2 where "M2 = (if CywConnectionWasUp N \<and> \<not> up \<and> CywFirmwareDisconnectClass type st fl reason \<noteq> 0
                then CywRecordFirmwareDisconnect now (CywFirmwareDisconnectClass type st fl reason) type st reason M else M)"
  have eq: "\<exists>ph. CywLinkEvent now type st fl reason N = (CywLink up M2)\<lparr>ANetworkPhase := ph\<rparr>"
    by (rule exI, simp only: CywLinkEvent_def False if_False Let_def M_def up_def M2_def)
  have f: "AMedia M2 = AMedia N" "NGate M2 = NGate N" "NPaused M2 = NPaused N" "NSelectingBand M2 = NSelectingBand N"
    "NAssociated M2 = NAssociated M" "NAuthorized M2 = NAuthorized M" "NRequest M2 = NRequest N" "NScanBusy M2 = NScanBusy N"
    "NRadioBusy M2 = NRadioBusy N" "NControlBusy M2 = NControlBusy N" "NScanReport M2 = NScanReport N"
    "NScanAcceptEvents M2 = NScanAcceptEvents N" "NReady M2 = NReady N"
    by (simp_all add: M2_def M_def)
  have "link_ok (AMedia (CywLink up M2)) (NGate (CywLink up M2)) (NAssociated M2) (NAuthorized M2) (NSelectingBand M2)
      (NPaused M2) w"
  proof (rule link_ok_CywLink)
    show "link_ok (AMedia M2) (NGate M2) (NAssociated N) (NAuthorized N) (NSelectingBand N) (NPaused M2) w"
      using assms by (simp add: f ctl_inv_def)
    show "NSelectingBand M2 \<longrightarrow> \<not> up \<or> AMedia M2 \<noteq> MediaConnected"
      using assms by (auto simp: f ctl_inv_def link_ok_def)
  qed (use w assms(2) in \<open>auto simp: up_def f\<close>)
  then have "ctl_inv (CywLink up M2, w)" using assms by (simp add: ctl_inv_def f)
  with eq show ?thesis by auto
qed

lemma CywEvent_inv:
  assumes "CywEvent now p n N = Some N'" "ctl_inv (N, w)" "w \<noteq> WOff"
  shows "ctl_inv (N', w)"
proof -
  have "ctl_inv (N', w)" if "CywScanEvent st b k N = Some N'" "rdn p off k = Some b" for st b k off
    using that assms(2) by (auto simp: rdn_def split: if_splits intro: CywScanEvent_inv)
  then show ?thesis
    using assms CywLinkEvent_inv [OF assms(2,3)]
    by (auto simp: CywEvent_def Let_def split: if_splits bind_splits)
qed

subsection \<open>The worker\<close>

text \<open>An operation of the worker that takes the link down.\<close>

lemma link_down:
  assumes "ctl_inv (N, w)" "AMedia M = AMedia N" "NGate M = NGate N" "NPaused M = NPaused N"
    "\<not> NAssociated M" "\<not> NAuthorized M"
  shows "link_ok (AMedia (CywLink False M)) (NGate (CywLink False M)) False False sel p w'"
proof -
  have "link_ok (AMedia (CywLink False M)) (NGate (CywLink False M)) (NAssociated M) (NAuthorized M) (NSelectingBand M)
    (NPaused M) WIdle"
    by (rule link_ok_CywLink [where a = "NAssociated N" and u = "NAuthorized N" and sel = "NSelectingBand N" and w = w])
      (use assms in \<open>auto simp: ctl_inv_def\<close>)
  then show ?thesis using assms by (auto simp: link_ok_def)
qed

lemma requests_ok_worker:
  "requests_ok r s q c (WOp 1) \<Longrightarrow> requests_ok r s q c WConnecting"
  "requests_ok r s q c (WOp 2) \<Longrightarrow> requests_ok r s q c WFinish"
  "requests_ok r s q c WConnecting \<Longrightarrow> requests_ok r s q c WFinish"
  "requests_ok r s q c (WOp 3) \<Longrightarrow> requests_ok r s False c WFinish"
  "requests_ok r s q c (WOp 4) \<Longrightarrow> requests_ok r s q c WScanning"
  "requests_ok r s q c (WOp 4) \<Longrightarrow> requests_ok r False q c WFinish"
  "requests_ok r s q c WScanning \<Longrightarrow> requests_ok r False q c WFinish"
  "requests_ok r s q c WFinish \<Longrightarrow> requests_ok r s q False WIdle"
  "requests_ok r s q c WStarting \<Longrightarrow> requests_ok r s q c WIdle"
  by (auto simp: requests_ok_def)

lemma requests_ok_take:
  "requests_ok r s q c WIdle \<Longrightarrow> requests_ok 0 s q (r \<noteq> 0) (if r = 0 then WIdle else WOp r)"
proof -
  assume a: "requests_ok r s q c WIdle"
  have "r \<in> {0, 1, 2, 3, 4}"
  proof -
    have "unat r \<le> 4" using a by (simp add: requests_ok_def word_le_nat_alt)
    then have "unat r \<in> {0, 1, 2, 3, 4}" by auto
    then show ?thesis by (auto simp: word_unat_eq_iff)
  qed
  with a show ?thesis by (auto simp: requests_ok_def)
qed

lemma scan_ok_wpc: "scan_ok False s r w \<Longrightarrow> scan_ok False s r w'" "scan_ok a s r w \<Longrightarrow> w \<noteq> WScanning \<Longrightarrow> scan_ok a s r w'"
  by (auto simp: scan_ok_def)

lemma scan_ok_state:
  "scan_ok a True r w \<Longrightarrow> scan_ok False True (r\<lparr>SrState := 2\<rparr>) w'"
  "scan_ok a s r w \<Longrightarrow> x \<noteq> 1 \<Longrightarrow> x \<noteq> 2 \<Longrightarrow>
     scan_ok False False (r\<lparr>SrStatus := st, SrFirmwareError := e, SrState := x\<rparr>) w'"
  "x \<noteq> 1 \<Longrightarrow> x \<noteq> 2 \<Longrightarrow> scan_ok False False (r\<lparr>SrStatus := st, SrFirmwareError := e, SrState := x, SrCount := 0,
     SrEntries := replicate 64 zero_entry\<rparr>) w'"
  by (auto simp: scan_ok_def scan_report_wf_def scan_list_def)

lemma link_ok_wpc: "link_ok m g a u s p w \<Longrightarrow> w' \<noteq> WScanning \<Longrightarrow> w' \<noteq> WOff \<Longrightarrow> link_ok m g a u s p w'"
  by (auto simp: link_ok_def)

lemma ctl_inv_scan_accept: "ctl_inv (N, w) \<Longrightarrow> w \<noteq> WScanning \<Longrightarrow> \<not> NScanAcceptEvents N"
  by (auto simp: ctl_inv_def scan_ok_def)

lemma ConnectBegin_inv: "ctl_inv (N, WOp 1) \<Longrightarrow> ctl_inv (ConnectBegin N, WConnecting)"
  using link_down [of N "WOp 1" "N\<lparr>NAssociated := False, NAuthorized := False\<rparr>"]
  by (auto simp: ConnectBegin_def Let_def ctl_inv_def intro: requests_ok_worker scan_ok_wpc idle_ok_intros)

lemma WorkerDisconnect_inv:
  assumes "ctl_inv (N, WOp 2)"
  shows "ctl_inv (WorkerDisconnect now st N, WFinish)"
proof -
  define N1 where "N1 = N\<lparr>AStab := (AStab N)\<lparr>SbExplicit := SbExplicit (AStab N) + 1\<rparr>\<rparr>"
  define N2 where "N2 = (if CywConnectionWasUp N1 then CywRecordDisconnect now 2 0 0 0 N1 else N1)"
  have f: "AMedia N2 = AMedia N" "NGate N2 = NGate N" "NPaused N2 = NPaused N" "NRequest N2 = NRequest N"
    "NScanBusy N2 = NScanBusy N" "NRadioBusy N2 = NRadioBusy N" "NControlBusy N2 = NControlBusy N"
    "NScanReport N2 = NScanReport N" "NScanAcceptEvents N2 = NScanAcceptEvents N" "NReady N2 = NReady N"
    by (simp_all add: N2_def N1_def)
  define M where "M = CywLink False (N2\<lparr>NSelectingBand := False, NAssociated := False, NAuthorized := False\<rparr>)"
  have "link_ok (AMedia M) (NGate M) False False False (NPaused N) WFinish"
    unfolding M_def by (rule link_down [OF assms]) (simp_all add: f)
  then have "ctl_inv (M, WFinish)"
    using assms by (auto simp: ctl_inv_def M_def f intro: requests_ok_worker scan_ok_wpc idle_ok_intros)
  then have "ctl_inv (CywRefreshTxGate ((if NT_SUCCESS st then M\<lparr>ANetworkPhase := 500\<rparr> else M)\<lparr>ANetworkStatus := st\<rparr>), WFinish)"
    by (intro ctl_inv_refresh) simp
  then show ?thesis by (simp only: WorkerDisconnect_def Let_def N1_def N2_def M_def)
qed

lemma WorkerConnected_inv: "ctl_inv (N, WFinish) \<Longrightarrow> ctl_inv (WorkerConnected st N, WFinish)"
proof -
  assume a: "ctl_inv (N, WFinish)"
  have "ctl_inv (CywLink False (N\<lparr>NAssociated := False, NAuthorized := False\<rparr>), WFinish)"
    using a link_down [OF a, of "N\<lparr>NAssociated := False, NAuthorized := False\<rparr>"] by (simp add: ctl_inv_def)
  with a show ?thesis
    by (simp add: WorkerConnected_def Let_def ctl_inv_refresh)
qed

lemma ConnectFailed_inv: "ctl_inv (N, w) \<Longrightarrow> ctl_inv (ConnectFailed st N, w)"
  using link_down [of N w "N\<lparr>ABandStage := (if st = STATUS_CANCELLED then 8 else 6), NSelectingBand := True,
       NAssociated := False, NAuthorized := False\<rparr>"]
  by (simp add: ConnectFailed_def ctl_inv_def)

lemma ctl_inv_finish: "ctl_inv (N, WConnecting) \<Longrightarrow> ctl_inv (N, WFinish)"
  by (auto simp: ctl_inv_def intro: requests_ok_worker scan_ok_wpc link_ok_wpc idle_ok_intros)

text \<open>Releasing the band-selection hold publishes the state of the flags.\<close>

lemma release_inv:
  assumes "ctl_inv (N, w)" "w \<noteq> WOff" "up \<longleftrightarrow> NAssociated N \<and> NAuthorized N"
  shows "ctl_inv (CywLink up (N\<lparr>ABandStage := s, NSelectingBand := False\<rparr>), w)"
proof -
  have "link_ok (AMedia (CywLink up (N\<lparr>ABandStage := s, NSelectingBand := False\<rparr>)))
     (NGate (CywLink up (N\<lparr>ABandStage := s, NSelectingBand := False\<rparr>))) (NAssociated N) (NAuthorized N) False (NPaused N) w"
  proof -
    let ?M = "N\<lparr>ABandStage := s, NSelectingBand := False\<rparr>"
    have "link_ok (AMedia (CywLink up ?M)) (NGate (CywLink up ?M)) (NAssociated ?M) (NAuthorized ?M) (NSelectingBand ?M)
        (NPaused ?M) w"
      by (rule link_ok_CywLink [where a = "NAssociated N" and u = "NAuthorized N" and sel = "NSelectingBand N" and w = w])
        (use assms in \<open>auto simp: ctl_inv_def link_ok_def\<close>)
    then show ?thesis by simp
  qed
  then show ?thesis using assms by (simp add: ctl_inv_def)
qed

lemma ConnectLegacy_inv: "ctl_inv (N, WConnecting) \<Longrightarrow> ctl_inv (ConnectLegacy N, WConnecting)"
  using release_inv [of N WConnecting "NAssociated N \<and> NAuthorized N" 7] by (simp add: ConnectLegacy_def Let_def)

lemma JoinExit_inv:
  assumes "ctl_inv (N, WConnecting)"
  shows "ctl_inv (JoinExit st stage N, WConnecting)"
proof (cases "NT_SUCCESS st")
  case True
  then show ?thesis
    using release_inv [of N WConnecting "NAssociated N \<and> NAuthorized N" stage] assms by (simp add: JoinExit_def Let_def)
next
  case False
  let ?M = "N\<lparr>ABandStage := (if st = STATUS_CANCELLED then 8 else 6), NAssociated := False, NAuthorized := False,
    NSelectingBand := True\<rparr>"
  have "ctl_inv (CywLink False ?M, WConnecting)"
    using link_down [OF assms, of ?M] assms by (simp add: ctl_inv_def)
  then show ?thesis using False by (simp add: JoinExit_def Let_def)
qed

lemma ScanBegin_inv:
  assumes "ctl_inv (N, WOp 4)" "ScanAllowed (ScanBegin N)"
  shows "ctl_inv (ScanBegin N, WScanning)"
proof -
  have b: "NScanBusy N" using assms by (simp add: ctl_inv_def requests_ok_def)
  have "link_ok (AMedia N) (NGate N) (NAssociated N) (NAuthorized N) (NSelectingBand N) (NPaused N) WScanning"
    using assms by (auto simp: ctl_inv_def link_ok_def ScanAllowed_def ScanBegin_def)
  then show ?thesis
    using assms(1) b by (auto simp: ScanBegin_def ctl_inv_def intro: requests_ok_worker scan_ok_state idle_ok_intros)
qed

text \<open>The end of a scan, from a state that kept the link flags or had none to keep.\<close>

lemma ScanFinish_inv:
  assumes req: "requests_ok (NRequest N) (NScanBusy N) (NRadioBusy N) (NControlBusy N) w" "w = WOp 4 \<or> w = WScanning"
    and scan: "scan_ok (NScanAcceptEvents N) (NScanBusy N) (NScanReport N) w"
    and link: "link_ok (AMedia N) (NGate N) (NAssociated N) (NAuthorized N) (NSelectingBand N) (NPaused N) w"
    and dirty: "dirty \<Longrightarrow> \<not> NAssociated N \<and> \<not> NAuthorized N"
  shows "ctl_inv (ScanFinish dirty status cleanup error N, WFinish)"
proof -
  define N1 where "N1 = (if dirty then N\<lparr>NScanAcceptEvents := False, NAssociated := False, NAuthorized := False\<rparr>
    else N\<lparr>NScanAcceptEvents := False\<rparr>)"
  define N2 where "N2 = (if \<not> NT_SUCCESS cleanup then CywRefreshTxGate (N1\<lparr>NReady := False, ANetworkStatus := cleanup\<rparr>) else N1)"
  define s where "s = (let status = (if \<not> NT_SUCCESS cleanup then cleanup else status)
    in if CywScanCancelled N2 \<and> NT_SUCCESS status then STATUS_CANCELLED else status)"
  define x where "x = (if NT_SUCCESS s then 3 else if s = STATUS_CANCELLED then 5 else 4 :: u32)"
  define r where "r = (NScanReport N2)\<lparr>SrStatus := s, SrFirmwareError := error, SrState := x\<rparr>"
  define r2 where "r2 = (if \<not> NT_SUCCESS s then r\<lparr>SrCount := 0, SrEntries := replicate CYW_SCAN_MAX_ENTRIES zero_entry\<rparr> else r)"
  have eq: "ScanFinish dirty status cleanup error N = N2\<lparr>NScanReport := r2, NScanBusy := False\<rparr>"
    by (simp add: ScanFinish_def Let_def N1_def N2_def s_def x_def r_def r2_def cong: if_cong)
  have f1: "NAssociated N1 = NAssociated N" "NAuthorized N1 = NAuthorized N" "NSelectingBand N1 = NSelectingBand N"
    "NPaused N1 = NPaused N" "AMedia N1 = AMedia N" "NGate N1 = NGate N" "NRequest N1 = NRequest N"
    "NRadioBusy N1 = NRadioBusy N" "NControlBusy N1 = NControlBusy N" "NScanReport N1 = NScanReport N"
    "NScanAcceptEvents N1 = False"
    using dirty by (auto simp: N1_def)
  have f2: "NAssociated N2 = NAssociated N" "NAuthorized N2 = NAuthorized N" "NSelectingBand N2 = NSelectingBand N"
    "NPaused N2 = NPaused N" "AMedia N2 = AMedia N" "NRequest N2 = NRequest N"
    "NRadioBusy N2 = NRadioBusy N" "NControlBusy N2 = NControlBusy N" "NScanReport N2 = NScanReport N"
    "NScanAcceptEvents N2 = False"
    by (simp_all add: N2_def f1)
  have x: "x \<noteq> 1" "x \<noteq> 2" by (simp_all add: x_def)
  have "scan_ok False False r2 WFinish"
    using x scan_ok_state(2) [OF scan x] by (simp add: r2_def r_def f2 scan_ok_state(3))
  moreover have "requests_ok (NRequest N) False (NRadioBusy N) (NControlBusy N) WFinish"
    using req by (auto intro: requests_ok_worker)
  moreover have "link_ok (AMedia N) (NGate N2) (NAssociated N) (NAuthorized N) (NSelectingBand N) (NPaused N) WFinish"
    using link f1 by (auto simp: N2_def link_ok_def CywRefreshTxGate_gate)
  ultimately show ?thesis unfolding eq by (simp add: ctl_inv_def f2 idle_ok_def)
qed

lemma WorkerReady_inv: "ctl_inv (N, WStarting) \<Longrightarrow> ctl_inv (WorkerReady N, WIdle)"
proof -
  assume "ctl_inv (N, WStarting)"
  then have "ctl_inv (N\<lparr>NReady := True, ANetworkStatus := 0\<rparr>, WIdle)"
    by (auto simp: ctl_inv_def intro: requests_ok_worker scan_ok_wpc link_ok_wpc idle_ok_intros)
  then show ?thesis by (simp add: WorkerReady_def ctl_inv_refresh)
qed

lemma WorkerExit_inv:
  assumes "ctl_inv (N, w)" "w = WStarting \<or> w = WIdle"
  shows "ctl_inv (WorkerExit N, WStopped)"
proof -
  have "ctl_inv (CywScanQuiesce N, w)" by (rule CywScanQuiesce_inv [OF assms(1)])
  moreover have "requests_ok r s q c w \<Longrightarrow> requests_ok r s q c WStopped" for r s q c
    using assms(2) by (auto simp: requests_ok_def)
  ultimately show ?thesis
    using assms(2) by (auto simp: WorkerExit_def ctl_inv_def intro: scan_ok_wpc link_ok_wpc idle_ok_intros)
qed

lemma WorkerFailed_inv:
  assumes "ctl_inv (N, w)"
  shows "ctl_inv (WorkerFailed now st N, w)"
proof -
  define N1 where "N1 = (if \<not> NStop N \<and> \<not> NPaused N \<and> CywConnectionWasUp N then CywRecordDisconnect now 4 0 st 0 N else N)"
  have f: "AMedia N1 = AMedia N" "NGate N1 = NGate N" "NPaused N1 = NPaused N" "NRequest N1 = NRequest N"
    "NScanBusy N1 = NScanBusy N" "NRadioBusy N1 = NRadioBusy N" "NControlBusy N1 = NControlBusy N"
    "NScanReport N1 = NScanReport N" "NScanAcceptEvents N1 = NScanAcceptEvents N" "NSelectingBand N1 = NSelectingBand N"
    by (simp_all add: N1_def)
  let ?M = "N1\<lparr>ANetworkStatus := st, NReady := False, NAssociated := False, NAuthorized := False\<rparr>"
  have "link_ok (AMedia (CywLink False ?M)) (NGate (CywLink False ?M)) False False (NSelectingBand N) (NPaused N) w"
    by (rule link_down [OF assms]) (simp_all add: f)
  then have "ctl_inv (CywLink False ?M, w)" using assms by (auto simp: ctl_inv_def f intro: idle_ok_intros)
  then show ?thesis by (simp only: WorkerFailed_def Let_def N1_def)
qed

subsection \<open>Life cycle\<close>

lemma CywNetworkPause_inv:
  assumes "ctl_inv (N, w)"
  shows "ctl_inv (CywNetworkPause b N, w)"
proof -
  have frame: "requests_ok (NRequest M) (NScanBusy M) (NRadioBusy M) (NControlBusy M) w"
      "scan_ok (NScanAcceptEvents M) (NScanBusy M) (NScanReport M) w" "idle_ok (NReady M) (NRequest M) w"
    if "ctl_inv (M, w)" for M
    using that by (simp_all add: ctl_inv_def)
  define M where "M = (let N = N\<lparr>ANdisPaused := b, NPublished := True, NWake := True\<rparr> in if b then CywScanQuiesce N else N)"
  have m: "ctl_inv (M, w)"
  proof -
    have "ctl_inv (N\<lparr>ANdisPaused := b, NPublished := True, NWake := True\<rparr>, w)" using assms by (simp add: ctl_inv_def)
    then show ?thesis unfolding M_def Let_def using CywScanQuiesce_inv by (cases b) simp_all
  qed
  have q: "CywScanQuiesce (K\<lparr>NPaused := b\<rparr>) = (CywScanQuiesce K)\<lparr>NPaused := b\<rparr>" for K
    by (simp add: CywScanQuiesce_def ScanCancelQueued_def)
  have eq: "CywNetworkPause b N = CywRefreshTxGate (M\<lparr>NPaused := b\<rparr>)"
    using q [of "N\<lparr>ANdisPaused := b, NPublished := True, NWake := True\<rparr>"]
    by (cases b) (simp_all add: CywNetworkPause_def M_def Let_def)
  have "link_ok (AMedia M) (NGate (CywRefreshTxGate (M\<lparr>NPaused := b\<rparr>))) (NAssociated M) (NAuthorized M) (NSelectingBand M) b w"
    using m by (auto simp: ctl_inv_def link_ok_def CywRefreshTxGate_gate)
  then show ?thesis unfolding eq using frame [OF m] by (simp add: ctl_inv_def)
qed

lemma PowerOffBegin_inv:
  assumes "ctl_inv (N, w)"
  shows "ctl_inv (PowerOffBegin now N, w)"
proof -
  define M where "M = (if CywConnectionWasUp N then CywRecordDisconnect now 3 0 0 0 N else N)"
  have "ctl_inv (M, w)" using assms by (simp add: M_def ctl_inv_def)
  then have "ctl_inv (CywRefreshTxGate (M\<lparr>NReady := False, NStop := True, NWake := True\<rparr>), w)"
    by (intro ctl_inv_refresh) (auto simp: ctl_inv_def intro: idle_ok_intros)
  then show ?thesis by (simp only: PowerOffBegin_def M_def Let_def)
qed

lemma PowerOffEnd_inv:
  assumes "ctl_inv (N, w)" "w = WStopped \<or> w = WOff"
  shows "ctl_inv (PowerOffEnd N, WOff)"
proof -
  let ?M = "N\<lparr>NPowered := False, AIoStopped := True, NAssociated := False, NAuthorized := False\<rparr>"
  have "link_ok (AMedia (CywLink False ?M)) (NGate (CywLink False ?M)) False False (NSelectingBand N) (NPaused N) WOff"
    by (rule link_down [OF assms(1)]) simp_all
  moreover have "requests_ok 0 False False False WOff" "\<not> NReady N"
    using assms by (auto simp: requests_ok_def ctl_inv_def idle_ok_def)
  ultimately show ?thesis by (simp add: PowerOffEnd_def CywScanReset_def Let_def ctl_inv_def scan_ok_reset idle_ok_def)
qed

lemma PowerOn_inv:
  assumes "ctl_inv (N, WOff)" "w = WOff \<or> w = WStarting"
  shows "ctl_inv (PowerOn N, w)"
proof -
  have "requests_ok 0 False (NRadioBusy N) False w" "NRequest N = 0" "idle_ok False 0 w"
    using assms by (auto simp: ctl_inv_def requests_ok_def idle_ok_def)
  moreover have "link_ok (AMedia N) (NGate N) (NAssociated N) (NAuthorized N) (NSelectingBand N) p w" for p
    using assms by (auto simp: ctl_inv_def link_ok_def)
  ultimately show ?thesis by (simp add: PowerOn_def CywScanReset_def ctl_inv_def scan_ok_reset)
qed

lemma scan_ok_open: "scan_ok a b r WScanning \<Longrightarrow> scan_ok True b r WScanning"
  by (simp add: scan_ok_def)

lemma small_steps_inv:
  "ctl_inv (N, w) \<Longrightarrow> ctl_inv (CywNetworkShutdown N, w)" "ctl_inv (N, WOp 3) \<Longrightarrow> ctl_inv (RadioPublish N, WFinish)"
  "ctl_inv (N, WFinish) \<Longrightarrow> ctl_inv (WorkerDone N, WIdle)" "ctl_inv (N, WScanning) \<Longrightarrow> ctl_inv (ScanOpen N, WScanning)"
proof -
  assume "ctl_inv (N, WScanning)"
  then show "ctl_inv (ScanOpen N, WScanning)" by (auto simp: ScanOpen_def ctl_inv_def intro: scan_ok_open)
qed (auto simp: CywNetworkShutdown_def RadioPublish_def WorkerDone_def ctl_inv_def
      intro: requests_ok_worker scan_ok_wpc link_ok_wpc idle_ok_intros)

text \<open>Every step keeps the invariant, so every reachable state has it.\<close>

lemma ctl_step_inv:
  assumes "ctl_step s t" "ctl_inv s"
  shows "ctl_inv t"
  using assms
proof (induction rule: ctl_step.induct)
  case (take N op' r N')
  then have "requests_ok 0 (NScanBusy N) (NRadioBusy N) (NRequest N \<noteq> 0) (if NRequest N = 0 then WIdle else WOp (NRequest N))"
    using requests_ok_take [of "NRequest N" "NScanBusy N" "NRadioBusy N" "NControlBusy N"] by (simp add: ctl_inv_def)
  with take show ?case
    by (auto simp: WorkerTake_def ctl_inv_def idle_ok_def intro: scan_ok_wpc link_ok_wpc)
next
  case (scan_refused N st error)
  then have b: "NScanBusy N" by (simp add: ctl_inv_def requests_ok_def)
  show ?case
    by (rule ScanFinish_inv [where w = "WOp 4"])
      (use scan_refused b in \<open>auto simp: ScanBegin_def ctl_inv_def intro: scan_ok_state\<close>)
next
  case (scan_finish N status cleanup error)
  then show ?case
    by (intro ScanFinish_inv [where w = WScanning]) (auto simp: ctl_inv_def link_ok_def)
qed (auto intro: CywDispatch_inv CywNetworkPause_inv CywEvent_inv WorkerReady_inv WorkerExit_inv WorkerFailed_inv
      WorkerDisconnect_inv ConnectBegin_inv WorkerConnected_inv ConnectFailed_inv ctl_inv_finish ConnectLegacy_inv
      JoinExit_inv ScanBegin_inv PowerOffBegin_inv PowerOffEnd_inv PowerOn_inv small_steps_inv)

interpretation ctl: invariant_system ctl_init ctl_step ctl_inv
proof
  show "ctl_inv s" if "ctl_init s" for s
    using that by (cases s) (auto simp: ctl_init_def ctl_inv_def requests_ok_def scan_ok_def link_ok_def idle_ok_def
        zero_report_def scan_report_wf_empty)
qed (rule ctl_step_inv)

section \<open>A sample run\<close>

definition sample_net :: net where
  "sample_net = \<lparr>NStop = False, NPaused = True, NReady = False, NAssociated = False, NAuthorized = False, NPublished = False,
     NSelectingBand = False, NPowered = True, NRadioBusy = False, NRequest = 0,
     NScanReport = zero_report\<lparr>SrVersion := 1\<rparr>, NScanCountry = (0, 0), NScanBusy = False, NControlBusy = False,
     NScanComplete = False, NScanAcceptEvents = False, NScanSyncId = 0, NScanCancel = False, NScanEventStatus = 0,
     NConnect = zero_connect, NWake = False, NGate = NDIS_STATUS_PAUSED, NIndicated = [], AIoStopped = False,
     ANdisPaused = False, ANetworkPhase = 0, ANetworkStatus = 0, AMedia = MediaDisconnected, ALinkEvent = 0,
     ALinkReason = 0, ABandStage = 0,
     AStab = \<lparr>SbDisconnectCount = 0, SbLastSource = 0, SbLastEvent = 0, SbLastStatus = 0, SbLastReason = 0,
       SbLastPhase = 0, SbLastPower = 0, SbLast100ns = 0, SbFwCount = 0, SbFwDeauth = 0, SbFwDisassoc = 0,
       SbFwLinkDown = 0, SbFwAuthLoss = 0, SbFwOther = 0, SbExplicit = 0, SbPowerState = 0\<rparr>\<rparr>"

definition sample_event :: "u8 \<Rightarrow> u8 \<Rightarrow> u8 \<Rightarrow> bytes" where
  "sample_event flags type status = [32, 0, 0, 0, 0, 0, 0, 0, 0, 0, 0, 0, 0, 0, 0, 0, 0x88, 0x6c, 0, 0, 0, 0, 0, 0, 0x10, 0x18, 0, 1,
     0, 0, 0, flags, 0, 0, 0, type, 0, 0, 0, status] @ replicate 36 0"

lemma sample_event_decoded:
  "CywEvent 0 (sample_event 1 16 0) 76 N = Some (CywLinkEvent 0 16 0 1 0 N)"
  "CywEvent 0 (sample_event 0 46 6) 76 N = Some (CywLinkEvent 0 46 6 0 0 N)"
  by (simp_all add: CywEvent_def sample_event_def rd8_def rdn_def sub_bytes_def CywBe32_def csub_def le32_def)

definition sample_up :: net where
  "sample_up = CywLinkEvent 0 46 6 0 0 (CywLinkEvent 0 16 0 1 0 (CywNetworkPause False (WorkerReady sample_net)))"

lemma sample_init: "ctl_init (sample_net, WStarting)"
  by (simp add: ctl_init_def sample_net_def)

lemma sample_run: "ctl_step\<^sup>*\<^sup>* (sample_net, WStarting) (sample_up, WIdle)"
proof -
  have 1: "ctl_step (sample_net, WStarting) (WorkerReady sample_net, WIdle)"
    by (rule ctl_step.ready) (simp add: sample_net_def)
  have 2: "ctl_step (WorkerReady sample_net, WIdle) (CywNetworkPause False (WorkerReady sample_net), WIdle)"
    by (rule ctl_step.pause)
  have 3: "ctl_step (N, WIdle) (CywLinkEvent 0 16 0 1 0 N, WIdle)" "ctl_step (N, WIdle) (CywLinkEvent 0 46 6 0 0 N, WIdle)" for N
    using sample_event_decoded by (auto intro: ctl_step.event)
  show ?thesis unfolding sample_up_def
    using 1 2 3 by (meson rtranclp.rtrancl_into_rtrancl rtranclp.rtrancl_refl)
qed

lemma sample_up_flags: "NGate sample_up = NDIS_STATUS_SUCCESS"
  by (simp add: sample_up_def sample_net_def CywLinkEvent_def CywLinkFlags_def CywLink_def CywRefreshTxGate_def
      CywNetworkPause_def WorkerReady_def CywConnectionWasUp_def CywFirmwareDisconnectClass_def Let_def)

section \<open>Properties\<close>

text \<open>
  C19 (invariant).  In every reachable state of the control plane, whatever interleaving of control-device
  requests, firmware events, worker steps, pauses and power transitions led there: scan and radio query are
  never both pending or running, the scan flag is set exactly while a scan is queued or executed, a scan excludes
  every other queued request, its report is marked queued or running exactly then, carries a nonzero generation
  and is well formed, and scan events are accepted only by the running scan.
\<close>

theorem control_requests_exclusive:
  assumes "ctl_init s" "ctl_step\<^sup>*\<^sup>* s (N, w)"
  shows "\<not> (NScanBusy N \<and> NRadioBusy N) \<and>
    (NScanBusy N \<longleftrightarrow> NRequest N = 4 \<or> w = WOp 4 \<or> w = WScanning) \<and>
    (NScanBusy N \<longrightarrow> NRequest N \<in> {0, 4} \<and> SrGeneration (NScanReport N) \<noteq> 0) \<and>
    (NScanBusy N \<longleftrightarrow> SrState (NScanReport N) = 1 \<or> SrState (NScanReport N) = 2) \<and>
    scan_report_wf (NScanReport N) \<and> (NScanAcceptEvents N \<longrightarrow> w = WScanning)"
proof -
  have "ctl_inv (N, w)" by (rule ctl.reachable_inv [OF assms])
  then have r: "requests_ok (NRequest N) (NScanBusy N) (NRadioBusy N) (NControlBusy N) w"
    and s: "scan_ok (NScanAcceptEvents N) (NScanBusy N) (NScanReport N) w"
    by (simp_all add: ctl_inv_def)
  from r s show ?thesis unfolding requests_ok_def scan_ok_def by blast
qed

theorem control_requests_exclusive_witness:
  "\<not> (NScanBusy sample_up \<and> NRadioBusy sample_up) \<and> scan_report_wf (NScanReport sample_up)"
  using control_requests_exclusive [OF sample_init sample_run] by simp



lemma CywScanEvent_safe:
  assumes "n \<le> length p"
  shows "\<exists>N'. CywScanEvent st p n N = Some N' \<and> NAuthorized N' = NAuthorized N \<and> NAssociated N' = NAssociated N"
proof -
  obtain c eo where "CywScanParsePartial p n (NScanSyncId N) = Some (c, eo)"
    using CywScanParsePartial_spec [OF assms, of "NScanSyncId N"] by blast
  moreover have "\<exists>v. CywScanU32 p 0 = Some v" if "12 \<le> n" using CywScanU32_safe [of 0 p] assms that by simp
  ultimately show ?thesis using assms by (auto simp: CywScanEvent_def split: option.split)
qed

lemma CywLinkEvent_flags:
  "NAuthorized (CywLinkEvent now t st f r N) \<Longrightarrow> NAuthorized N \<or> t = 46 \<and> st = 6 \<and> r = 0"
  by (auto simp: CywLinkEvent_def CywLinkFlags_def Let_def split: if_splits)

lemma CywEvent_closed:
  assumes "n \<le> length p"
  shows "\<exists>N'. CywEvent now p n N = Some N' \<and>
    (NAuthorized N' \<and> \<not> NAuthorized N \<longrightarrow>
      (\<exists>msg. CywBe32 p (msg + 4) = Some 46 \<and> CywBe32 p (msg + 8) = Some 6 \<and> CywBe32 p (msg + 12) = Some 0))"
proof (cases "n < 4 \<or> n < 76 + unat (p ! 3) * 4")
  case True
  then have "CywEvent now p n N = Some N"
  proof (cases "n < 4")
    case False
    then have rd: "rd8 p 0 = Some (p ! 0)" "rd8 p 2 = Some (p ! 2)" "rd8 p 3 = Some (p ! 3)"
      using assms by (auto simp: rd8_def)
    show ?thesis using True False by (auto simp: CywEvent_def Let_def csub_def rd)
  qed (simp add: CywEvent_def)
  then show ?thesis by simp
next
  case False
  define m where "m = 28 + unat (p ! 3) * 4"
  have len: "m + 48 \<le> length p" "m + 48 \<le> n" "4 \<le> n" using False assms by (simp_all add: m_def)
  obtain l t st r where w: "CywBe32 p (m + 20) = Some l" "CywBe32 p (m + 4) = Some t"
      "CywBe32 p (m + 8) = Some st" "CywBe32 p (m + 12) = Some r"
    using len CywBe32_Some by fastforce
  have rd: "rd8 p 0 = Some (p ! 0)" "rd8 p 2 = Some (p ! 2)" "rd8 p 3 = Some (p ! 3)" "rd8 p (m + 3) = Some (p ! (m + 3))"
    using len by (auto simp: rd8_def)
  have off: "4 + unat (p ! 3) * 4 = m - 24" "m - 24 + 24 = m" "m - 24 + 72 = m + 48" "\<not> n < m - 24"
      "csub n (m - 24) = Some (n - (m - 24))" "\<not> n - (m - 24) < 72" "csub (n - (m - 24)) 72 = Some (n - (m + 48))"
    using len(2) by (simp_all add: m_def csub_def)
  have rdn: "rdn p (m - 24 + 12) 2 = Some (sub_bytes p (m - 24 + 12) 2)" "rdn p (m - 24 + 19) 5 = Some (sub_bytes p (m - 24 + 19) 5)"
    using len by (simp_all add: rdn_def)
  have pay: "rdn p (m + 48) (unat l) = Some (sub_bytes p (m + 48) (unat l))" "unat l \<le> length (sub_bytes p (m + 48) (unat l))"
    if "\<not> n - (m + 48) < unat l"
    using that len assms by (simp_all add: rdn_def)
  have dec: "CywEvent now p n N =
    (if drop_bit 4 (p ! 0) \<noteq> 2 \<or> p ! 2 AND 15 \<noteq> 0 then Some N
     else if sub_bytes p (m - 24 + 12) 2 \<noteq> [0x88, 0x6c] \<or> sub_bytes p (m - 24 + 19) 5 \<noteq> [0, 0x10, 0x18, 0, 1] then Some N
     else if n - (m + 48) < unat l then Some N
     else if t = 69 then CywScanEvent st (sub_bytes p (m + 48) (unat l)) (unat l) N
     else Some (CywLinkEvent now t st (p ! (m + 3)) r N))"
    unfolding CywEvent_def rd Option.bind.bind_lunit Let_def off rdn w if_not_P [OF len(3) [unfolded not_less [symmetric]]]
    using off(4,6) pay(1) by (simp cong del: if_weak_cong)
  consider "CywEvent now p n N = Some N"
    | "CywEvent now p n N = CywScanEvent st (sub_bytes p (m + 48) (unat l)) (unat l) N" "\<not> n - (m + 48) < unat l"
    | "CywEvent now p n N = Some (CywLinkEvent now t st (p ! (m + 3)) r N)"
    unfolding dec by presburger
  then show ?thesis
  proof cases
    case 2
    then show ?thesis using CywScanEvent_safe [OF pay(2)] by fastforce
  next
    case 3
    then show ?thesis using CywLinkEvent_flags [of now t st "p ! (m + 3)" r N] w by auto
  qed simp
qed



lemma scan_next_generation: "(if (g :: u32) + 1 = 0 then 1 else g + 1) \<noteq> g" "(if g + 1 = 0 then 1 else g + 1) \<noteq> (0 :: u32)"
  by (auto simp: add_eq_0_iff)

lemma ScanAdmit_success:
  assumes "ScanAdmit c0 c1 N = (0, N')"
  shows "NReady N" "NRequest N = 0" "\<not> NControlBusy N" "\<not> NScanBusy N" "\<not> NAssociated N" "\<not> NAuthorized N"
    "SrGeneration (NScanReport N') = (if SrGeneration (NScanReport N) + 1 = 0 then 1 else SrGeneration (NScanReport N) + 1)"
  using assms by (auto simp: ScanAdmit_def Let_def split: if_splits)

text \<open>
  C22 (functional).  A scan is only accepted on a ready, idle and disconnected adapter; it gets a fresh nonzero
  generation, so a late cancellation that names the previous scan is refused and leaves the new one untouched.
\<close>

theorem scan_start_outdates_old_cancel:
  assumes "CywScanControl IoctlScanStart b 8 outLen N = Some (STATUS_SUCCESS, k, report, N')"
    and "CywLe32 c 0 = Some (SrGeneration (NScanReport N))"
  shows "NReady N \<and> NRequest N = 0 \<and> \<not> NControlBusy N \<and> \<not> NScanBusy N \<and> \<not> NAssociated N \<and> \<not> NAuthorized N \<and>
    SrGeneration (NScanReport N') \<noteq> 0 \<and>
    CywScanControl IoctlScanCancel c 4 outLen N' = Some (STATUS_INVALID_PARAMETER, 0, None, N')"
proof -
  obtain c0 c1 where a: "ScanAdmit c0 c1 N = (0, N')"
    using assms(1) by (auto simp: CywScanControl_def bind_eq_Some_conv split: if_splits prod.splits)
  note g = ScanAdmit_success [OF a]
  have "SrGeneration (NScanReport N') \<noteq> SrGeneration (NScanReport N)" "SrGeneration (NScanReport N') \<noteq> 0"
    unfolding g(7) by (rule scan_next_generation)+
  then show ?thesis using g assms(2) by (simp add: CywScanControl_def)
qed

definition sample_idle :: net where
  "sample_idle = (WorkerReady sample_net)\<lparr>NPaused := False, ANetworkPhase := 500\<rparr>"

theorem scan_start_outdates_old_cancel_witness:
  "\<exists>N'. CywScanControl IoctlScanStart [1, 0, 0, 0, 68, 69, 0, 0] 8 0 sample_idle = Some (STATUS_SUCCESS, 0, None, N') \<and>
    SrGeneration (NScanReport N') \<noteq> 0 \<and>
    CywScanControl IoctlScanCancel [0, 0, 0, 0] 4 0 N' = Some (STATUS_INVALID_PARAMETER, 0, None, N')"
proof -
  have c: "CywLe32 [0, 0, 0, 0] 0 = Some (SrGeneration (NScanReport sample_idle))"
    by (simp add: CywLe32_def rd8_def le32_def sample_idle_def WorkerReady_def CywRefreshTxGate_def sample_net_def zero_report_def)
  obtain N' where s: "CywScanControl IoctlScanStart [1, 0, 0, 0, 68, 69, 0, 0] 8 0 sample_idle = Some (STATUS_SUCCESS, 0, None, N')"
    by (simp add: CywScanControl_def ScanStartValid_def CywLe32_def rd8_def le32_def ScanAdmit_def sample_idle_def
        WorkerReady_def CywRefreshTxGate_def sample_net_def zero_report_def)
  show ?thesis using s scan_start_outdates_old_cancel [OF s c] by blast
qed

end
