(* ===== verification/Packet_Probe.thy ===== *)
theory Packet_Probe
  imports Wire_Protocol
begin

text \<open>
  The passive packet probe (\<open>cyw43455/packet_probe.h\<close>): the Internet checksum \<open>CywSum\<close> and
  \<open>CywProbePacket\<close>, which checks IPv4 frames of either direction and times ICMP echoes with a ring of
  32 slots.  Counters are 32-bit words and wrap.  \<open>None\<close> is a read outside of the frame.
\<close>

record CYW_ECHO_SLOT =
  EsSource :: u32
  EsDestination :: u32
  EsKey :: u32
  EsSent :: u64
  EsActive :: bool

record CYW_PACKET_PROBE =
  PpTxIpBad :: u32
  PpRxIpBad :: u32
  PpTxTransportBad :: u32
  PpRxTransportBad :: u32
  PpRxMalformed :: u32
  PpRxFragment :: u32
  PpRxUdpNoChecksum :: u32
  PpTxEcho :: u32
  PpRxEchoRequest :: u32
  PpRxEchoReply :: u32
  PpRxEchoMatched :: u32
  PpRxEchoUnmatched :: u32
  PpEchoLate :: u32
  PpEchoMaxMs :: u32
  PpEchoEvicted :: u32
  PpNext :: u32
  PpRxIcmpUnreachable :: u32
  PpRxIcmpOther :: u32
  PpEcho :: "CYW_ECHO_SLOT list"

section \<open>The Internet checksum\<close>

fun SumLoop :: "bytes \<Rightarrow> nat \<Rightarrow> nat \<Rightarrow> u32 \<Rightarrow> u32 option" where
  "SumLoop p off 0 s = Some s"
| "SumLoop p off (Suc 0) s = do { a \<leftarrow> rd8 p off; Some (s + push_bit 8 (ucast a)) }"
| "SumLoop p off (Suc (Suc n)) s = do {
     a \<leftarrow> rd8 p off;
     b \<leftarrow> rd8 p (off + 1);
     SumLoop p (off + 2) n (s + (push_bit 8 (ucast a) OR ucast b)) }"

lemma fold_decreases:
  fixes s :: u32
  assumes "drop_bit 16 s \<noteq> 0"
  shows "unat ((s AND 65535) + drop_bit 16 s) = unat s mod 65536 + unat s div 65536"
    and "unat s mod 65536 + unat s div 65536 < unat s"
proof -
  have m: "unat (s AND 65535) = unat s mod 65536"
  proof -
    have "s AND 65535 = take_bit 16 s" by (simp add: take_bit_eq_mask mask_eq_exp_minus_1)
    then show ?thesis by (simp add: unsigned_take_bit_eq take_bit_nat_def)
  qed
  have d: "unat (drop_bit 16 s) = unat s div 65536"
    by (simp add: unat_drop_bit_eq drop_bit_nat_def)
  have lt: "unat s < 4294967296" by simp
  have "unat s div 65536 < 65536" using less_mult_imp_div_less [of "unat s" 65536 65536] lt by simp
  moreover have "unat s mod 65536 < 65536" by simp
  ultimately show "unat ((s AND 65535) + drop_bit 16 s) = unat s mod 65536 + unat s div 65536"
    by (subst unat_add_no_wrap) (simp_all add: m d del: mod_less_divisor)
  have "unat s div 65536 \<noteq> 0" using assms d by (metis unat_eq_0)
  then show "unat s mod 65536 + unat s div 65536 < unat s"
    using div_mult_mod_eq [of "unat s" 65536] by linarith
qed

function CywFold :: "u32 \<Rightarrow> u32" where
  "CywFold s = (if drop_bit 16 s \<noteq> 0 then CywFold ((s AND 65535) + drop_bit 16 s) else s)"
  by pat_completeness auto
termination
  by (relation "measure unat") (simp_all add: fold_decreases)

declare CywFold.simps [simp del]

definition CywSum :: "bytes \<Rightarrow> nat \<Rightarrow> nat \<Rightarrow> u32 \<Rightarrow> u32 option" where
  "CywSum p off n s = map_option CywFold (SumLoop p off n s)"

section \<open>Echo slots\<close>

definition EchoIs :: "u32 \<Rightarrow> u32 \<Rightarrow> u32 \<Rightarrow> CYW_ECHO_SLOT \<Rightarrow> bool" where
  "EchoIs src dst key s \<longleftrightarrow> EsActive s \<and> EsSource s = src \<and> EsDestination s = dst \<and> EsKey s = key"

text \<open>A transmitted echo request: forget an equal outstanding one, then reuse the next slot of the ring.\<close>

definition ProbeTxEcho :: "CYW_PACKET_PROBE \<Rightarrow> u32 \<Rightarrow> u32 \<Rightarrow> u32 \<Rightarrow> u64 \<Rightarrow> CYW_PACKET_PROBE" where
  "ProbeTxEcho d src dst key now =
    (let slot = unat (PpNext d) mod 32;
         echo = map (\<lambda>s. if EchoIs src dst key s then s\<lparr>EsActive := False\<rparr> else s) (PpEcho d);
         evicted = EsActive (echo ! slot)
     in d\<lparr>PpNext := PpNext d + 1,
          PpEcho := echo[slot := \<lparr>EsSource = src, EsDestination = dst, EsKey = key, EsSent = now, EsActive = True\<rparr>],
          PpEchoEvicted := (if evicted then PpEchoEvicted d + 1 else PpEchoEvicted d),
          PpTxEcho := PpTxEcho d + 1\<rparr>)"

text \<open>The search for the request of a received reply, from slot \<open>i\<close> on.\<close>

function ProbeMatch :: "CYW_PACKET_PROBE \<Rightarrow> u32 \<Rightarrow> u32 \<Rightarrow> u32 \<Rightarrow> u64 \<Rightarrow> nat \<Rightarrow> CYW_PACKET_PROBE" where
  "ProbeMatch d src dst key now i =
    (if i < 32 then
       let s = PpEcho d ! i in
       if EchoIs dst src key s then
         if now < EsSent s then d\<lparr>PpRxEchoUnmatched := PpRxEchoUnmatched d + 1\<rparr>
         else
           let ms = (now - EsSent s) div 10000 in
           d\<lparr>PpEcho := (PpEcho d)[i := s\<lparr>EsActive := False\<rparr>],
             PpRxEchoMatched := PpRxEchoMatched d + 1,
             PpEchoLate := (if ms \<ge> 1000 then PpEchoLate d + 1 else PpEchoLate d),
             PpEchoMaxMs := (if ms > ucast (PpEchoMaxMs d)
               then (if ms > 0xffffffff then 0xffffffff else ucast ms) else PpEchoMaxMs d)\<rparr>
       else ProbeMatch d src dst key now (i + 1)
     else d\<lparr>PpRxEchoUnmatched := PpRxEchoUnmatched d + 1\<rparr>)"
  by pat_completeness auto
termination
  by (relation "measure (\<lambda>(d, src, dst, key, now, i). 32 - i)") auto

declare ProbeMatch.simps [simp del]

definition ProbeIcmp :: "CYW_PACKET_PROBE \<Rightarrow> bytes \<Rightarrow> nat \<Rightarrow> nat \<Rightarrow> bool \<Rightarrow> u64 \<Rightarrow> CYW_PACKET_PROBE option" where
  "ProbeIcmp d p ip body transmit now = do {
     b0 \<leftarrow> rd8 p body;
     if \<not> transmit \<and> b0 = 3 then Some (d\<lparr>PpRxIcmpUnreachable := PpRxIcmpUnreachable d + 1\<rparr>) else do {
     b1 \<leftarrow> rd8 p (body + 1);
     if b1 \<noteq> 0 \<or> (b0 \<noteq> 0 \<and> b0 \<noteq> 8)
     then Some (if transmit then d else d\<lparr>PpRxIcmpOther := PpRxIcmpOther d + 1\<rparr>)
     else do {
       key \<leftarrow> CywBe32 p (body + 4);
       src \<leftarrow> CywBe32 p (ip + 12);
       dst \<leftarrow> CywBe32 p (ip + 16);
       Some (if transmit \<and> b0 = 8 then ProbeTxEcho d src dst key now
             else if \<not> transmit \<and> b0 = 8 then d\<lparr>PpRxEchoRequest := PpRxEchoRequest d + 1\<rparr>
             else if \<not> transmit \<and> b0 = 0
             then ProbeMatch (d\<lparr>PpRxEchoReply := PpRxEchoReply d + 1\<rparr>) src dst key now 0
             else d) }}}"

definition ProbeMalformed :: "CYW_PACKET_PROBE \<Rightarrow> bool \<Rightarrow> CYW_PACKET_PROBE" where
  "ProbeMalformed d transmit = (if transmit then d else d\<lparr>PpRxMalformed := PpRxMalformed d + 1\<rparr>)"

text \<open>The length checks of the three transport protocols.\<close>

definition ProbeBadLength :: "bytes \<Rightarrow> nat \<Rightarrow> u8 \<Rightarrow> nat \<Rightarrow> bool option" where
  "ProbeBadLength p body protocol length' =
    (if protocol = 1 then Some (length' < 8)
     else if protocol = 6 then
       if length' < 20 then Some True
       else do { b \<leftarrow> rd8 p (body + 12);
                 Some (unat (drop_bit 4 b) * 4 < 20 \<or> unat (drop_bit 4 b) * 4 > length') }
     else if protocol = 17 then
       if length' < 8 then Some True
       else do { a \<leftarrow> rd8 p (body + 4); b \<leftarrow> rd8 p (body + 5); Some (256 * unat a + unat b \<noteq> length') }
     else Some False)"

definition ProbeTransport :: "CYW_PACKET_PROBE \<Rightarrow> bytes \<Rightarrow> nat \<Rightarrow> nat \<Rightarrow> u8 \<Rightarrow> nat \<Rightarrow> bool \<Rightarrow> bool \<Rightarrow> u64 \<Rightarrow>
    CYW_PACKET_PROBE option" where
  "ProbeTransport d p ip body protocol length' transmit valid now = do {
     s \<leftarrow> (if protocol = 1 then Some 0
           else CywSum p (ip + 12) 8 (word_of_nat length' + ucast protocol));
     t \<leftarrow> CywSum p body length' s;
     let bad = (t \<noteq> 65535);
         d = (if bad then if transmit then d\<lparr>PpTxTransportBad := PpTxTransportBad d + 1\<rparr>
                          else d\<lparr>PpRxTransportBad := PpRxTransportBad d + 1\<rparr> else d) in
     if protocol \<noteq> 1 \<or> \<not> valid \<or> bad then Some d
     else ProbeIcmp d p ip body transmit now }"

text \<open>A UDP datagram may come without a checksum.\<close>

definition ProbeNoChecksum :: "bytes \<Rightarrow> nat \<Rightarrow> u8 \<Rightarrow> bool option" where
  "ProbeNoChecksum p body protocol =
    (if protocol = 17 then do { a \<leftarrow> rd8 p (body + 6); b \<leftarrow> rd8 p (body + 7); Some (a = 0 \<and> b = 0) }
     else Some False)"

definition ProbeIpBody :: "CYW_PACKET_PROBE \<Rightarrow> bytes \<Rightarrow> nat \<Rightarrow> nat \<Rightarrow> bool \<Rightarrow> bool \<Rightarrow> u64 \<Rightarrow> CYW_PACKET_PROBE option" where
  "ProbeIpBody d p ihl tot valid transmit now = do {
     protocol \<leftarrow> rd8 p (14 + 9);
     length' \<leftarrow> csub tot ihl;
     bad \<leftarrow> ProbeBadLength p (14 + ihl) protocol length';
     if bad then Some (ProbeMalformed d transmit)
     else if protocol \<noteq> 1 \<and> protocol \<noteq> 6 \<and> protocol \<noteq> 17 then Some d else do {
     nosum \<leftarrow> ProbeNoChecksum p (14 + ihl) protocol;
     if nosum then Some (if transmit then d else d\<lparr>PpRxUdpNoChecksum := PpRxUdpNoChecksum d + 1\<rparr>)
     else ProbeTransport d p 14 (14 + ihl) protocol length' transmit valid now }}"

definition ProbeIp :: "CYW_PACKET_PROBE \<Rightarrow> bytes \<Rightarrow> nat \<Rightarrow> nat \<Rightarrow> bool \<Rightarrow> u64 \<Rightarrow> CYW_PACKET_PROBE option" where
  "ProbeIp d p ihl tot transmit now = do {
     hs \<leftarrow> CywSum p 14 ihl 0;
     let valid = (hs = 65535);
         d = (if valid then d else if transmit then d\<lparr>PpTxIpBad := PpTxIpBad d + 1\<rparr>
              else d\<lparr>PpRxIpBad := PpRxIpBad d + 1\<rparr>) in do {
     f6 \<leftarrow> rd8 p (14 + 6);
     f7 \<leftarrow> rd8 p (14 + 7);
     if f6 AND 0x3f \<noteq> 0 \<or> f7 \<noteq> 0
     then Some (if transmit then d else d\<lparr>PpRxFragment := PpRxFragment d + 1\<rparr>)
     else ProbeIpBody d p ihl tot valid transmit now }}"

definition CywProbePacket :: "CYW_PACKET_PROBE \<Rightarrow> bytes \<Rightarrow> nat \<Rightarrow> bool \<Rightarrow> u64 \<Rightarrow> CYW_PACKET_PROBE option" where
  "CywProbePacket d p n transmit now =
    (if n < 14 then Some d else do {
       t0 \<leftarrow> rd8 p 12;
       t1 \<leftarrow> rd8 p 13;
       if t0 \<noteq> 8 \<or> t1 \<noteq> 0 then Some d
       else if n < 34 then Some (ProbeMalformed d transmit) else do {
       v \<leftarrow> rd8 p 14;
       if drop_bit 4 v \<noteq> 4 then Some (ProbeMalformed d transmit) else do {
       t2 \<leftarrow> rd8 p (14 + 2);
       t3 \<leftarrow> rd8 p (14 + 3);
       room \<leftarrow> csub n 14;
       let ihl = unat (v AND 15) * 4; tot = 256 * unat t2 + unat t3 in
       if ihl < 20 \<or> ihl > room \<or> tot < ihl \<or> tot > room then Some (ProbeMalformed d transmit)
       else ProbeIp d p ihl tot transmit now }}})"

section \<open>The checksum is the one's complement sum\<close>

text \<open>The sum of the big-endian 16-bit words of \<open>n\<close> bytes, an odd last byte padded with zero.\<close>

fun be_word_sum :: "bytes \<Rightarrow> nat" where
  "be_word_sum [] = 0"
| "be_word_sum [a] = 256 * unat a"
| "be_word_sum (a # b # xs) = 256 * unat a + unat b + be_word_sum xs"

lemma be_word_sum_le: "be_word_sum xs \<le> 65535 * ((length xs + 1) div 2)"
proof (induction xs rule: be_word_sum.induct)
  case (2 a)
  then show ?case using unat_u8_le [of a] by (simp del: unat_u8_le)
next
  case (3 a b xs)
  then show ?case using unat_u8_le [of a] unat_u8_le [of b] by (simp del: unat_u8_le)
qed simp

lemma unat_be_word: "unat (push_bit 8 (ucast (a :: u8)) OR ucast (b :: u8) :: u32) = 256 * unat a + unat b"
proof -
  have "unat (push_bit 8 (ucast a) OR ucast b :: u32) = unat b OR push_bit 8 (unat a)"
    by (simp add: unsigned_or_eq unat_push_bit_u8 unsigned_ucast_eq or.commute)
  then show ?thesis using or_push_bit_add [of "unat b" 8 "unat a"] by simp
qed

lemma unat_high_byte: "unat (push_bit 8 (ucast (a :: u8)) :: u32) = 256 * unat a"
  by (simp add: unat_push_bit_u8 push_bit_nat_def mult.commute)

lemma sub_bytes_cons2:
  assumes "off + Suc (Suc n) \<le> length p"
  shows "sub_bytes p off (Suc (Suc n)) = p ! off # p ! Suc off # sub_bytes p (off + 2) n"
proof -
  have "drop off p = p ! off # p ! Suc off # drop (off + 2) p"
    using assms by (simp add: Cons_nth_drop_Suc)
  then show ?thesis by (simp add: sub_bytes_def)
qed

lemma SumLoop_spec:
  assumes "off + n \<le> length p" "unat s + be_word_sum (sub_bytes p off n) < 4294967296"
  shows "\<exists>r. SumLoop p off n s = Some r \<and> unat r = unat s + be_word_sum (sub_bytes p off n)"
  using assms
proof (induction p off n s rule: SumLoop.induct)
  case (1 p off s)
  then show ?case by (simp add: sub_bytes_def)
next
  case (2 p off s)
  have e: "sub_bytes p off (Suc 0) = [p ! off]"
    using 2 by (simp add: sub_bytes_def take_Suc_conv_app_nth)
  then show ?case
    using 2 unat_add_no_wrap [of s "push_bit 8 (ucast (p ! off))"] by (simp add: rd8_def unat_high_byte)
next
  case (3 p off n s)
  note e = sub_bytes_cons2 [OF 3(2)]
  have u: "unat (s + (push_bit 8 (ucast (p ! off)) OR ucast (p ! Suc off))) =
      unat s + (256 * unat (p ! off) + unat (p ! Suc off))"
    using 3(3) unat_add_no_wrap [of s "push_bit 8 (ucast (p ! off)) OR ucast (p ! Suc off)"]
    by (simp add: e unat_be_word)
  have "\<exists>r. SumLoop p (off + 2) n (s + (push_bit 8 (ucast (p ! off)) OR ucast (p ! Suc off))) = Some r \<and>
      unat r = unat (s + (push_bit 8 (ucast (p ! off)) OR ucast (p ! Suc off))) + be_word_sum (sub_bytes p (off + 2) n)"
    by (rule 3(1)) (use 3(2,3) in \<open>simp_all add: rd8_def e u add.assoc\<close>)
  then show ?case using 3(2) by (auto simp: rd8_def e u add.assoc)
qed

lemma CywFold_spec: "unat (CywFold s) \<le> 65535 \<and> unat (CywFold s) mod 65535 = unat s mod 65535 \<and> (CywFold s = 0 \<longleftrightarrow> s = 0)"
proof (induction s rule: CywFold.induct)
  case (1 s)
  show ?case
  proof (cases "drop_bit 16 s = 0")
    case True
    have "unat (drop_bit 16 s) = 0" using True by simp
    then have "unat s div 65536 = 0" by (simp add: unat_drop_bit_eq drop_bit_nat_def)
    then have "unat s < 65536" using div_eq_0_iff [of "unat s" 65536] by (simp del: unat_u32_less)
    then show ?thesis using True by (subst (1 2 3) CywFold.simps) simp
  next
    case False
    let ?t = "(s AND 65535) + drop_bit 16 s"
    have u: "unat ?t = unat s mod 65536 + unat s div 65536" by (rule fold_decreases(1) [OF False])
    have d: "unat s = 65535 * (unat s div 65536) + (unat s mod 65536 + unat s div 65536)"
      using div_mult_mod_eq [of "unat s" 65536] by linarith
    have "unat s mod 65535 = (65535 * (unat s div 65536) + (unat s mod 65536 + unat s div 65536)) mod 65535"
      using d by simp
    then have m: "unat ?t mod 65535 = unat s mod 65535" unfolding u by (metis mod_mult_self4)
    have "?t = 0 \<longleftrightarrow> s = 0"
      using u d by (metis add_is_0 div_0 mod_0 unat_0 unat_eq_0 mult_0_right)
    with 1 [OF False] m show ?thesis using False by (subst (1 2 3) CywFold.simps) simp
  qed
qed

text \<open>
  C17 (functional).  \<open>CywSum\<close> computes the one's complement sum of RFC 1071: over at most 65535 bytes, the
  result has 16 bits, is congruent to the sum of the big-endian words modulo 65535, and is zero only if
  every word is.  So the test against 65535 accepts exactly the data whose sum is a nonzero multiple
  of 65535.
\<close>

theorem CywSum_ones_complement:
  assumes "off + n \<le> length p" "n \<le> 65535" "unat s \<le> 131072"
  shows "\<exists>r. CywSum p off n s = Some r \<and> unat r \<le> 65535 \<and>
    unat r mod 65535 = (unat s + be_word_sum (sub_bytes p off n)) mod 65535 \<and>
    (r = 65535 \<longleftrightarrow> 65535 dvd (unat s + be_word_sum (sub_bytes p off n)) \<and>
       0 < unat s + be_word_sum (sub_bytes p off n))"
proof -
  have "be_word_sum (sub_bytes p off n) \<le> 65535 * ((n + 1) div 2)"
    using be_word_sum_le [of "sub_bytes p off n"] assms by simp
  also have "\<dots> \<le> 65535 * 32768" using assms by (intro mult_le_mono2) simp
  finally have "unat s + be_word_sum (sub_bytes p off n) < 4294967296" using assms by simp
  then obtain t where t: "SumLoop p off n s = Some t" "unat t = unat s + be_word_sum (sub_bytes p off n)"
    using SumLoop_spec assms by blast
  let ?r = "CywFold t"
  have r: "unat ?r \<le> 65535" "unat ?r mod 65535 = unat t mod 65535" "?r = 0 \<longleftrightarrow> t = 0"
    using CywFold_spec [of t] by auto
  have "?r = 65535 \<longleftrightarrow> unat ?r = 65535" by (simp add: word_unat_eq_iff)
  also have "\<dots> \<longleftrightarrow> unat ?r mod 65535 = 0 \<and> unat ?r \<noteq> 0"
  proof
    assume a: "unat ?r mod 65535 = 0 \<and> unat ?r \<noteq> 0"
    then have "\<not> unat ?r < 65535" by (auto simp: mod_less)
    with r(1) show "unat ?r = 65535" by simp
  qed simp
  also have "\<dots> \<longleftrightarrow> 65535 dvd unat t \<and> 0 < unat t"
    using r by (auto simp: dvd_eq_mod_eq_0 unat_gt_0)
  finally show ?thesis using r t by (auto simp: CywSum_def)
qed

theorem CywSum_ones_complement_witness:
  "\<exists>r. CywSum [0x45, 0, 0xBA, 0xFF] 0 4 0 = Some r \<and> (r = 65535) = (65535 dvd be_word_sum [0x45, 0, 0xBA, 0xFF])"
  using CywSum_ones_complement [of 0 4 "[0x45, 0, 0xBA, 0xFF]" 0] by (auto simp: sub_bytes_def)

section \<open>The echo ring\<close>

definition echo_id :: "CYW_ECHO_SLOT \<Rightarrow> u32 \<times> u32 \<times> u32" where
  "echo_id s = (EsSource s, EsDestination s, EsKey s)"

text \<open>
  The ring has 32 slots, no echo is outstanding twice, and every received reply was counted as
  matched or as unmatched.
\<close>

definition probe_inv :: "CYW_PACKET_PROBE \<Rightarrow> bool" where
  "probe_inv d \<longleftrightarrow> length (PpEcho d) = 32 \<and> PpRxEchoReply d = PpRxEchoMatched d + PpRxEchoUnmatched d \<and>
     (\<forall>i < 32. \<forall>j < 32. EsActive (PpEcho d ! i) \<and> EsActive (PpEcho d ! j) \<and>
        echo_id (PpEcho d ! i) = echo_id (PpEcho d ! j) \<longrightarrow> i = j)"

lemma probe_inv_cong:
  assumes "probe_inv d" "PpEcho d' = PpEcho d"
    "PpRxEchoReply d' = PpRxEchoReply d" "PpRxEchoMatched d' = PpRxEchoMatched d"
    "PpRxEchoUnmatched d' = PpRxEchoUnmatched d"
  shows "probe_inv d'"
  using assms by (simp add: probe_inv_def)

lemma EchoIs_iff: "EchoIs src dst key s \<longleftrightarrow> EsActive s \<and> echo_id s = (src, dst, key)"
  by (auto simp: EchoIs_def echo_id_def)

lemma ProbeTxEcho_inv:
  assumes "probe_inv d"
  shows "probe_inv (ProbeTxEcho d src dst key now)"
proof -
  define slot where "slot = unat (PpNext d) mod 32"
  define echo where "echo = map (\<lambda>s. if EchoIs src dst key s then s\<lparr>EsActive := False\<rparr> else s) (PpEcho d)"
  define new where "new = \<lparr>EsSource = src, EsDestination = dst, EsKey = key, EsSent = now, EsActive = True\<rparr>"
  have len: "length echo = 32" "slot < 32" using assms by (auto simp: echo_def slot_def probe_inv_def)
  have old: "echo_id (echo ! i) \<noteq> echo_id new" if "EsActive (echo ! i)" "i < 32" for i
    using that assms by (auto simp: echo_def probe_inv_def EchoIs_iff new_def echo_id_def split: if_splits)
  have uniq: "i = j" if "EsActive (echo ! i)" "EsActive (echo ! j)" "echo_id (echo ! i) = echo_id (echo ! j)"
      "i < 32" "j < 32" for i j
    using that assms by (auto simp: echo_def probe_inv_def split: if_splits)
  have "i = j" if "EsActive (echo[slot := new] ! i)" "EsActive (echo[slot := new] ! j)"
      "echo_id (echo[slot := new] ! i) = echo_id (echo[slot := new] ! j)" "i < 32" "j < 32" for i j
    using that len old uniq by (metis nth_list_update)
  then show ?thesis
    using assms len by (simp add: ProbeTxEcho_def Let_def probe_inv_def slot_def [symmetric]
        echo_def [symmetric] new_def [symmetric])
qed

lemma ProbeMatch_inv:
  assumes "probe_inv (d\<lparr>PpRxEchoReply := r\<rparr>)" "PpRxEchoReply d = r + 1"
  shows "probe_inv (ProbeMatch d src dst key now i)"
  using assms
proof (induction "32 - i" arbitrary: i)
  case 0
  then show ?case by (subst ProbeMatch.simps) (simp add: probe_inv_def)
next
  case (Suc k)
  show ?case
  proof (cases "EchoIs dst src key (PpEcho d ! i)")
    case True
    let ?s = "PpEcho d ! i"
    have uniq: "a = b" if "a < 32" "b < 32" "EsActive ((PpEcho d)[i := ?s\<lparr>EsActive := False\<rparr>] ! a)"
        "EsActive ((PpEcho d)[i := ?s\<lparr>EsActive := False\<rparr>] ! b)"
        "echo_id ((PpEcho d)[i := ?s\<lparr>EsActive := False\<rparr>] ! a) = echo_id ((PpEcho d)[i := ?s\<lparr>EsActive := False\<rparr>] ! b)"
      for a b
    proof -
      have "i < length (PpEcho d)" using Suc.hyps(2) Suc.prems(1) by (simp add: probe_inv_def)
      then have "a \<noteq> i" "b \<noteq> i" using that(3,4) by auto
      with that Suc.prems(1) show ?thesis by (simp add: probe_inv_def)
    qed
    show ?thesis
      using True Suc uniq by (subst ProbeMatch.simps) (simp add: probe_inv_def Let_def del: nth_list_update)
  next
    case False
    have "i < 32" using Suc.hyps(2) by simp
    with False show ?thesis using Suc by (subst ProbeMatch.simps) simp
  qed
qed

lemma ProbeIcmp_inv:
  assumes "probe_inv d" "body + 8 \<le> length p" "ip + 20 \<le> length p"
  shows "\<exists>d'. ProbeIcmp d p ip body transmit now = Some d' \<and> probe_inv d'"
proof -
  have m: "probe_inv (ProbeMatch (d\<lparr>PpRxEchoReply := PpRxEchoReply d + 1\<rparr>) s t k now 0)" for s t k
    by (rule ProbeMatch_inv [where r = "PpRxEchoReply d"]) (use assms in \<open>simp_all add: probe_inv_def\<close>)
  have c: "probe_inv (d\<lparr>PpRxIcmpUnreachable := x\<rparr>)" "probe_inv (d\<lparr>PpRxIcmpOther := x\<rparr>)"
    "probe_inv (d\<lparr>PpRxEchoRequest := x\<rparr>)" for x
    using assms(1) by (auto intro: probe_inv_cong)
  obtain k s t where be: "CywBe32 p (body + 4) = Some k" "CywBe32 p (ip + 12) = Some s" "CywBe32 p (ip + 16) = Some t"
    using assms(2,3) by (auto simp: CywBe32_Some)
  have rd: "rd8 p body = Some (p ! body)" "rd8 p (Suc body) = Some (p ! Suc body)"
    using assms(2) by (auto simp: rd8_def)
  show ?thesis
    using assms(1) by (auto simp: ProbeIcmp_def m c be rd ProbeTxEcho_inv)
qed

lemma CywSum_safe: "off + n \<le> length p \<Longrightarrow> \<exists>r. CywSum p off n s = Some r"
proof -
  have "\<exists>r. SumLoop p off n s = Some r" if "off + n \<le> length p"
    using that by (induction p off n s rule: SumLoop.induct) (auto simp: rd8_def)
  then show "off + n \<le> length p \<Longrightarrow> \<exists>r. CywSum p off n s = Some r" by (auto simp: CywSum_def)
qed

lemma ProbeTransport_inv:
  assumes "probe_inv d" "body + len \<le> length p" "ip + 20 \<le> length p" "protocol = 1 \<Longrightarrow> 8 \<le> len"
  shows "\<exists>d'. ProbeTransport d p ip body protocol len transmit valid now = Some d' \<and> probe_inv d'"
proof -
  have "\<exists>s. (if protocol = 1 then Some 0
      else CywSum p (ip + 12) 8 (word_of_nat len + ucast protocol)) = Some s"
    using CywSum_safe [of "ip + 12" 8 p "word_of_nat len + ucast protocol"] assms(3) by auto
  then obtain s where s: "(if protocol = 1 then Some 0
      else CywSum p (ip + 12) 8 (word_of_nat len + ucast protocol)) = Some s" by blast
  obtain t where t: "CywSum p body len s = Some t" using CywSum_safe assms by blast
  have c: "probe_inv (d\<lparr>PpTxTransportBad := x\<rparr>)" "probe_inv (d\<lparr>PpRxTransportBad := x\<rparr>)" for x
    using assms(1) by (auto intro: probe_inv_cong)
  have "\<exists>d'. ProbeIcmp d p ip body transmit now = Some d' \<and> probe_inv d'" if "protocol = 1"
    by (rule ProbeIcmp_inv) (use assms that in auto)
  then show ?thesis
    using assms(1) s t by (auto simp: ProbeTransport_def Let_def c)
qed

lemma ProbeBadLength_safe:
  assumes "body + len \<le> length p"
  shows "\<exists>bad. ProbeBadLength p body protocol len = Some bad \<and>
    (\<not> bad \<longrightarrow> (protocol = 1 \<longrightarrow> 8 \<le> len) \<and> (protocol = 17 \<longrightarrow> 8 \<le> len))"
  using assms by (auto simp: ProbeBadLength_def rd8_def)

lemma ProbeIpBody_inv:
  assumes "probe_inv d" "14 + tot \<le> length p" "20 \<le> ihl" "ihl \<le> tot"
  shows "\<exists>d'. ProbeIpBody d p ihl tot valid transmit now = Some d' \<and> probe_inv d'"
proof -
  have c: "probe_inv (d\<lparr>PpRxUdpNoChecksum := x\<rparr>)" "probe_inv (ProbeMalformed d transmit)" for x
    using assms(1) by (auto simp: ProbeMalformed_def intro: probe_inv_cong)
  have rd: "rd8 p 23 = Some (p ! 23)" "csub tot ihl = Some (tot - ihl)"
    using assms by (auto simp: rd8_def csub_def)
  have body: "14 + ihl + (tot - ihl) \<le> length p" using assms by simp
  obtain bad where bad: "ProbeBadLength p (14 + ihl) (p ! 23) (tot - ihl) = Some bad"
      "\<not> bad \<Longrightarrow> p ! 23 = 1 \<Longrightarrow> 8 \<le> tot - ihl" "\<not> bad \<Longrightarrow> p ! 23 = 17 \<Longrightarrow> 8 \<le> tot - ihl"
    using ProbeBadLength_safe [OF body, of "p ! 23"] by auto
  show ?thesis
  proof (cases bad)
    case True
    then show ?thesis using bad(1) c by (simp add: ProbeIpBody_def rd)
  next
    case False
    obtain d' where t: "ProbeTransport d p 14 (14 + ihl) (p ! 23) (tot - ihl) transmit valid now = Some d'" "probe_inv d'"
      using ProbeTransport_inv [OF assms(1) body, of 14 "p ! 23" transmit valid now] assms bad(2) False by auto
    have "14 + ihl + 8 \<le> length p" if "p ! 23 = 17" using bad(3) [OF False that] body by linarith
    then have "\<exists>x. ProbeNoChecksum p (14 + ihl) (p ! 23) = Some x"
      by (auto simp: ProbeNoChecksum_def rd8_def)
    then obtain x where "ProbeNoChecksum p (14 + ihl) (p ! 23) = Some x" by blast
    then have "ProbeIpBody d p ihl tot valid transmit now =
        (if p ! 23 \<noteq> 1 \<and> p ! 23 \<noteq> 6 \<and> p ! 23 \<noteq> 17 then Some d
         else if x then Some (if transmit then d else d\<lparr>PpRxUdpNoChecksum := PpRxUdpNoChecksum d + 1\<rparr>) else Some d')"
      using False bad(1) t(1) by (simp add: ProbeIpBody_def rd split del: if_split cong del: if_weak_cong)
    then show ?thesis using c t(2) assms(1) by simp
  qed
qed

lemma ProbeIp_inv:
  assumes "probe_inv d" "14 + tot \<le> length p" "20 \<le> ihl" "ihl \<le> tot"
  shows "\<exists>d'. ProbeIp d p ihl tot transmit now = Some d' \<and> probe_inv d'"
proof -
  obtain hs where hs: "CywSum p 14 ihl 0 = Some hs" using CywSum_safe [of 14 ihl p 0] assms by auto
  define d1 where "d1 = (if hs = 65535 then d else if transmit then d\<lparr>PpTxIpBad := PpTxIpBad d + 1\<rparr>
              else d\<lparr>PpRxIpBad := PpRxIpBad d + 1\<rparr>)"
  have d1: "probe_inv d1" using assms(1) by (auto simp: d1_def intro: probe_inv_cong)
  have c: "probe_inv (d1\<lparr>PpRxFragment := x\<rparr>)" for x using d1 by (auto intro: probe_inv_cong)
  have rd: "rd8 p 20 = Some (p ! 20)" "rd8 p 21 = Some (p ! 21)"
    using assms by (auto simp: rd8_def)
  show ?thesis
    using d1 c ProbeIpBody_inv [OF d1 assms(2-)]
    by (simp add: ProbeIp_def hs Let_def d1_def [symmetric] rd)
qed

lemma CywProbePacket_ok:
  assumes "probe_inv d" "n \<le> length p"
  shows "\<exists>d'. CywProbePacket d p n transmit now = Some d' \<and> probe_inv d'"
proof -
  have mal: "probe_inv (ProbeMalformed d transmit)"
    using assms(1) by (auto simp: ProbeMalformed_def intro: probe_inv_cong)
  show ?thesis
  proof (cases "n < 34")
    case True
    then show ?thesis using assms mal by (auto simp: CywProbePacket_def rd8_def)
  next
    case False
    have rd: "rd8 p 12 = Some (p ! 12)" "rd8 p 13 = Some (p ! 13)" "rd8 p 14 = Some (p ! 14)"
      "rd8 p 16 = Some (p ! 16)" "rd8 p 17 = Some (p ! 17)" "csub n 14 = Some (n - 14)"
      using False assms by (auto simp: rd8_def csub_def)
    define ihl tot where "ihl = unat (p ! 14 AND 15) * 4" and "tot = 256 * unat (p ! 16) + unat (p ! 17)"
    have "\<exists>d'. ProbeIp d p ihl tot transmit now = Some d' \<and> probe_inv d'"
      if "\<not> (ihl < 20 \<or> ihl > n - 14 \<or> tot < ihl \<or> tot > n - 14)"
      by (rule ProbeIp_inv) (use that assms False in auto)
    then show ?thesis
      using assms mal False by (auto simp: CywProbePacket_def rd Let_def ihl_def [symmetric] tot_def [symmetric])
  qed
qed

text \<open>
  C18 (invariant).  The probe reads only the \<open>n\<close> bytes of the frame it is given, whatever their content, and
  keeps the invariant of its ring: 32 slots, no echo request outstanding twice, and received replies
  equal to matched plus unmatched ones.
\<close>

theorem CywProbePacket_inv:
  assumes "probe_inv d" "n \<le> length p"
  shows "\<exists>d'. CywProbePacket d p n transmit now = Some d' \<and> probe_inv d'"
  using assms by (rule CywProbePacket_ok)

definition empty_probe :: CYW_PACKET_PROBE where
  "empty_probe = \<lparr>PpTxIpBad = 0, PpRxIpBad = 0, PpTxTransportBad = 0, PpRxTransportBad = 0, PpRxMalformed = 0,
     PpRxFragment = 0, PpRxUdpNoChecksum = 0, PpTxEcho = 0, PpRxEchoRequest = 0, PpRxEchoReply = 0,
     PpRxEchoMatched = 0, PpRxEchoUnmatched = 0, PpEchoLate = 0, PpEchoMaxMs = 0, PpEchoEvicted = 0, PpNext = 0,
     PpRxIcmpUnreachable = 0, PpRxIcmpOther = 0,
     PpEcho = replicate 32 \<lparr>EsSource = 0, EsDestination = 0, EsKey = 0, EsSent = 0, EsActive = False\<rparr>\<rparr>"

theorem CywProbePacket_inv_witness:
  "\<exists>d'. CywProbePacket empty_probe (replicate 12 0 @ [8, 0, 0x45] @ replicate 60 1) 64 False 5 = Some d' \<and> probe_inv d'"
  by (rule CywProbePacket_inv) (simp_all add: probe_inv_def empty_probe_def)

end
