(* ===== verification/Transport.thy ===== *)
theory Transport
  imports Firmware Rx_Glom Control_Plane Packet_Probe
begin

text \<open>
  The link between host and firmware (\<open>cyw43455/transport_protocol.h\<close>, \<open>transport_service.h\<close>, \<open>transport_poll.h\<close> and
  \<open>CywReceive\<close> of \<open>network.c\<close>): the status service of function 1, and the poll of the receive FIFO that decodes, filters and
  delivers frames.

  The one bus worker owns the record \<open>link\<close>, the rest of the adapter and of \<open>CYW_NETWORK\<close> that this code uses, beside the
  adapter record of the host controller; the fields are grouped as flow control (\<open>tp_flow\<close>), receive sequence (\<open>tp_seq\<close>), service
  counters (\<open>tp_svc\<close>), receive state (\<open>rxd\<close>), transmit state (\<open>txd\<close>), credit diagnostics (\<open>tx_diag\<close>) and the control plane \<open>net\<close>.  \<open>N->Stop\<close> and \<open>IoStopped\<close>
  are read from the world at each use.  \<open>LFault\<close> is set where the C code would access memory outside of a buffer; the
  theorems show that it never is.  What NDIS answers to allocations comes from the record \<open>ndis\<close>, and \<open>RxIndicated\<close> records the
  frames handed to NDIS, most recent first.
\<close>

section \<open>State\<close>

record tp_flow =
  GlobalFlow :: bool
  GlobalBlocked100ns :: u64
  GlobalStarted100ns :: u64
  FcStops :: u32
  PriorityMaskKnown :: bool
  PriorityMask :: u32
  PriorityFlow :: u8
  PriorityBlocked :: bool
  PriorityBlocked100ns :: u64
  PriorityStarted100ns :: u64
  PriorityStops :: u32
  Halted :: bool

record tp_seq =
  SequenceValid :: bool
  SequenceExpected :: u32
  SequenceLast :: u32
  SequenceMismatches :: u32
  SequenceDuplicates :: u32
  SequenceFrames :: u32

record tp_svc =
  LastInterrupt :: u32
  LastMailbox :: u32
  MailboxVersion :: u32
  PendingReads :: u32
  StatusReads :: u32
  StatusAcks :: u32
  FcChanges :: u32
  FcRaces :: u32
  MailReads :: u32
  MailUnknown :: u32
  FirmwareHalts :: u32
  EmptyReads :: u32
  ServiceErrors :: u32
  RxAbortFailures :: u32
  TxStatusChecks :: u32
  LastPending :: u32
  PendingEmpty :: u32
  StatusNoEvents :: u32
  FrameNotifications :: u32
  FallbackReads :: u32
  FallbackFrames :: u32
  FallbackMailbox :: u32
  StatusClockValid :: bool
  LastStatus100ns :: u64

record rxd =
  RxBuffer :: bytes
  RxNextLength :: nat
  RxPending :: bool
  RxBatch :: bool
  RxBatchServiced :: bool
  RxGlom :: CYW_RX_GLOM
  RxGlomEnabled :: bool
  RxReadAhead :: u32
  RxReadAheadRejected :: u32
  RxGlomGroups :: u32
  RxGlomFrames :: u32
  RxGlomErrors :: u32
  RxDropFormat :: u32
  RxDropState :: u32
  RxDropFilter :: u32
  RxUnicastOther :: u32
  RxNoBuffer :: u64
  RxPackets :: u64
  RxDiscards :: u64
  RxErrors :: u64
  RxFilterSnapshot :: u32
  PacketRxWire :: "u32 list"
  PacketRxHost :: "u32 list"
  RxIndicated :: "bytes list"

text \<open>What the host may ask for: its address, the packet filter and the multicast list.\<close>

record rx_filter =
  CurrentMacAddress :: bytes
  PacketFilter :: u32
  MulticastList :: bytes
  MulticastCount :: nat

text \<open>Transmit state, and the frames that went out (\<open>TdWire\<close>, most recent first).  The burst counters are indexed by position, from 2.\<close>

record txd =
  TdGlomEnabled :: bool
  TdGlomAttempts :: u32
  TdGlomChains :: u32
  TdGlomFrames :: u32
  TdGlomBusyFallbacks :: u32
  TdGlomErrors :: u32
  TdGlomPayloadBytes :: u32
  TdGlomPaddedBytes :: u32
  TdExtendedDataSingles :: u32
  TdExtendedControlSingles :: u32
  TdBurstAttempts :: "u32 list"
  TdBurstBusy :: "u32 list"
  TdBurstSuccess :: "u32 list"
  TdBurstErrors :: "u32 list"
  TdBurstSavedStatusChecks :: u32
  TdBurstGrants :: u32
  TdBurstGrantedFollowers :: u32
  TdBurstMaxFollowers :: u32
  PacketTx :: "u32 list"
  TdWire :: "bytes list"

record tx_diag =
  DfF1Calls :: u64
  DfF1Errors :: u64
  DfF1FlowBusy :: u64
  DfF1StatusReads :: u64
  DfF1StatusAcks :: u64
  DfF1MailboxReads :: u64
  DfF1Ticks :: u64
  DfF1MaxTicks :: u64
  DfF2Calls :: u64
  DfF2Errors :: u64
  DfF2PayloadBytes :: u64
  DfF2PaddedBytes :: u64
  DfF2Cmd53Writes :: u64
  DfF2Ticks :: u64
  DfF2MaxTicks :: u64
  DfClockRegressions :: u64
  DfGateLifecycleBlocked :: u64
  DfGateCreditZero :: u64
  DfGateCreditInvalid :: u64
  DfGatePriorityBlocked :: u64
  DfCredit :: CYW_TX_CREDIT

record link =
  LFlow :: tp_flow
  LSeq :: tp_seq
  LSvc :: tp_svc
  LRx :: rxd
  LFilter :: rx_filter
  LNet :: net
  LTraffic :: CYW_TRAFFIC_STATS
  LProbe :: CYW_PACKET_PROBE
  LTx :: txd
  LDiag :: tx_diag
  TxSeq :: u8
  TxMax :: u8
  TxFlow :: u8
  LFault :: bool

record 'w ndis =
  nd_mdl :: "'w \<Rightarrow> bool \<times> 'w"
  nd_nbl :: "'w \<Rightarrow> bool \<times> 'w"
  nd_indicate :: "bytes \<Rightarrow> 'w \<Rightarrow> 'w"

type_synonym ('w, 'a) lnk = "(link \<times> adapter \<times> 'w, 'a) state"

definition bus :: "('w, 'a) drv \<Rightarrow> ('w, 'a) lnk" where
  "bus m = State (\<lambda>(l, s). case run_state m s of (x, t) \<Rightarrow> (x, (l, t)))"

definition lasks :: "(link \<Rightarrow> 'a) \<Rightarrow> ('w, 'a) lnk" where
  "lasks f = State (\<lambda>(l, s). (f l, (l, s)))"

definition lmod :: "(link \<Rightarrow> link) \<Rightarrow> ('w, unit) lnk" where
  "lmod f = State (\<lambda>(l, s). ((), (f l, s)))"

definition flowS :: "(tp_flow \<Rightarrow> tp_flow) \<Rightarrow> ('w, unit) lnk" where
  "flowS f = lmod (\<lambda>l. l\<lparr>LFlow := f (LFlow l)\<rparr>)"

definition seqS :: "(tp_seq \<Rightarrow> tp_seq) \<Rightarrow> ('w, unit) lnk" where
  "seqS f = lmod (\<lambda>l. l\<lparr>LSeq := f (LSeq l)\<rparr>)"

definition svcS :: "(tp_svc \<Rightarrow> tp_svc) \<Rightarrow> ('w, unit) lnk" where
  "svcS f = lmod (\<lambda>l. l\<lparr>LSvc := f (LSvc l)\<rparr>)"

definition rxS :: "(rxd \<Rightarrow> rxd) \<Rightarrow> ('w, unit) lnk" where
  "rxS f = lmod (\<lambda>l. l\<lparr>LRx := f (LRx l)\<rparr>)"

definition txS :: "(txd \<Rightarrow> txd) \<Rightarrow> ('w, unit) lnk" where
  "txS f = lmod (\<lambda>l. l\<lparr>LTx := f (LTx l)\<rparr>)"

definition diagS :: "(tx_diag \<Rightarrow> tx_diag) \<Rightarrow> ('w, unit) lnk" where
  "diagS f = lmod (\<lambda>l. l\<lparr>LDiag := f (LDiag l)\<rparr>)"

definition linkTime :: "'w hw \<Rightarrow> ('w, u64) lnk" where
  "linkTime H = bus (InterruptTime H)"

definition netStop :: "'w hw \<Rightarrow> ('w, bool) lnk" where
  "netStop H = bus (world (hw_netstop H))"

text \<open>A value read from a buffer: outside of it the fault is recorded and the function left.\<close>

definition checked :: "'b \<Rightarrow> 'a option \<Rightarrow> ('a \<Rightarrow> ('w, 'b) lnk) \<Rightarrow> ('w, 'b) lnk" where
  "checked d r k = (case r of None \<Rightarrow> do { lmod (\<lambda>l. l\<lparr>LFault := True\<rparr>); ret d } | Some x \<Rightarrow> k x)"

lemmas link_defs = flowS_def seqS_def svcS_def rxS_def txS_def diagS_def linkTime_def netStop_def

lemma wp_bus [wp_rules]: "wp (bus m) Q s = wp m (\<lambda>x t. Q x (fst s, t)) (snd s)"
  by (cases s) (simp add: bus_def wp_def split: prod.splits)

lemma wp_lasks [wp_rules]: "wp (lasks f) Q s = Q (f (fst s)) s"
  by (cases s) (simp add: lasks_def wp_rules)

lemma wp_lmod [wp_rules]: "wp (lmod f) Q s = Q () (f (fst s), snd s)"
  by (cases s) (simp add: lmod_def wp_rules)

lemma wp_checked [wp_rules]:
  "wp (checked d r k) Q s =
    (case r of None \<Rightarrow> Q d ((fst s)\<lparr>LFault := True\<rparr>, snd s) | Some x \<Rightarrow> wp (k x) Q s)"
  by (cases r) (simp_all add: checked_def wp_rules)

section \<open>Flow control and receive sequence\<close>

definition CywTransportStatusObserved :: "u64 \<Rightarrow> tp_svc \<Rightarrow> tp_svc" where
  "CywTransportStatusObserved now T = T\<lparr>StatusClockValid := True, LastStatus100ns := now\<rparr>"

definition CywTransportFallbackDue :: "u64 \<Rightarrow> tp_svc \<Rightarrow> bool \<times> tp_svc" where
  "CywTransportFallbackDue now T =
    (if \<not> StatusClockValid T \<or> now < LastStatus100ns T then (False, CywTransportStatusObserved now T)
     else (now - LastStatus100ns T \<ge> 1000000, T))"

definition CywTransportAddTicks :: "u64 \<Rightarrow> u64 \<Rightarrow> u64" where
  "CywTransportAddTicks A B = (if NOT 0 - A < B then NOT 0 else A + B)"

definition CywTransportElapsed :: "u64 \<Rightarrow> u64 \<Rightarrow> u64" where
  "CywTransportElapsed start now = (if now \<ge> start then now - start else 0)"

interpretation ticks: saturating_counter CywTransportAddTicks
  by unfold_locales (simp add: CywTransportAddTicks_def)

definition CywTransportSetGlobal :: "bool \<Rightarrow> u64 \<Rightarrow> tp_flow \<Rightarrow> tp_flow" where
  "CywTransportSetGlobal state now T =
    (let T = (if state \<and> \<not> GlobalFlow T then T\<lparr>FcStops := FcStops T + 1, GlobalStarted100ns := now\<rparr> else T);
         T = (if \<not> state \<and> GlobalFlow T
              then T\<lparr>GlobalBlocked100ns := CywTransportAddTicks (GlobalBlocked100ns T)
                       (CywTransportElapsed (GlobalStarted100ns T) now)\<rparr> else T)
     in T\<lparr>GlobalFlow := state\<rparr>)"

definition CywTransportSequence :: "u8 \<Rightarrow> tp_seq \<Rightarrow> tp_seq" where
  "CywTransportSequence seq T =
    (let T = (if SequenceValid T \<and> ucast seq \<noteq> SequenceExpected T
              then T\<lparr>SequenceMismatches := SequenceMismatches T + 1,
                     SequenceDuplicates := (if ucast seq = (SequenceExpected T - 1) AND 255
                       then SequenceDuplicates T + 1 else SequenceDuplicates T)\<rparr>
              else T)
     in T\<lparr>SequenceLast := ucast seq, SequenceExpected := (ucast seq + 1) AND 255, SequenceValid := True,
          SequenceFrames := SequenceFrames T + 1\<rparr>)"

definition CywTransportPriorityAllowed :: "tp_flow \<Rightarrow> u8 \<Rightarrow> bool" where
  "CywTransportPriorityAllowed T flow \<longleftrightarrow>
    (if PriorityMaskKnown T \<and> PriorityMask T \<noteq> 0 \<and> PriorityMask T \<le> 128 \<and> PriorityMask T AND (PriorityMask T - 1) = 0
     then ucast flow AND PriorityMask T = 0 else flow = 0)"

definition CywTransportSetPriority :: "u8 \<Rightarrow> u64 \<Rightarrow> tp_flow \<Rightarrow> tp_flow" where
  "CywTransportSetPriority flow now T =
    (let blocked = (\<not> CywTransportPriorityAllowed T flow);
         T = (if blocked \<and> \<not> PriorityBlocked T then T\<lparr>PriorityStops := PriorityStops T + 1, PriorityStarted100ns := now\<rparr> else T);
         T = (if \<not> blocked \<and> PriorityBlocked T
              then T\<lparr>PriorityBlocked100ns := CywTransportAddTicks (PriorityBlocked100ns T)
                       (CywTransportElapsed (PriorityStarted100ns T) now)\<rparr> else T)
     in T\<lparr>PriorityFlow := flow, PriorityBlocked := blocked\<rparr>)"

definition CywTransportBlockedTicks :: "tp_flow \<Rightarrow> bool \<Rightarrow> u64 \<Rightarrow> u64" where
  "CywTransportBlockedTicks T global now =
    (let total = (if global then GlobalBlocked100ns T else PriorityBlocked100ns T);
         active = (if global then GlobalFlow T else PriorityBlocked T);
         start = (if global then GlobalStarted100ns T else PriorityStarted100ns T)
     in if active then CywTransportAddTicks total (CywTransportElapsed start now) else total)"

section \<open>The service of function 1\<close>

text \<open>\<open>Failed\<close>: no data may be sent after a failed status read or acknowledge.\<close>

definition ServiceFailed :: "'w hw \<Rightarrow> NTSTATUS \<Rightarrow> ('w, NTSTATUS) lnk" where
  "ServiceFailed H st = do {
     svcS (\<lambda>T. T\<lparr>ServiceErrors := ServiceErrors T + 1\<rparr>);
     now \<leftarrow> linkTime H;
     flowS (CywTransportSetGlobal True now);
     ret st }"

definition CoreRegister :: "u32 \<Rightarrow> ('w, u32) lnk" where
  "CoreRegister offset = bus (asks (\<lambda>a. SdioCoreBase (AChip a) + offset))"

definition readCore :: "'w hw \<Rightarrow> u32 \<Rightarrow> (u32 \<Rightarrow> ('w, NTSTATUS) lnk) \<Rightarrow> ('w, NTSTATUS) lnk" where
  "readCore H offset k = do {
     address \<leftarrow> CoreRegister offset;
     (st, v) \<leftarrow> bus (CywBpRead H address);
     if NT_SUCCESS st then k v else ServiceFailed H st }"

definition writeCore :: "'w hw \<Rightarrow> u32 \<Rightarrow> u32 \<Rightarrow> ('w, NTSTATUS) lnk \<Rightarrow> ('w, NTSTATUS) lnk" where
  "writeCore H offset v k = do {
     address \<leftarrow> CoreRegister offset;
     st \<leftarrow> bus (CywBpWrite H address v);
     if NT_SUCCESS st then k else ServiceFailed H st }"

definition StatusObserved :: "'w hw \<Rightarrow> u32 \<Rightarrow> bool \<Rightarrow> ('w, unit) lnk" where
  "StatusObserved H v flow = do {
     now \<leftarrow> linkTime H;
     svcS (\<lambda>T. (CywTransportStatusObserved now T)\<lparr>LastInterrupt := v\<rparr>);
     flowS (CywTransportSetGlobal flow now) }"

text \<open>The mailbox: version, priority flow, a negative acknowledge that still delivers, and the halt of the firmware.\<close>

definition ServiceMail :: "'w hw \<Rightarrow> bool \<Rightarrow> ('w, NTSTATUS) lnk" where
  "ServiceMail H fallback = do {
     svcS (\<lambda>T. T\<lparr>FallbackMailbox := (if fallback then FallbackMailbox T + 1 else FallbackMailbox T), MailReads := MailReads T + 1\<rparr>);
     readCore H 0x4c (\<lambda>mail. do {
     svcS (\<lambda>T. T\<lparr>LastMailbox := mail\<rparr>);
     writeCore H 0x40 2 (do {
     svcS (\<lambda>T. T\<lparr>MailUnknown := (if mail AND NOT 0xffff001f \<noteq> 0 then MailUnknown T + 1 else MailUnknown T),
       MailboxVersion := (if mail AND 0x0a \<noteq> 0 then drop_bit 16 mail AND 255 else MailboxVersion T)\<rparr>);
     (if mail AND 4 \<noteq> 0 then do {
        let flow = ucast (drop_bit 24 mail);
        lmod (\<lambda>l. l\<lparr>TxFlow := flow\<rparr>);
        now \<leftarrow> linkTime H;
        flowS (CywTransportSetPriority flow now) }
      else ret ());
     (if mail AND 1 \<noteq> 0 then rxS (\<lambda>r. r\<lparr>RxPending := True\<rparr>) else ret ());
     if mail AND 0x10 \<noteq> 0 then do {
       flowS (\<lambda>T. T\<lparr>Halted := True\<rparr>);
       svcS (\<lambda>T. T\<lparr>FirmwareHalts := FirmwareHalts T + 1\<rparr>);
       ret STATUS_DEVICE_NOT_READY }
     else ret STATUS_SUCCESS }) }) }"

text \<open>What the accumulated interrupt bits ask for.\<close>

definition ServiceEvents :: "'w hw \<Rightarrow> bool \<Rightarrow> u32 \<Rightarrow> ('w, NTSTATUS) lnk" where
  "ServiceEvents H fallback ist = do {
     (if ist AND 0x40 \<noteq> 0 then do {
        svcS (\<lambda>T. T\<lparr>FrameNotifications := FrameNotifications T + 1,
          FallbackFrames := (if fallback then FallbackFrames T + 1 else FallbackFrames T)\<rparr>);
        rxS (\<lambda>r. r\<lparr>RxPending := True\<rparr>) }
      else ret ());
     if ist AND 0x80 \<noteq> 0 then ServiceMail H fallback else ret STATUS_SUCCESS }"

text \<open>A change of the flow state is acknowledged once more and read again; while it keeps changing, data is stopped.\<close>

definition ServiceFlowChange :: "'w hw \<Rightarrow> u32 \<Rightarrow> (u32 \<Rightarrow> ('w, NTSTATUS) lnk) \<Rightarrow> ('w, NTSTATUS) lnk" where
  "ServiceFlowChange H ist k =
    (if ist AND 0x20 = 0 then k ist
     else do {
       svcS (\<lambda>T. T\<lparr>FcChanges := FcChanges T + 1, StatusAcks := StatusAcks T + 1\<rparr>);
       writeCore H 0x20 0x20 (do {
       svcS (\<lambda>T. T\<lparr>StatusReads := StatusReads T + 1\<rparr>);
       readCore H 0x20 (\<lambda>again. do {
       svcS (\<lambda>T. T\<lparr>StatusNoEvents := (if again AND 0x200000f0 = 0 then StatusNoEvents T + 1 else StatusNoEvents T),
         FcRaces := (if again AND 0x20 \<noteq> 0 then FcRaces T + 1 else FcRaces T)\<rparr>);
       StatusObserved H again (again AND (0x10 OR 0x20) \<noteq> 0);
       k (ist OR (again AND 0x200000f0)) }) }) })"

definition ServiceStatus :: "'w hw \<Rightarrow> bool \<Rightarrow> ('w, NTSTATUS) lnk" where
  "ServiceStatus H fallback = do {
     svcS (\<lambda>T. T\<lparr>StatusReads := StatusReads T + 1\<rparr>);
     readCore H 0x20 (\<lambda>v. do {
     StatusObserved H v (v AND 0x10 \<noteq> 0);
     let ist = v AND 0x200000f0;
     if ist = 0 then do {
       svcS (\<lambda>T. T\<lparr>StatusNoEvents := StatusNoEvents T + 1\<rparr>);
       ServiceFlowChange H ist (ServiceEvents H fallback) }
     else do {
       svcS (\<lambda>T. T\<lparr>StatusAcks := StatusAcks T + 1\<rparr>);
       writeCore H 0x20 ist (ServiceFlowChange H ist (ServiceEvents H fallback)) } }) }"

definition CywTransportService :: "'w hw \<Rightarrow> bool \<Rightarrow> ('w, NTSTATUS) lnk" where
  "CywTransportService H probePending = do {
     stop \<leftarrow> netStop H;
     if stop then ret STATUS_CANCELLED else do {
     halted \<leftarrow> lasks (\<lambda>l. Halted (LFlow l));
     if halted then ret STATUS_DEVICE_NOT_READY else do {
     pending \<leftarrow> lasks (\<lambda>l. RxPending (LRx l));
     if probePending \<and> \<not> pending then do {
       svcS (\<lambda>T. T\<lparr>PendingReads := PendingReads T + 1\<rparr>);
       (st, v) \<leftarrow> bus (SdioCmd52Read H 0 5);
       if \<not> NT_SUCCESS st then ServiceFailed H st else do {
       svcS (\<lambda>T. T\<lparr>LastPending := ucast v\<rparr>);
       if v AND 6 \<noteq> 0 then ServiceStatus H False else do {
       svcS (\<lambda>T. T\<lparr>PendingEmpty := PendingEmpty T + 1\<rparr>);
       now \<leftarrow> linkTime H;
       due \<leftarrow> lasks (\<lambda>l. fst (CywTransportFallbackDue now (LSvc l)));
       svcS (\<lambda>T. snd (CywTransportFallbackDue now T));
       if \<not> due then ret STATUS_SUCCESS else do {
       svcS (\<lambda>T. T\<lparr>FallbackReads := FallbackReads T + 1\<rparr>);
       ServiceStatus H True } } } }
     else ServiceStatus H False } } }"

section \<open>Receive\<close>

definition TrafficDrop :: "bool \<Rightarrow> rxd \<Rightarrow> rxd" where
  "TrafficDrop error r = (if error then r\<lparr>RxErrors := RxErrors r + 1\<rparr> else r\<lparr>RxDiscards := RxDiscards r + 1\<rparr>)"

definition ReceiveOpen :: "net \<Rightarrow> bool" where
  "ReceiveOpen N \<longleftrightarrow> \<not> (NSelectingBand N \<or> NPaused N \<or> \<not> NPublished N \<or> \<not> NAuthorized N \<or> \<not> NAssociated N)"

text \<open>A frame that passed the filter is lent to NDIS for the time of the call; \<open>p\<close> holds its bytes.\<close>

definition Indicate :: "'w hw \<Rightarrow> 'w ndis \<Rightarrow> nat \<Rightarrow> bytes \<Rightarrow> ('w, unit) lnk" where
  "Indicate H D kind p = do {
     mdl \<leftarrow> bus (world (nd_mdl D));
     if \<not> mdl then rxS (\<lambda>r. TrafficDrop False (r\<lparr>RxNoBuffer := RxNoBuffer r + 1\<rparr>)) else do {
     nbl \<leftarrow> bus (world (nd_nbl D));
     if \<not> nbl then rxS (\<lambda>r. TrafficDrop False (r\<lparr>RxNoBuffer := RxNoBuffer r + 1\<rparr>)) else do {
     now \<leftarrow> linkTime H;
     probe \<leftarrow> lasks (\<lambda>l. CywProbePacket (LProbe l) p (length p) False now);
     checked () probe (\<lambda>probe. do {
     lmod (\<lambda>l. l\<lparr>LProbe := probe\<rparr>);
     traffic \<leftarrow> lasks (\<lambda>l. CywTrafficFrame 0 p (length p) (LTraffic l));
     checked () traffic (\<lambda>traffic. do {
     lmod (\<lambda>l. l\<lparr>LTraffic := traffic\<rparr>);
     start \<leftarrow> bus (TimingBegin H 11);
     bus (act (nd_indicate D p));
     bus (TimingEnd H 11 start);
     rxS (\<lambda>r. r\<lparr>PacketRxHost := (PacketRxHost r)[kind := PacketRxHost r ! kind + 1], RxPackets := RxPackets r + 1,
       RxIndicated := p # RxIndicated r\<rparr>) }) }) } } }"

definition CywReceive :: "'w hw \<Rightarrow> 'w ndis \<Rightarrow> bytes \<Rightarrow> ('w, unit) lnk" where
  "CywReceive H D p =
    checked () (CywEthernetBody p 0 (length p)) (\<lambda>body. case body of
       None \<Rightarrow> rxS (\<lambda>r. TrafficDrop True (r\<lparr>RxDropFormat := RxDropFormat r + 1\<rparr>))
     | Some (off, len) \<Rightarrow>
         checked () (CywPacketKind p off len) (\<lambda>kind. do {
         rxS (\<lambda>r. r\<lparr>PacketRxWire := (PacketRxWire r)[kind := PacketRxWire r ! kind + 1]\<rparr>);
         isOpen \<leftarrow> lasks (\<lambda>l. ReceiveOpen (LNet l));
         if \<not> isOpen then rxS (\<lambda>r. TrafficDrop False (r\<lparr>RxDropState := RxDropState r + 1\<rparr>)) else do {
         F \<leftarrow> lasks LFilter;
         rxS (\<lambda>r. r\<lparr>RxFilterSnapshot := PacketFilter F\<rparr>);
         checked () (CywAcceptEthernet p off (CurrentMacAddress F) (PacketFilter F) (MulticastList F) (MulticastCount F)) (\<lambda>accept.
         checked () (rdn p off 6) (\<lambda>dest. do {
         (if dest ! 0 AND 1 = 0 \<and> dest \<noteq> CurrentMacAddress F
          then rxS (\<lambda>r. r\<lparr>RxUnicastOther := RxUnicastOther r + 1\<rparr>) else ret ());
         if \<not> accept then rxS (\<lambda>r. r\<lparr>RxDropFilter := RxDropFilter r + 1\<rparr>)
         else checked () (rdn p off len) (Indicate H D kind) })) } }))"

text \<open>
  An event acts on the control plane, which sees the stop flags as they are now.  The clock is read here, although the
  source reads it only when it records a disconnect.
\<close>

definition DeliverEvent :: "'w hw \<Rightarrow> bytes \<Rightarrow> ('w, unit) lnk" where
  "DeliverEvent H p = do {
     stopped \<leftarrow> bus (IoStopped H);
     stop \<leftarrow> netStop H;
     now \<leftarrow> linkTime H;
     N \<leftarrow> lasks (\<lambda>l. CywEvent now p (length p) ((LNet l)\<lparr>AIoStopped := stopped, NStop := stop\<rparr>));
     checked () N (\<lambda>N. lmod (\<lambda>l. l\<lparr>LNet := N\<rparr>)) }"

definition Deliver :: "'w hw \<Rightarrow> 'w ndis \<Rightarrow> nat \<Rightarrow> nat \<Rightarrow> nat \<Rightarrow> ('w, unit) lnk" where
  "Deliver H D channel off len = do {
     p \<leftarrow> lasks (\<lambda>l. if off \<le> len then rdn (RxBuffer (LRx l)) off (len - off) else None);
     checked () p (\<lambda>p.
       if channel = 1 then DeliverEvent H p else if channel = 2 then CywReceive H D p else ret ()) }"

section \<open>The poll\<close>

definition PollFailed :: "'w hw \<Rightarrow> NTSTATUS \<Rightarrow> ('w, NTSTATUS \<times> (nat \<times> nat \<times> nat) option) lnk" where
  "PollFailed H st = do {
     bus (fifoS (\<lambda>f. f\<lparr>FifoTransportFailed := True\<rparr>));
     rxS (\<lambda>r. r\<lparr>RxGlomErrors := (if GlCount (RxGlom r) \<noteq> 0 then RxGlomErrors r + 1 else RxGlomErrors r),
       RxGlom := zero_glom, RxNextLength := 0, RxPending := False, RxBatchServiced := False\<rparr>);
     c1 \<leftarrow> bus (SdioCmd52Write H 0 6 2 0);
     (if \<not> NT_SUCCESS c1 then svcS (\<lambda>T. T\<lparr>RxAbortFailures := RxAbortFailures T + 1\<rparr>) else ret ());
     c2 \<leftarrow> bus (SdioCmd52Write H 1 0x1000d 1 0);
     (if \<not> NT_SUCCESS c2 then svcS (\<lambda>T. T\<lparr>RxAbortFailures := RxAbortFailures T + 1\<rparr>) else ret ());
     ret (st, None) }"

text \<open>\<open>TRY(SdioFifoTransfer(A, N->Rx + at, n, FALSE))\<close>; the buffer is zeroed by a transfer that fails.\<close>

definition readFifo :: "'w hw \<Rightarrow> nat \<Rightarrow> nat \<Rightarrow> ('w, NTSTATUS \<times> (nat \<times> nat \<times> nat) option) lnk \<Rightarrow>
    ('w, NTSTATUS \<times> (nat \<times> nat \<times> nat) option) lnk" where
  "readFifo H at n k = do {
     old \<leftarrow> lasks (\<lambda>l. rdn (RxBuffer (LRx l)) at n);
     checked (STATUS_UNSUCCESSFUL, None) old (\<lambda>old. do {
     (st, d) \<leftarrow> bus (SdioFifoTransfer H old False);
     rxS (\<lambda>r. r\<lparr>RxBuffer := take at (RxBuffer r) @ d @ drop (at + n) (RxBuffer r)\<rparr>);
     if NT_SUCCESS st then k else PollFailed H st }) }"

text \<open>Credits and flow bits of an outer header.\<close>

definition HeaderCredits :: "'w hw \<Rightarrow> ('w, unit) lnk" where
  "HeaderCredits H = do {
     h \<leftarrow> lasks (\<lambda>l. rdn (RxBuffer (LRx l)) 8 2);
     checked () h (\<lambda>h. do {
     lmod (\<lambda>l. l\<lparr>TxMax := (if h ! 1 - TxSeq l \<le> 0x40 then h ! 1 else TxMax l), TxFlow := h ! 0\<rparr>);
     now \<leftarrow> linkTime H;
     flowS (CywTransportSetPriority (h ! 0) now) }) }"

definition PollChild :: "'w hw \<Rightarrow> 'w ndis \<Rightarrow> ('w, NTSTATUS \<times> (nat \<times> nat \<times> nat) option) lnk" where
  "PollChild H D = do {
     g \<leftarrow> lasks (\<lambda>l. RxGlom (LRx l));
     let i = GlIndex g;
     if i \<ge> 32 then checked (STATUS_UNSUCCESSFUL, None) None ret else do {
     rxS (\<lambda>r. r\<lparr>RxGlom := g\<lparr>GlIndex := i + 1\<rparr>\<rparr>);
     h \<leftarrow> lasks (\<lambda>l. rdn (RxBuffer (LRx l)) (GlStart g ! i + 4) 2);
     checked (STATUS_UNSUCCESSFUL, None) h (\<lambda>h. do {
     let channel = unat (h ! 1 AND 15);
     seqS (CywTransportSequence (h ! 0));
     Deliver H D channel (GlPayload g ! i) (GlEnd g ! i);
     rxS (\<lambda>r. r\<lparr>RxGlomFrames := RxGlomFrames r + 1\<rparr>);
     (if i + 1 = GlCount g then rxS (\<lambda>r. r\<lparr>RxNextLength := GlNextLength (RxGlom r), RxGlom := (RxGlom r)\<lparr>GlCount := 0\<rparr>\<rparr>)
      else ret ());
     ret (STATUS_SUCCESS, Some (channel, GlPayload g ! i, GlEnd g ! i)) }) } }"

definition PollSuperframe :: "'w hw \<Rightarrow> 'w ndis \<Rightarrow> ('w, NTSTATUS \<times> (nat \<times> nat \<times> nat) option) lnk" where
  "PollSuperframe H D = do {
     g \<leftarrow> lasks (\<lambda>l. RxGlom (LRx l));
     if \<not> GlPending g then PollChild H D
     else readFifo H 0 (GlBytes g) (do {
       v \<leftarrow> lasks (\<lambda>l. CywRxGlomValidate g (RxBuffer (LRx l)) (GlBytes g));
       checked (STATUS_UNSUCCESSFUL, None) v (\<lambda>(ok, g). do {
       rxS (\<lambda>r. r\<lparr>RxGlom := g\<rparr>);
       if \<not> ok then PollFailed H STATUS_DEVICE_DATA_ERROR
       else do {
         HeaderCredits H;
         rxS (\<lambda>r. r\<lparr>RxGlomGroups := RxGlomGroups r + 1\<rparr>);
         PollChild H D } }) }) }"

text \<open>A complete frame is in the buffer: it announces a superframe, or it is delivered.\<close>

definition PollDescriptor :: "'w hw \<Rightarrow> nat \<Rightarrow> nat \<Rightarrow> ('w, NTSTATUS \<times> (nat \<times> nat \<times> nat) option) lnk" where
  "PollDescriptor H len off = do {
     d \<leftarrow> lasks (\<lambda>l. if off \<le> len then CywRxGlomDescriptor (RxGlom (LRx l)) (RxBuffer (LRx l)) off (len - off) else None);
     checked (STATUS_UNSUCCESSFUL, None) d (\<lambda>(ok, g). do {
     rxS (\<lambda>r. r\<lparr>RxGlom := g\<rparr>);
     if \<not> ok then do {
       rxS (\<lambda>r. r\<lparr>RxGlomErrors := RxGlomErrors r + 1\<rparr>);
       PollFailed H STATUS_DEVICE_DATA_ERROR }
     else ret (STATUS_SUCCESS, Some (3, off, len)) }) }"

definition PollData :: "'w hw \<Rightarrow> 'w ndis \<Rightarrow> nat \<Rightarrow> nat \<Rightarrow> nat \<Rightarrow> ('w, NTSTATUS \<times> (nat \<times> nat \<times> nat) option) lnk" where
  "PollData H D channel len off = do {
     nl \<leftarrow> lasks (\<lambda>l. CywRxNextLength (RxBuffer (LRx l)) 0);
     checked (STATUS_UNSUCCESSFUL, None) nl (\<lambda>nl. do {
     rxS (\<lambda>r. r\<lparr>RxNextLength := nl\<rparr>);
     Deliver H D channel off len;
     ret (STATUS_SUCCESS, Some (channel, off, len)) }) }"

definition PollChannel :: "'w hw \<Rightarrow> 'w ndis \<Rightarrow> u8 \<Rightarrow> nat \<Rightarrow> nat \<Rightarrow> ('w, NTSTATUS \<times> (nat \<times> nat \<times> nat) option) lnk" where
  "PollChannel H D flags len off =
    (if flags AND 15 = 3 then do {
       on \<leftarrow> lasks (\<lambda>l. RxGlomEnabled (LRx l));
       if \<not> on then PollFailed H STATUS_NOT_SUPPORTED
       else if flags AND 0x80 = 0 then do {
         rxS (\<lambda>r. r\<lparr>RxGlomErrors := RxGlomErrors r + 1\<rparr>);
         PollFailed H STATUS_DEVICE_DATA_ERROR }
       else PollDescriptor H len off }
     else if flags AND 0x80 \<noteq> 0 then PollFailed H STATUS_NOT_SUPPORTED
     else PollData H D (unat (flags AND 15)) len off)"

definition PollDispatch :: "'w hw \<Rightarrow> 'w ndis \<Rightarrow> nat \<Rightarrow> nat \<Rightarrow> ('w, NTSTATUS \<times> (nat \<times> nat \<times> nat) option) lnk" where
  "PollDispatch H D len off = do {
     rxS (\<lambda>r. r\<lparr>RxPending := True\<rparr>);
     h \<leftarrow> lasks (\<lambda>l. rdn (RxBuffer (LRx l)) 4 2);
     checked (STATUS_UNSUCCESSFUL, None) h (\<lambda>h. do {
     seqS (CywTransportSequence (h ! 0));
     HeaderCredits H;
     PollChannel H D (h ! 1) len off }) }"

text \<open>The first read of a frame is in the buffer, \<open>n\<close> bytes of it.\<close>

definition PollHeader :: "'w hw \<Rightarrow> 'w ndis \<Rightarrow> nat \<Rightarrow> nat \<Rightarrow> ('w, NTSTATUS \<times> (nat \<times> nat \<times> nat) option) lnk" where
  "PollHeader H D hint n = do {
     r \<leftarrow> lasks (\<lambda>l. CywSdpcmHeader (RxBuffer (LRx l)) 0 n);
     checked (STATUS_UNSUCCESSFUL, None) r (\<lambda>r. case r of
       None \<Rightarrow> PollFailed H STATUS_DEVICE_DATA_ERROR
     | Some (len, off) \<Rightarrow>
         if hint \<noteq> 0 then do {
           v \<leftarrow> lasks (\<lambda>l. CywRxReadAheadValid (RxBuffer (LRx l)) 0 hint len);
           checked (STATUS_UNSUCCESSFUL, None) v (\<lambda>valid.
           if \<not> valid then do {
             rxS (\<lambda>r. r\<lparr>RxReadAheadRejected := RxReadAheadRejected r + 1\<rparr>);
             PollFailed H STATUS_DEVICE_DATA_ERROR }
           else do {
             rxS (\<lambda>r. r\<lparr>RxReadAhead := RxReadAhead r + 1\<rparr>);
             PollDispatch H D len off }) }
         else if len > 64 then readFifo H 64 ((len - 64 + 3) div 4 * 4) (PollDispatch H D len off)
         else PollDispatch H D len off) }"

definition PollFrame :: "'w hw \<Rightarrow> 'w ndis \<Rightarrow> ('w, NTSTATUS \<times> (nat \<times> nat \<times> nat) option) lnk" where
  "PollFrame H D = do {
     hint \<leftarrow> lasks (\<lambda>l. if RxBatch (LRx l) then RxNextLength (LRx l) else 0);
     rxS (\<lambda>r. r\<lparr>RxNextLength := 0\<rparr>);
     let n = (if hint \<noteq> 0 then hint else 64);
     readFifo H 0 n (do {
     word \<leftarrow> lasks (\<lambda>l. CywLe32 (RxBuffer (LRx l)) 0);
     checked (STATUS_UNSUCCESSFUL, None) word (\<lambda>word.
     if word = 0 then do {
       svcS (\<lambda>T. T\<lparr>EmptyReads := EmptyReads T + 1\<rparr>);
       rxS (\<lambda>r. r\<lparr>RxPending := False, RxBatchServiced := False\<rparr>);
       ret (STATUS_NO_MORE_ENTRIES, None) }
     else PollHeader H D hint n) }) }"

definition CywPoll :: "'w hw \<Rightarrow> 'w ndis \<Rightarrow> ('w, NTSTATUS \<times> (nat \<times> nat \<times> nat) option) lnk" where
  "CywPoll H D = do {
     stop \<leftarrow> netStop H;
     if stop then ret (STATUS_CANCELLED, None) else do {
     failed \<leftarrow> bus (asks (\<lambda>a. FifoTransportFailed (AFifo a)));
     if failed then ret (STATUS_INVALID_DEVICE_STATE, None) else do {
     r \<leftarrow> lasks LRx;
     if GlCount (RxGlom r) \<noteq> 0 then PollSuperframe H D else do {
     st \<leftarrow> (if \<not> RxBatch r \<or> \<not> RxBatchServiced r \<or> \<not> RxPending r then do {
               st \<leftarrow> CywTransportService H True;
               (if NT_SUCCESS st then rxS (\<lambda>r. r\<lparr>RxBatchServiced := True\<rparr>) else ret ());
               ret st }
            else ret STATUS_SUCCESS);
     if \<not> NT_SUCCESS st then ret (st, None) else do {
     pending \<leftarrow> lasks (\<lambda>l. RxPending (LRx l));
     if \<not> pending then ret (STATUS_NO_MORE_ENTRIES, None)
     else PollFrame H D } } } } }"

end
