(* ===== verification/Bus_Mode.thy ===== *)
theory Bus_Mode
  imports Sdio_Safety
begin

text \<open>
  Outcomes of the bus mode functions: which width and clock the card and the controller are left with, in success and
  in failure.
\<close>

section \<open>What input and output leaves alone\<close>

definition bus_same :: "adapter \<Rightarrow> adapter \<Rightarrow> bool" where
  "bus_same a b \<longleftrightarrow> ABus b = ABus a \<and> AHost b = AHost a \<and> ACard b = ACard a \<and> AChip b = AChip a \<and> AFw b = AFw a"

interpretation same_rel: adapter_relation bus_same
  by unfold_locales (simp_all add: bus_same_def)

interpretation same: fifo_frame "\<lambda>s t. bus_same (fst s) (fst t)" H for H :: "'w hw"
  by unfold_locales (rule same_rel.register_ops | simp add: bus_same_def)+

named_theorems bus_specs \<open>steps of the bus mode functions, as rules for weakest preconditions\<close>

lemma wp_same:
  assumes "keeps (\<lambda>s t. bus_same (fst s) (fst t)) m"
    and "\<And>x t. ABus (fst t) = ABus (fst s) \<Longrightarrow> AHost (fst t) = AHost (fst s) \<Longrightarrow> ACard (fst t) = ACard (fst s) \<Longrightarrow>
      AChip (fst t) = AChip (fst s) \<Longrightarrow> AFw (fst t) = AFw (fst s) \<Longrightarrow> Q x t"
  shows "wp m Q s"
  by (rule wp_mono [OF wp_keeps [OF assms(1), of s]]) (auto simp: bus_same_def intro: assms(2))

lemmas io_specs [bus_specs] =
  wp_same [OF same_rel.register_ops(1)] wp_same [OF same_rel.register_ops(2)] wp_same [OF same_rel.register_ops(3)]
  wp_same [OF same_rel.register_ops(4)] wp_same [OF same_rel.register_ops(6)] wp_same [OF same_rel.register_ops(7)]
  wp_same [OF same_rel.register_ops(8)] wp_same [OF same.Cmd52Read_keeps] wp_same [OF same.Cmd52Write_keeps]
  wp_same [OF same.SendCommand_keeps]

section \<open>The clock\<close>

definition ActualKhz :: "u32 \<Rightarrow> u32 \<Rightarrow> u32" where
  "ActualKhz capabilities target =
    (let base = BaseClockKhz capabilities; d = ClockDivider base target in
     if d \<noteq> 0 then base div (2 * ucast d) else base)"

lemma unat_BaseClockKhz: "unat (BaseClockKhz c) \<le> 255000 \<and> BaseClockKhz c \<noteq> 0"
proof -
  have m: "unat (drop_bit 8 (c AND 0xFF00)) \<le> 255"
  proof -
    have "drop_bit 8 (c AND 0xFF00) = drop_bit 8 c AND (0xFF :: u32)"
      by (simp add: drop_bit_and)
    then show ?thesis using word_and_le1 [of "drop_bit 8 c" "0xFF"] by (simp add: word_le_nat_alt)
  qed
  define mhz where "mhz = (if drop_bit 8 (c AND 0xFF00) = 0 then 200 else drop_bit 8 (c AND 0xFF00))"
  have b: "0 < unat mhz" "unat mhz \<le> 255" using m by (auto simp: mhz_def unat_gt_0)
  have "unat (mhz * 1000) = unat mhz * 1000"
    by (rule unat_mult_lem [THEN iffD1, THEN trans]) (use b in simp_all)
  then show ?thesis using b by (auto simp: BaseClockKhz_def mhz_def Let_def)
qed

lemma ActualKhz_le:
  assumes "125 \<le> unat target"
  shows "unat (ActualKhz c target) \<le> unat target"
proof -
  define base where "base = BaseClockKhz c"
  define d where "d = SdioCalculateClockDivider base target"
  have base: "unat base \<le> 255000" "base \<noteq> 0" using unat_BaseClockKhz by (auto simp: base_def)
  show ?thesis
  proof (cases "target < base")
    case True
    have pos: "0 < target" using assms by (auto simp: word_gt_0)
    have d: "1 \<le> unat d" "unat d \<le> 1023" "unat d < 1023 \<longrightarrow> unat base \<le> unat target * (2 * unat d)"
      using SdioCalculateClockDivider_spec [OF pos True] by (auto simp: d_def Let_def)
    then have div: "ClockDivider base target = d" "d \<noteq> 0"
      by (auto simp: ClockDivider_def d_def [symmetric] word_less_nat_alt)
    have two: "unat (2 * ucast d :: u32) = 2 * unat d"
      using d(2) by (subst unat_mult_lem [THEN iffD1]) (simp_all add: unsigned_ucast_eq take_bit_nat_eq_self)
    have "unat (ActualKhz c target) = unat base div (2 * unat d)"
      by (simp add: ActualKhz_def base_def [symmetric] div two unat_div)
    also have "\<dots> \<le> unat target"
    proof (cases "unat d < 1023")
      case True
      then show ?thesis using d by (metis div_le_mono mult.commute nonzero_mult_div_cancel_left not_one_le_zero
            mult_eq_0_iff zero_neq_numeral)
    next
      case False
      then have "unat base div (2 * unat d) \<le> 255000 div 2046" using d base by (simp add: div_le_mono)
      then show ?thesis using assms by simp
    qed
    finally show ?thesis .
  next
    case False
    then have "SdioCalculateClockDivider base target = 0" by (auto simp: SdioCalculateClockDivider_def not_less)
    with False show ?thesis
      by (simp add: ActualKhz_def base_def [symmetric] ClockDivider_def word_le_nat_alt not_less)
  qed
qed

definition clock_only :: "adapter \<Rightarrow> adapter \<Rightarrow> bool" where
  "clock_only a b \<longleftrightarrow> (\<exists>x y. ABus b = (ABus a)\<lparr>BusTargetKhz := x, BusActualKhz := y\<rparr>) \<and>
     (\<exists>z. AHost b = (AHost a)\<lparr>ClockControl := z\<rparr>) \<and> ACard b = ACard a \<and> AChip b = AChip a \<and> AFw b = AFw a"

lemma clock_self [simp]:
  "\<exists>x y. b = b\<lparr>BusTargetKhz := x, BusActualKhz := y\<rparr>" "\<exists>z. h = h\<lparr>ClockControl := z\<rparr>"
  "\<exists>x y. b\<lparr>BusTargetKhz := u, BusActualKhz := v\<rparr> = b\<lparr>BusTargetKhz := x, BusActualKhz := y\<rparr>"
  by (cases b; auto) (cases h; auto)+

lemma ClockLoop_wp:
  "wp (ClockLoop H n) (\<lambda>r t. bus_same (fst s) (fst t) \<and> (\<forall>st. r = Inl st \<longrightarrow> \<not> NT_SUCCESS st)) s"
proof -
  have "wp (ClockLoop H n) (\<lambda>r t. \<forall>st. r = Inl st \<longrightarrow> \<not> NT_SUCCESS st) s"
    by (induction n arbitrary: s) (auto simp: wp_rules intro!: bus_specs wp_same [OF same.Stall_keeps])
  moreover have "keeps (\<lambda>s t. bus_same (fst s) (fst t)) (ClockLoop H n)"
    by (induction n) (auto intro!: keeps_intros same_rel.register_ops same_rel.keeps_bind same_rel.keeps_return same.Stall_keeps)
  ultimately show ?thesis using wp_keeps [of _ "ClockLoop H n" s] by (simp add: wp_conj)
qed

lemma SetClockFinish_wp:
  "wp (SetClockFinish H target base d control) (\<lambda>st t. clock_only (fst s) (fst t) \<and>
     (NT_SUCCESS st \<longrightarrow> BusTargetKhz (ABus (fst t)) = target \<and>
        BusActualKhz (ABus (fst t)) = (if d \<noteq> 0 then base div (2 * ucast d) else base))) s"
  unfolding SetClockFinish_def wp_rules Let_def state_defs
  by (auto intro!: bus_specs simp: wp_rules clock_only_def)

lemma SetClock_wp:
  "wp (SdioSetClock H target) (\<lambda>st t. clock_only (fst s) (fst t) \<and>
     (NT_SUCCESS st \<longrightarrow> BusTargetKhz (ABus (fst t)) = target \<and>
        BusActualKhz (ABus (fst t)) = ActualKhz (Capabilities (AHost (fst s))) target)) s"
  unfolding SdioSetClock_def wp_rules Let_def state_defs
  by (auto intro!: bus_specs wp_mono [OF ClockLoop_wp] wp_mono [OF SetClockFinish_wp]
      simp: wp_rules clock_only_def ActualKhz_def Let_def bus_same_def split: sum.split)

lemma SetClock_spec [bus_specs]:
  assumes "\<And>st t x y z. ABus (fst t) = (ABus (fst s))\<lparr>BusTargetKhz := x, BusActualKhz := y\<rparr> \<Longrightarrow>
      AHost (fst t) = (AHost (fst s))\<lparr>ClockControl := z\<rparr> \<Longrightarrow> ACard (fst t) = ACard (fst s) \<Longrightarrow>
      AChip (fst t) = AChip (fst s) \<Longrightarrow> AFw (fst t) = AFw (fst s) \<Longrightarrow>
      (NT_SUCCESS st \<longrightarrow> x = target \<and> y = ActualKhz (Capabilities (AHost (fst s))) target) \<Longrightarrow> Q st t"
  shows "wp (SdioSetClock H target) Q s"
  by (rule wp_mono [OF SetClock_wp [of H target s]]) (auto simp: clock_only_def intro!: assms)

section \<open>Bus modes\<close>

text \<open>The clock is at most the target, in kHz.\<close>

definition clock_within :: "u32 \<Rightarrow> busd \<Rightarrow> bool" where
  "clock_within target b \<longleftrightarrow> BusTargetKhz b = target \<and> BusActualKhz b \<le> target"

lemma ActualKhz_within [simp]: "ActualKhz c 400 \<le> 400" "ActualKhz c 25000 \<le> 25000" "ActualKhz c 50000 \<le> 50000"
  using ActualKhz_le [of 400 c] ActualKhz_le [of 25000 c] ActualKhz_le [of 50000 c] by (simp_all add: word_le_nat_alt)

lemma WriteHostControl_spec [bus_specs]:
  assumes "\<And>st t z. ABus (fst t) = ABus (fst s) \<Longrightarrow> AHost (fst t) = (AHost (fst s))\<lparr>HostControl := z\<rparr> \<Longrightarrow>
      ACard (fst t) = ACard (fst s) \<Longrightarrow> AChip (fst t) = AChip (fst s) \<Longrightarrow> AFw (fst t) = AFw (fst s) \<Longrightarrow> Q st t"
  shows "wp (WriteHostControl H v) Q s"
  unfolding WriteHostControl_def wp_rules state_defs by (auto intro!: bus_specs assms)

lemma DefaultCardSpeed_spec [bus_specs]:
  assumes "\<And>x t. ABus (fst t) = ABus (fst s) \<Longrightarrow> AHost (fst t) = AHost (fst s) \<Longrightarrow>
      ACard (fst t) = ACard (fst s) \<Longrightarrow> AChip (fst t) = AChip (fst s) \<Longrightarrow> AFw (fst t) = AFw (fst s) \<Longrightarrow> Q x t"
  shows "wp (DefaultCardSpeed H) Q s"
  unfolding DefaultCardSpeed_def wp_rules Let_def by (auto simp: wp_rules intro!: bus_specs assms)

lemma SetDefaultBus_wp:
  "wp (SdioSetDefaultBus H Wide) (\<lambda>st t. \<not> BusHighSpeedActive (ABus (fst t)) \<and>
     BusModeStage (ABus (fst t)) = BusModeStage (ABus (fst s)) \<and>
     BusHighSpeedAttempted (ABus (fst t)) = BusHighSpeedAttempted (ABus (fst s)) \<and>
     BusRecoveryStatus (ABus (fst t)) = BusRecoveryStatus (ABus (fst s)) \<and>
     (NT_SUCCESS st \<longrightarrow> BusWidth (ABus (fst t)) = (if Wide then 4 else 1) \<and> clock_within 400 (ABus (fst t)))) s"
  unfolding SdioSetDefaultBus_def wp_rules Let_def state_defs
  by (auto simp: wp_rules clock_within_def intro!: bus_specs)

lemma SetDefaultBus_spec [bus_specs]:
  assumes "\<And>st t. \<not> BusHighSpeedActive (ABus (fst t)) \<Longrightarrow> BusModeStage (ABus (fst t)) = BusModeStage (ABus (fst s)) \<Longrightarrow>
      BusHighSpeedAttempted (ABus (fst t)) = BusHighSpeedAttempted (ABus (fst s)) \<Longrightarrow>
      BusRecoveryStatus (ABus (fst t)) = BusRecoveryStatus (ABus (fst s)) \<Longrightarrow>
      (NT_SUCCESS st \<longrightarrow> BusWidth (ABus (fst t)) = (if Wide then 4 else 1) \<and> clock_within 400 (ABus (fst t))) \<Longrightarrow> Q st t"
  shows "wp (SdioSetDefaultBus H Wide) Q s"
  by (rule wp_mono [OF SetDefaultBus_wp [of H Wide s]]) (auto intro!: assms)

text \<open>After a recovery the bus is either back at one bit and 400 kHz, stage 90, or of unknown mode, stage 99.\<close>

definition recovered :: "busd \<Rightarrow> bool" where
  "recovered b \<longleftrightarrow> \<not> BusHighSpeedActive b \<and>
     (if NT_SUCCESS (BusRecoveryStatus b) then BusModeStage b = 90 \<and> BusWidth b = 1 \<and> clock_within 400 b
      else BusModeStage b = 99)"

lemma RecoverBus_spec [bus_specs]:
  assumes "\<And>t. recovered (ABus (fst t)) \<Longrightarrow> Q st t"
  shows "wp (RecoverBus H st) Q s"
  unfolding RecoverBus_def SdioRestoreIdentificationBus_def wp_rules state_defs
  by (auto simp: recovered_def clock_within_def intro!: bus_specs assms)

text \<open>The default operating bus: four bits, default timing, 25 MHz at most.\<close>

definition default_bus :: "busd \<Rightarrow> bool" where
  "default_bus b \<longleftrightarrow> BusWidth b = 4 \<and> \<not> BusHighSpeedActive b \<and> clock_within 25000 b"

definition high_speed_bus :: "busd \<Rightarrow> bool" where
  "high_speed_bus b \<longleftrightarrow> BusWidth b = 4 \<and> BusHighSpeedActive b \<and> BusTargetKhz b = 50000 \<and>
     25000 < BusActualKhz b \<and> BusActualKhz b \<le> 50000"

lemma ModeChanged_spec [bus_specs]:
  assumes "\<And>x t. ABus (fst t) = ABus (fst s) \<Longrightarrow> AHost (fst t) = AHost (fst s) \<Longrightarrow>
      ACard (fst t) = ACard (fst s) \<Longrightarrow> AChip (fst t) = AChip (fst s) \<Longrightarrow> AFw (fst t) = AFw (fst s) \<Longrightarrow> Q x t"
  shows "wp (ModeChanged H) Q s"
  unfolding ModeChanged_def wp_rules by (auto simp: wp_rules intro!: bus_specs assms)

lemma RestoreDefaultOperatingBus_wp:
  "wp (SdioRestoreDefaultOperatingBus H) (\<lambda>st t. if NT_SUCCESS st then default_bus (ABus (fst t)) \<and> BusModeStage (ABus (fst t)) = 4
     else recovered (ABus (fst t))) s"
  unfolding SdioRestoreDefaultOperatingBus_def wp_rules state_defs
  by (auto simp: wp_rules default_bus_def recovered_def clock_within_def intro!: bus_specs)

lemma RestoreDefaultOperatingBus_spec [bus_specs]:
  assumes "\<And>st t. (if NT_SUCCESS st then default_bus (ABus (fst t)) \<and> BusModeStage (ABus (fst t)) = 4
      else recovered (ABus (fst t))) \<Longrightarrow> Q st t"
  shows "wp (SdioRestoreDefaultOperatingBus H) Q s"
  by (rule wp_mono [OF RestoreDefaultOperatingBus_wp]) (rule assms)

lemma HighSpeedVerified_spec [bus_specs]:
  assumes "\<And>ok t. ABus (fst t) = ABus (fst s) \<Longrightarrow> AHost (fst t) = AHost (fst s) \<Longrightarrow>
      (ok \<longrightarrow> 25000 < BusActualKhz (ABus (fst s)) \<and> BusActualKhz (ABus (fst s)) \<le> 50000) \<Longrightarrow> Q ok t"
  shows "wp (HighSpeedVerified H speed crd e c2 pw) Q s"
  unfolding HighSpeedVerified_def wp_rules by (auto simp: wp_rules not_less intro!: bus_specs assms)

lemma SetHighSpeedBus_wp:
  assumes "BusWidth (ABus (fst s)) = 4"
  shows "wp (SdioSetHighSpeedBus H) (\<lambda>st t. BusModeStage (ABus (fst t)) = BusModeStage (ABus (fst s)) \<and>
    (NT_SUCCESS st \<longrightarrow> high_speed_bus (ABus (fst t)))) s"
  unfolding SdioSetHighSpeedBus_def wp_rules Let_def state_defs
  using assms by (auto simp: wp_rules high_speed_bus_def intro!: bus_specs)

lemma SetHighSpeedBus_spec:
  assumes "BusWidth (ABus (fst s)) = 4"
    and "\<And>st t. BusModeStage (ABus (fst t)) = BusModeStage (ABus (fst s)) \<Longrightarrow>
      (NT_SUCCESS st \<longrightarrow> high_speed_bus (ABus (fst t))) \<Longrightarrow> Q st t"
  shows "wp (SdioSetHighSpeedBus H) Q s"
  by (rule wp_mono [OF SetHighSpeedBus_wp [OF assms(1), of H]]) (auto intro!: assms(2))

lemma NegotiateDefaultSpeed_spec [bus_specs]:
  assumes "\<And>st t. (NT_SUCCESS st \<longrightarrow> default_bus (ABus (fst t)) \<and> BusModeStage (ABus (fst t)) = 4) \<Longrightarrow> Q st t"
  shows "wp (NegotiateDefaultSpeed H) Q s"
  unfolding NegotiateDefaultSpeed_def wp_rules state_defs
  by (auto simp: wp_rules default_bus_def clock_within_def intro!: bus_specs assms)

lemma bus_updates [simp]:
  "default_bus (b\<lparr>BusUpgradeStatus := x\<rparr>) = default_bus b" "recovered (b\<lparr>BusUpgradeStatus := x\<rparr>) = recovered b"
  "default_bus (b\<lparr>BusHighSpeedRejectMask := m\<rparr>) = default_bus b" "high_speed_bus (b\<lparr>BusHighSpeedStatus := x\<rparr>) = high_speed_bus b"
  by (simp_all add: default_bus_def recovered_def high_speed_bus_def clock_within_def)

lemma NegotiateOperatingSpeed_wp:
  "wp (SdioNegotiateOperatingSpeed H) (\<lambda>st t.
     if NT_SUCCESS st then BusModeStage (ABus (fst t)) = 4 \<and> (default_bus (ABus (fst t)) \<or> high_speed_bus (ABus (fst t)))
     else recovered (ABus (fst t))) s"
  unfolding SdioNegotiateOperatingSpeed_def wp_rules Let_def state_defs
  by (auto simp: wp_rules default_bus_def [THEN iffD1] intro!: bus_specs SetHighSpeedBus_spec)


section \<open>Operating condition\<close>

text \<open>The table of attempts is in step with the counter, and a success is a ready card.\<close>

definition cmd5_ok :: "cmd5_locals \<Rightarrow> cardd \<Rightarrow> bool" where
  "cmd5_ok l k \<longleftrightarrow> Cmd5AttemptCount k = NIndex l \<and> length (Cmd5Attempts k) = 18"

definition cmd5_done :: "NTSTATUS \<times> u32 \<Rightarrow> cardd \<Rightarrow> bool" where
  "cmd5_done r k \<longleftrightarrow> Cmd5AttemptCount k \<le> 18 \<and> length (Cmd5Attempts k) = 18 \<and>
     (NT_SUCCESS (fst r) \<longrightarrow> SdioR4IsReady (snd r) \<and> SdioOcr k = snd r \<and> 1 \<le> SdioFunctions k \<and> SdioFunctions k \<le> 7 \<and>
        Cmd5SuccessAttempt k = Cmd5AttemptCount k \<and> 1 \<le> Cmd5SuccessAttempt k \<and>
        AtResponseValid (Cmd5Attempts k ! (unat (Cmd5SuccessAttempt k) - 1)))"

lemma CaptureRegisters_same: "keeps (\<lambda>s t. bus_same (fst s) (fst t)) (CaptureRegisters H h)"
  unfolding CaptureRegisters_def by (intro keeps_intros same_rel.keeps_bind same_rel.keeps_return same_rel.register_ops)

lemma Delay_spec: "(\<And>t. ACard (fst t) = ACard (fst s) \<Longrightarrow> Q () t) \<Longrightarrow> wp (SdioDelayMilliseconds H ms) Q s"
  by (rule wp_same [OF same.Delay_keeps]) auto

lemma function_count:
  assumes "SdioR4HasBasicInfo r"
  shows "1 \<le> drop_bit 28 r AND 7" "drop_bit 28 r AND 7 \<le> 7"
proof -
  have m: "(0x70000000 :: u32) = push_bit 28 (mask 3)" "(7 :: u32) = mask 3"
    by (simp_all add: mask_eq_exp_minus_1 push_bit_eq_mult)
  have "r AND push_bit 28 (mask 3) = push_bit 28 (drop_bit 28 r AND mask 3)"
    by (rule bit_word_eqI) (auto simp: bit_push_bit_iff bit_and_iff bit_drop_bit_eq bit_mask_iff simp del: push_bit_and)
  then show "1 \<le> drop_bit 28 r AND 7"
    using assms unfolding SdioR4HasBasicInfo_def m by (auto simp: word_le_nat_alt Suc_le_eq unat_gt_0 simp del: push_bit_and)
  show "drop_bit 28 r AND 7 \<le> 7" by (rule word_and_le1)
qed

lemma Cmd5Attempt_wp:
  assumes "cmd5_ok l (ACard (fst s))" "unat (NIndex l) < 18"
  shows "wp (Cmd5Attempt H clock argument l) (\<lambda>r t. case r of
      Inl e \<Rightarrow> cmd5_done e (ACard (fst t))
    | Inr l' \<Rightarrow> cmd5_ok l' (ACard (fst t)) \<and> unat (NIndex l') = Suc (unat (NIndex l))) s"
proof -
  have i: "\<not> NIndex l \<ge> 18" "unat (NIndex l + 1) = Suc (unat (NIndex l))" "NIndex l + 1 \<le> 18" "1 \<le> NIndex l + 1"
    using assms(2) unat_inc_less [of "NIndex l" 18] by (auto simp: word_le_nat_alt word_less_nat_alt)
  show ?thesis
    unfolding Cmd5Attempt_def wp_rules Let_def state_defs
    using assms i by (auto simp: wp_rules cmd5_ok_def cmd5_done_def SdioR4IsReady_def function_count
        intro!: bus_specs wp_same [OF CaptureRegisters_same] Delay_spec)
qed

lemma Cmd5Commands_wp:
  "cmd5_ok l (ACard (fst s)) \<Longrightarrow> unat (NIndex l) + length args \<le> 18 \<Longrightarrow>
   wp (Cmd5Commands H clock args l) (\<lambda>r t. case r of
      Inl e \<Rightarrow> cmd5_done e (ACard (fst t))
    | Inr l' \<Rightarrow> cmd5_ok l' (ACard (fst t)) \<and> unat (NIndex l') = unat (NIndex l) + length args) s"
proof (induction args arbitrary: l s)
  case Nil
  then show ?case by (simp add: wp_rules)
next
  case (Cons a args)
  have "unat (NIndex l) < 18" using Cons.prems by simp
  from Cmd5Attempt_wp [OF Cons.prems(1) this] show ?case
    unfolding Cmd5Commands.simps wp_rules
    by (rule wp_mono) (use Cons in \<open>auto simp: wp_rules split: sum.splits intro: wp_mono [OF Cons.IH]\<close>)
qed

lemma Cmd5Clock_spec:
  assumes "\<And>st t. ACard (fst t) = ACard (fst s) \<Longrightarrow> Q st t"
  shows "wp (Cmd5Clock H target requested) Q s"
  unfolding Cmd5Clock_def wp_rules by (auto simp: wp_rules intro!: bus_specs Delay_spec assms)

lemma cmd5_done_failed: "cmd5_ok l k \<Longrightarrow> unat (NIndex l) \<le> 18 \<Longrightarrow> \<not> NT_SUCCESS st \<Longrightarrow> cmd5_done (st, r) k"
  by (simp add: cmd5_ok_def cmd5_done_def word_le_nat_alt)

definition cmd5_last :: "cmd5_locals \<Rightarrow> bool" where
  "cmd5_last l \<longleftrightarrow> \<not> NT_SUCCESS (NLast l)"

lemma Cmd5Attempt_last: "cmd5_last l \<Longrightarrow> wp (Cmd5Attempt H clock argument l) (\<lambda>r t. \<forall>l'. r = Inr l' \<longrightarrow> cmd5_last l') s"
  unfolding Cmd5Attempt_def wp_rules Let_def state_defs
  by (auto simp: wp_rules cmd5_last_def intro!: bus_specs wp_same [OF CaptureRegisters_same] Delay_spec)

lemma Cmd5Commands_last: "cmd5_last l \<Longrightarrow> wp (Cmd5Commands H clock args l) (\<lambda>r t. \<forall>l'. r = Inr l' \<longrightarrow> cmd5_last l') s"
proof (induction args arbitrary: l s)
  case Nil
  then show ?case by (simp add: wp_rules)
next
  case (Cons a args)
  then show ?case unfolding Cmd5Commands.simps wp_rules
    by (auto intro!: wp_mono [OF Cmd5Attempt_last [OF Cons.prems]] simp: wp_rules split: sum.splits)
qed

lemma Cmd5Cycles_wp:
  "cmd5_ok l (ACard (fst s)) \<Longrightarrow> cmd5_last l \<Longrightarrow> unat (NIndex l) + 2 * length cycles \<le> 18 \<Longrightarrow>
   wp (Cmd5Cycles H cycles target l) (\<lambda>r t. cmd5_done r (ACard (fst t))) s"
proof (induction cycles arbitrary: l target s)
  case Nil
  then show ?case by (auto simp: wp_rules cmd5_last_def intro!: cmd5_done_failed)
next
  case (Cons c cycles)
  have "wp (Cmd5Commands H clock [0, 0x00FF8000] l) (\<lambda>r t. case r of
      Inl e \<Rightarrow> cmd5_done e (ACard (fst t))
    | Inr l' \<Rightarrow> cmd5_ok l' (ACard (fst t)) \<and> cmd5_last l' \<and> unat (NIndex l') = unat (NIndex l) + 2) s'"
    if "cmd5_ok l (ACard (fst s'))" for clock s'
    using Cmd5Commands_wp [OF that, of "[0, 0x00FF8000]" H clock] Cmd5Commands_last [OF Cons.prems(2), of H clock "[0, 0x00FF8000]" s'] Cons.prems
    by (auto simp: wp_def split: prod.splits sum.splits)
  note step = this
  show ?case unfolding Cmd5Cycles.simps wp_rules Let_def
    by (rule Cmd5Clock_spec)
      (use Cons in \<open>auto simp: wp_rules split: sum.splits intro!: cmd5_done_failed wp_mono [OF step] simp del: Cmd5Commands.simps\<close>)
qed

lemma NegotiateOperatingCondition_wp:
  "wp (SdioNegotiateOperatingConditionWithRetries H) (\<lambda>r t. cmd5_done r (ACard (fst t))) s"
  unfolding SdioNegotiateOperatingConditionWithRetries_def wp_rules state_defs
  by (rule Cmd5Cycles_wp) (simp_all add: cmd5_ok_def cmd5_last_def)


end
