(* ===== verification/Bus_Session.thy ===== *)
theory Bus_Session
  imports Firmware Bus_Mode
begin

text \<open>
  The bus as its owner uses it: sequences of calls of the SDIO functions, of the probe and of the firmware start.
  Once \<open>IoStopped\<close> is set no call touches a register, and a FIFO failure stays latched until the FIFO is
  prepared anew.
\<close>

section \<open>Chip and firmware keep the frames\<close>

text \<open>Backplane accesses are commands and transfers only.\<close>

context io_frame
begin

lemma WindowLoop_keeps [keeps_intros]: "keeps R (WindowLoop H is window)"
  by (induction "is") (auto intro!: keeps_intros)

lemma ReadBackplane_keeps [keeps_intros]: "keeps R (CywReadBackplane32 H current address)"
  unfolding CywReadBackplane32_def Let_def by (intro keeps_intros)

lemma ReadWindow_keeps [keeps_intros]: "keeps R (ReadWindow H is)"
  by (induction "is") (auto intro!: keeps_intros)

lemma RestoreWindow_keeps [keeps_intros]: "keeps R (RestoreWindow H i vs kept)"
  by (induction vs arbitrary: i kept) (auto simp: Restore_def intro!: keeps_intros)

lemma Window_keeps [keeps_intros]: "keeps R (CywWindow H address)"
  unfolding CywWindow_def Let_def by (intro keeps_intros)

lemma BpRead_keeps [keeps_intros]: "keeps R (CywBpRead H address)"
  unfolding CywBpRead_def by (intro keeps_intros)

lemma BpWrite_keeps [keeps_intros]: "keeps R (CywBpWrite H address v)"
  unfolding CywBpWrite_def by (intro keeps_intros)

lemma tryRead_keeps [keeps_intros]: "(\<And>v. keeps R (k v)) \<Longrightarrow> keeps R (tryRead H address k)"
  unfolding tryRead_def by (intro keeps_intros)

lemma tryWrite_keeps [keeps_intros]: "keeps R k \<Longrightarrow> keeps R (tryWrite H address v k)"
  unfolding tryWrite_def by (intro keeps_intros)

lemma HoldCore_keeps [keeps_intros]: "keeps R k \<Longrightarrow> keeps R (HoldCore H w control k)"
  unfolding HoldCore_def by (intro keeps_intros)

lemma ReleaseLoop_keeps [keeps_intros]: "keeps R (ReleaseLoop H n w)"
  by (induction n) (auto intro!: keeps_intros)

lemma Cr4Reset_keeps [keeps_intros]: "keeps R (CywCr4Reset H pre held post)"
  unfolding CywCr4Reset_def by (intro keeps_intros)

lemma D11Hold_keeps [keeps_intros]: "keeps R (CywD11Hold H)"
  unfolding CywD11Hold_def Let_def by (intro keeps_intros)

lemma ProbeRestore_keeps [keeps_intros]: "keeps R (ProbeRestore H p)"
  unfolding ProbeRestore_def Restore_def by (intro keeps_intros)

end

context card_frame
begin

lemma Diagnostics_keeps [keeps_intros]: "keeps R (Rpi5CywWriteDiagnostics stage st)"
  unfolding Rpi5CywWriteDiagnostics_def by (intro keeps_card) simp_all

lemma ProbePoll_keeps [keeps_intros]:
  "(\<And>v. keeps R (store v)) \<Longrightarrow> keeps R (ProbePoll H n function address bits store)"
  by (induction n) (auto intro!: keeps_intros)

lemma IdLoop_keeps [keeps_intros]: "keeps R (IdLoop H n first)"
  by (induction n arbitrary: first) (auto simp: Let_def intro!: keeps_intros)

lemma ProbeEnable_keeps [keeps_intros]: "keeps R (ProbeEnable H p)"
  unfolding ProbeEnable_def Let_def by (intro keeps_intros keeps_card) simp_all

lemma ProbeClock_keeps [keeps_intros]: "keeps R (ProbeClock H p)"
  unfolding ProbeClock_def Let_def by (intro keeps_intros)

lemma ProbeWindow_keeps [keeps_intros]: "keeps R (ProbeWindow H p)"
  unfolding ProbeWindow_def Let_def by (intro keeps_intros)

lemma WarmReset_keeps [keeps_intros]: "keeps R (WarmReset H)"
  unfolding WarmReset_def Let_def by (intro keeps_intros keeps_card) simp_all

lemma SelectCard_keeps [keeps_intros]: "keeps R (SelectCard H)"
  unfolding SelectCard_def Let_def by (intro keeps_intros keeps_card) simp_all

lemma ProbeRegisters_keeps [keeps_intros]: "keeps R (ProbeRegisters H)"
  unfolding ProbeRegisters_def ProbeRead_def by (intro keeps_intros keeps_card) simp_all

end

text \<open>The parser of the ROM also counts and traces the words it read.\<close>

locale erom_frame = io_frame +
  assumes erom_update: "R (a, w) (a\<lparr>ACard := (ACard a)\<lparr>EromWords := n\<rparr>, AChip := (AChip a)\<lparr>EromTrace := x\<rparr>\<rparr>, w)"
begin

lemma erom_context: "erom_reader (CywNextEromWord H) (\<lambda>(r, s). R s0 s) (\<lambda>_. 0)"
proof
  fix c :: "CYW_EROM_READER \<times> adapter \<times> 'a"
  obtain r s where c: "c = (r, s)" by (cases c)
  obtain st v win a w where run: "run_state (CywReadBackplane32 H (RdWindow r) (RdAddress r)) s = ((st, v, win), (a, w))"
    by (metis prod.exhaust_sel)
  have step: "R s (a, w)" using ReadBackplane_keeps run by (rule keepsD)
  have "R s (a\<lparr>ACard := (ACard a)\<lparr>EromWords := n\<rparr>, AChip := (AChip a)\<lparr>EromTrace := x\<rparr>\<rparr>, w)"
    "R s (a\<lparr>ACard := (ACard a)\<lparr>EromWords := n\<rparr>\<rparr>, w)" for n x
    using frame_trans [OF step erom_update [where n = n and x = x]] frame_trans [OF step erom_update [where n = n and x = "EromTrace (AChip a)"]] by simp_all
  moreover assume "case c of (r, s) \<Rightarrow> R s0 s"
  ultimately show "wp (CywNextEromWord H) (\<lambda>_ c'. (case c' of (r, s) \<Rightarrow> R s0 s) \<and> (0::nat) \<le> 0 + 1) c"
    using c run by (auto simp: CywNextEromWord_def wp_rules Let_def intro: frame_trans)
qed

lemma ParseCores_keeps [keeps_intros]: "keeps R (ParseCores H window address)"
  unfolding keeps_def
proof
  fix s
  define r0 where "r0 = \<lparr>RdAddress = address, RdWindow = window, RdRemaining =
    (if (0x1000 - (address AND 0xFFF)) div 4 > 512 then 512 else (0x1000 - (address AND 0xFFF)) div 4)\<rparr>"
  have "wp (CywParseErom (CywNextEromWord H)) (\<lambda>_ c'. case c' of (r, t) \<Rightarrow> R s t) (r0, s)"
    using erom_reader.CywParseErom_wp [OF erom_context, of s "(r0, s)"] frame_refl by (simp add: wp_def split: prod.splits)
  then show "R s (snd (run_state (ParseCores H window address) s))"
    unfolding ParseCores_def Let_def r0_def [symmetric] by (auto simp: wp_def split: prod.splits)
qed

end

locale chip_frame = card_frame + fifo_frame +
  assumes card_any: "R (a, w) (a\<lparr>ACard := k'\<rparr>, w)"
    and fw_update: "R (a, w) (a\<lparr>AFw := f'\<rparr>, w)"
    and netstop [keeps_intros]: "keeps R (world (hw_netstop H))"

sublocale chip_frame \<subseteq> erom_frame
proof
  fix a w n x
  show "R (a, w) (a\<lparr>ACard := (ACard a)\<lparr>EromWords := n\<rparr>, AChip := (AChip a)\<lparr>EromTrace := x\<rparr>\<rparr>, w)"
    by (rule frame_trans [OF card_any]) (rule chip_update)
qed

context chip_frame
begin

lemma keeps_card_any [keeps_intros]: "keeps R (cardS f)"
  by (simp add: keeps_def cardS_def modify_def card_any split: prod.split)

lemma keeps_fw [keeps_intros]: "keeps R (fwS f)"
  by (simp add: keeps_def fwS_def modify_def fw_update split: prod.split)

lemma DiscoverCores_keeps [keeps_intros]: "keeps R (CywDiscoverCores H)"
  unfolding CywDiscoverCores_def StoreCores_def ReadCr4_def Let_def by (intro keeps_intros)

lemma Cyw43455Probe_keeps [keeps_intros]: "keeps R (Cyw43455Probe H)"
  unfolding Cyw43455Probe_def ProbeBody_def ProbeIdentify_def Let_def by (intro keeps_intros)

lemma DirectSdioProbe_keeps [keeps_intros]: "keeps R (Rpi5CywDirectSdioProbe H)"
  unfolding Rpi5CywDirectSdioProbe_def by (intro keeps_intros)

lemma NetworkCancelled_keeps [keeps_intros]: "keeps R (NetworkCancelled H)"
  unfolding NetworkCancelled_def by (intro keeps_intros)

lemma FirmwareSnapshot_keeps [keeps_intros]: "keeps R (CywFirmwareSnapshot H Force)"
  unfolding CywFirmwareSnapshot_def by (intro keeps_intros)

lemma FirmwarePhase_keeps [keeps_intros]: "keeps R (CywFirmwarePhase H phase)"
  unfolding CywFirmwarePhase_def by (intro keeps_intros)

lemma RamLoop_keeps [keeps_intros]: "keeps R (RamLoop H address buf Write window)"
proof (induction buf arbitrary: address window rule: length_induct)
  case (1 buf)
  have "keeps R (RamLoop H address' (drop (RamChunk address (length buf)) buf) Write window')" if "buf \<noteq> []" for address' window'
    using that 1 RamChunk_bounds [of "length buf" address] by simp
  then show ?case
    by (subst RamLoop.simps) (auto simp: RamStep_def Let_def intro!: keeps_intros)
qed

lemma Ram_keeps [keeps_intros]: "keeps R (CywRam H address buf Write)"
  unfolding CywRam_def by (intro keeps_intros)

lemma PollRegister_keeps [keeps_intros]: "keeps R (PollRegister H n function address bits)"
  by (induction n) (auto intro!: keeps_intros)

lemma Clock_keeps [keeps_intros]: "keeps R (CywClock H request bits)"
  unfolding CywClock_def by (intro keeps_intros)

lemma Enable_keeps [keeps_intros]: "keeps R (CywEnable H bits)"
  unfolding CywEnable_def by (intro keeps_intros)

lemma StartupProbeLoop_keeps [keeps_intros]: "keeps R (StartupProbeLoop H n)"
  by (induction n) (auto intro!: keeps_intros)

lemma StartupProbeBus_keeps [keeps_intros]: "keeps R (CywStartupProbeBus H)"
  unfolding CywStartupProbeBus_def by (intro keeps_intros)

lemma PrepareFirmwareBus_keeps [keeps_intros]: "keeps R (CywPrepareFirmwareBus H)"
  unfolding CywPrepareFirmwareBus_def TryFastBus_def by (intro keeps_intros)

lemma FinishFirmwareBus_keeps [keeps_intros]: "keeps R (CywFinishFirmwareBus H)"
  unfolding CywFinishFirmwareBus_def by (intro keeps_intros)

lemma tryWrites_keeps [keeps_intros]: "keeps R (tryWrites H ws)"
  by (induction ws) (auto intro!: keeps_intros)

lemma Quiesce_keeps [keeps_intros]: "keeps R (FwQuiesce H)"
  unfolding FwQuiesce_def by (intro keeps_intros)

lemma RamBankLoop_keeps [keeps_intros]: "keeps R (RamBankLoop H is)"
  by (induction "is") (auto intro!: keeps_intros)

lemma Halt_keeps [keeps_intros]: "keeps R (FwHalt H)"
  unfolding FwHalt_def Let_def by (intro keeps_intros)

lemma ReadbackLoop_keeps [keeps_intros]: "keeps R (ReadbackLoop H fw fwSize off)"
proof (induction "length fw - off" arbitrary: off rule: less_induct)
  case less
  then show ?case by (subst ReadbackLoop.simps) (auto simp: Let_def intro!: keeps_intros)
qed

lemma Upload_keeps [keeps_intros]: "keeps R (FwUpload H fw fwSize)"
  unfolding FwUpload_def by (intro keeps_intros)

lemma Boot_keeps [keeps_intros]: "keeps R (FwBoot H fw nv)"
  unfolding FwBoot_def by (intro keeps_intros)

lemma VerifyReads_keeps [keeps_intros]: "keeps R (VerifyReads H n)"
  by (induction n) (auto simp: Let_def intro!: keeps_intros)

lemma VerifyRound_keeps: "(\<And>k. retry = Some k \<Longrightarrow> keeps R k) \<Longrightarrow> keeps R (VerifyRound H retry)"
  by (cases retry; simp only: VerifyRound_def option.case; intro keeps_intros; simp)

lemma VerifyOperatingBus_keeps [keeps_intros]: "keeps R (VerifyOperatingBus H)"
  unfolding VerifyOperatingBus_def by (intro VerifyRound_keeps) (auto intro: VerifyRound_keeps)

lemma FirmwareStop_keeps [keeps_intros]: "keeps R (CywFirmwareStop H)"
  unfolding CywFirmwareStop_def by (intro keeps_intros)

lemma FirmwareStart_keeps:
  assumes "\<And>n. keeps R (world (fs_open F n))" "\<And>n. keeps R (world (fs_query F n))"
    "\<And>n. keeps R (world (fs_alloc F n))" "\<And>n k. keeps R (world (fs_read F n k))"
  shows "keeps R (CywFirmwareStart H F)"
  unfolding CywFirmwareStart_def FwBody_def CywReadFirmwareFile_def Let_def
  by (intro keeps_intros assms)

end

section \<open>Sessions\<close>

datatype bus_call =
    CallCmd52Read u8 u32 | CallCmd52Write u8 u32 u8 u8 | CallCmd53Read u8 u32 bytes | CallCmd53Write u8 u32 bytes
  | CallFifo bytes bool | CallPrepareFifo | CallNegotiate | CallRestoreIdentification | CallRestoreDefault | CallProbe
  | CallBpRead u32 | CallBpWrite u32 u32 | CallFirmwareStart | CallFirmwareStop

text \<open>The state after a call.\<close>

fun after_call :: "'w hw \<Rightarrow> 'w files \<Rightarrow> bus_call \<Rightarrow> adapter \<times> 'w \<Rightarrow> adapter \<times> 'w" where
  "after_call H F (CallCmd52Read f x) s = snd (run_state (SdioCmd52Read H f x) s)"
| "after_call H F (CallCmd52Write f x v m) s = snd (run_state (SdioCmd52Write H f x v m) s)"
| "after_call H F (CallCmd53Read f x b) s = snd (run_state (SdioCmd53Read H f x b) s)"
| "after_call H F (CallCmd53Write f x b) s = snd (run_state (SdioCmd53Write H f x b) s)"
| "after_call H F (CallFifo b w) s = snd (run_state (SdioFifoTransfer H b w) s)"
| "after_call H F CallPrepareFifo s = snd (run_state (SdioPrepareRuntimeFifo H) s)"
| "after_call H F CallNegotiate s = snd (run_state (SdioNegotiateOperatingSpeed H) s)"
| "after_call H F CallRestoreIdentification s = snd (run_state (SdioRestoreIdentificationBus H) s)"
| "after_call H F CallRestoreDefault s = snd (run_state (SdioRestoreDefaultOperatingBus H) s)"
| "after_call H F CallProbe s = snd (run_state (Rpi5CywDirectSdioProbe H) s)"
| "after_call H F (CallBpRead x) s = snd (run_state (CywBpRead H x) s)"
| "after_call H F (CallBpWrite x v) s = snd (run_state (CywBpWrite H x v) s)"
| "after_call H F CallFirmwareStart s = snd (run_state (CywFirmwareStart H F) s)"
| "after_call H F CallFirmwareStop s = snd (run_state (CywFirmwareStop H) s)"

definition after_calls :: "'w hw \<Rightarrow> 'w files \<Rightarrow> bus_call list \<Rightarrow> adapter \<times> 'w \<Rightarrow> adapter \<times> 'w" where
  "after_calls H F = fold (after_call H F)"

context chip_frame
begin

lemma PrepareFifo_keeps: "(\<And>f. keeps R (fifoS f)) \<Longrightarrow> keeps R (SdioPrepareRuntimeFifo H)"
  unfolding SdioPrepareRuntimeFifo_def by (intro keeps_intros)

lemma after_call_frame:
  assumes "\<And>n. keeps R (world (fs_open F n))" "\<And>n. keeps R (world (fs_query F n))"
    "\<And>n. keeps R (world (fs_alloc F n))" "\<And>n k. keeps R (world (fs_read F n k))"
    and "c = CallPrepareFifo \<Longrightarrow> keeps R (SdioPrepareRuntimeFifo H)"
  shows "R s (after_call H F c s)"
  by (cases c; simp only: after_call.simps;
      intro keeps_snd Cmd52Read_keeps Cmd52Write_keeps Cmd53Read_keeps Cmd53Write_keeps FifoTransfer_keeps
        NegotiateOperatingSpeed_keeps RestoreIdentificationBus_keeps RestoreDefaultOperatingBus_keeps DirectSdioProbe_keeps
        BpRead_keeps BpWrite_keeps FirmwareStart_keeps FirmwareStop_keeps assms)

lemma after_calls_frame:
  assumes "\<And>n. keeps R (world (fs_open F n))" "\<And>n. keeps R (world (fs_query F n))"
    "\<And>n. keeps R (world (fs_alloc F n))" "\<And>n k. keeps R (world (fs_read F n k))"
    and "CallPrepareFifo \<in> set cs \<Longrightarrow> keeps R (SdioPrepareRuntimeFifo H)"
  shows "R s (after_calls H F cs s)"
  using assms(5)
proof (induction cs arbitrary: s)
  case Nil
  then show ?case by (simp add: after_calls_def frame_refl)
next
  case (Cons c cs)
  have "R s (after_call H F c s)" by (rule after_call_frame [OF assms(1-4)]) (use Cons.prems in auto)
  moreover have "R (after_call H F c s) (after_calls H F cs (after_call H F c s))"
    by (rule Cons.IH) (use Cons.prems in simp)
  ultimately show ?case unfolding after_calls_def by (simp add: frame_trans [of s])
qed

end

section \<open>The latch\<close>

text \<open>The failure latch of the FIFO is never cleared.\<close>

lemma FifoTransfer_failed:
  "wp (SdioFifoTransfer H buf Write) (\<lambda>(st, buf') t. buf \<noteq> [] \<longrightarrow> length buf \<le> 65536 \<longrightarrow> length buf mod 4 = 0 \<longrightarrow>
     \<not> NT_SUCCESS st \<longrightarrow> FifoTransportFailed (AFifo (fst t)) \<and> (\<not> Write \<longrightarrow> buf' = replicate (length buf) 0)) s"
  unfolding SdioFifoTransfer_def wp_rules state_defs
  by (auto simp: wp_rules split: sum.splits intro!: wp_any [of _ "FifoLoop H buf _"])

lemma FifoTransfer_latched:
  "FifoTransportFailed (AFifo (fst s)) \<Longrightarrow> buf \<noteq> [] \<Longrightarrow> length buf \<le> 65536 \<Longrightarrow> length buf mod 4 = 0 \<Longrightarrow>
   run_state (SdioFifoTransfer H buf Write) s =
     ((STATUS_INVALID_DEVICE_STATE, if Write then buf else replicate (length buf) 0), s)"
  by (cases s) (simp add: SdioFifoTransfer_def asks_def)

definition fifo_latch :: "adapter \<Rightarrow> adapter \<Rightarrow> bool" where
  "fifo_latch a b \<longleftrightarrow> (FifoTransportFailed (AFifo a) \<longrightarrow> FifoTransportFailed (AFifo b))"

interpretation latch_rel: adapter_relation fifo_latch
  by unfold_locales (simp_all add: fifo_latch_def)

interpretation latch: chip_frame "\<lambda>s t. fifo_latch (fst s) (fst t)" H for H :: "'w hw"
  by unfold_locales (rule latch_rel.register_ops | fastforce simp: fifo_latch_def)+

text \<open>
  C36 (error).  A FIFO transfer that fails leaves no received byte in the buffer of a read, and after it, through any
  sequence of calls of the SDIO functions, the backplane, the probe and the firmware start and stop, every further transfer is
  refused with \<open>STATUS_INVALID_DEVICE_STATE\<close> and without any effect, until \<open>SdioPrepareRuntimeFifo\<close> is called: a partly
  consumed FIFO is never replayed.
\<close>

theorem fifo_failure_is_latched:
  assumes "run_state (SdioFifoTransfer H buf Write) s = ((st, buf'), t)"
    and "\<not> NT_SUCCESS st" and "buf \<noteq> []" and "length buf \<le> 65536" and "length buf mod 4 = 0"
    and "CallPrepareFifo \<notin> set calls"
    and "buf2 \<noteq> []" and "length buf2 \<le> 65536" and "length buf2 mod 4 = 0"
  shows "(Write \<or> buf' = replicate (length buf) 0) \<and>
    run_state (SdioFifoTransfer H buf2 Write2) (after_calls H F calls t) =
      ((STATUS_INVALID_DEVICE_STATE, if Write2 then buf2 else replicate (length buf2) 0), after_calls H F calls t)"
proof -
  have f: "FifoTransportFailed (AFifo (fst t))" "\<not> Write \<longrightarrow> buf' = replicate (length buf) 0"
    using FifoTransfer_failed [of H buf Write s] assms by (simp_all add: wp_def)
  have "fifo_latch (fst t) (fst (after_calls H F calls t))"
    using assms(6) by (intro latch.after_calls_frame latch_rel.keeps_world) auto
  with f have "FifoTransportFailed (AFifo (fst (after_calls H F calls t)))" by (simp add: fifo_latch_def)
  from FifoTransfer_latched [OF this assms(7-9)] f(2) show ?thesis by auto
qed

section \<open>After the stop\<close>

text \<open>
  \<open>I\<close> holds of worlds in which \<open>IoStopped\<close> is set; clocks, delays, volatile flags and files keep it.  Nothing is
  required of register accesses, so a call that keeps every such \<open>I\<close> makes none.
\<close>

definition stopped_world :: "'w hw \<Rightarrow> 'w files \<Rightarrow> ('w \<Rightarrow> bool) \<Rightarrow> bool" where
  "stopped_world H F I \<longleftrightarrow> (\<forall>w. I w \<longrightarrow> fst (hw_stopped H w) \<and> I (snd (hw_stopped H w)) \<and> I (snd (hw_time H w)) \<and>
     I (snd (hw_qpc H w)) \<and> I (snd (hw_netstop H w)) \<and> (\<forall>us. I (hw_delay H us w)) \<and>
     (\<forall>n. I (snd (fs_open F n w)) \<and> I (snd (fs_query F n w)) \<and> I (snd (fs_alloc F n w)) \<and> (\<forall>k. I (snd (fs_read F n k w)))))"

definition quiet :: "('w \<Rightarrow> bool) \<Rightarrow> adapter \<times> 'w \<Rightarrow> adapter \<times> 'w \<Rightarrow> bool" where
  "quiet I s t \<longleftrightarrow> (I (snd s) \<longrightarrow> I (snd t))"

lemma quiet_world: "(\<And>w. I w \<Longrightarrow> I (snd (f w))) \<Longrightarrow> keeps (quiet I) (world f)"
  by (auto simp: keeps_def quiet_def world_def split: prod.splits) (metis snd_conv)

lemma quiet_act: "(\<And>w. I w \<Longrightarrow> I (f w)) \<Longrightarrow> keeps (quiet I) (act f)"
  by (auto simp: keeps_def quiet_def act_def)

lemma quiet_guard:
  assumes "stopped_world H F I" and "keeps (quiet I) (k True)"
  shows "keeps (quiet I) (do { stop \<leftarrow> IoStopped H; k stop })"
  unfolding keeps_def
proof
  fix s :: "adapter \<times> 'a"
  obtain a w where s: "s = (a, w)" by (cases s)
  obtain b w' where run: "hw_stopped H w = (b, w')" by (cases "hw_stopped H w")
  have "b \<and> I w'" if "I w" using assms(1) that run unfolding stopped_world_def by (metis fst_conv snd_conv)
  moreover have "quiet I (a, w') (snd (run_state (k True) (a, w')))" using assms(2) by (simp add: keeps_def)
  ultimately show "quiet I s (snd (run_state (do { stop \<leftarrow> IoStopped H; k stop }) s))"
    by (cases "I w") (auto simp: s run quiet_def IoStopped_def world_def)
qed

interpretation quiet_rel: frame_relation "quiet I" for I
  by unfold_locales (simp_all add: quiet_def)

lemma quiet_registers:
  assumes "stopped_world H F I"
  shows "keeps (quiet I) (SdioRead8 H off)" "keeps (quiet I) (SdioRead16 H off)" "keeps (quiet I) (SdioRead32 H off)"
    "keeps (quiet I) (SdioWrite8 H off v8)" "keeps (quiet I) (SdioWrite16 H off v16)" "keeps (quiet I) (SdioWrite32 H off v32)"
  unfolding SdioRead8_def SdioRead16_def SdioRead32_def SdioWrite8_def SdioWrite16_def SdioWrite32_def
  by (rule quiet_guard [OF assms], simp add: quiet_rel.keeps_return)+

lemma quiet_clocks:
  assumes "stopped_world H F I"
  shows "keeps (quiet I) (IoStopped H)" "keeps (quiet I) (InterruptTime H)" "keeps (quiet I) (world (hw_qpc H))"
    "keeps (quiet I) (world (hw_netstop H))" "keeps (quiet I) (act (hw_delay H us))"
    "keeps (quiet I) (world (fs_open F n))" "keeps (quiet I) (world (fs_query F n))"
    "keeps (quiet I) (world (fs_alloc F n))" "keeps (quiet I) (world (fs_read F n k))"
  using assms unfolding stopped_world_def IoStopped_def InterruptTime_def by (auto intro!: quiet_world quiet_act)

lemma quiet_chip_frame:
  assumes "stopped_world H F I"
  shows "chip_frame (quiet I) H"
  by unfold_locales (rule quiet_registers [OF assms] quiet_clocks [OF assms] | simp add: quiet_def)+

text \<open>A call made after the stop fails: the wait for an idle bus, which every command starts with, does.\<close>

lemma IoStopped_stopped:
  assumes "stopped_world H F I" "I (snd s)" "\<And>t. I (snd t) \<Longrightarrow> Q True t"
  shows "wp (IoStopped H) Q s"
  using assms unfolding stopped_world_def IoStopped_def wp_rules by (auto split: prod.split)

lemma InhibitLoop_stopped:
  assumes "stopped_world H F I" "I (snd s)" "\<And>t. I (snd t) \<Longrightarrow> Q STATUS_INVALID_DEVICE_STATE t"
  shows "wp (InhibitLoop H (Suc n) bits) Q s"
  by (auto simp: wp_rules intro!: IoStopped_stopped [OF assms(1,2)] assms(3))

lemma WaitInhibit_stopped:
  assumes "stopped_world H F I" "I (snd s)" "\<And>t. I (snd t) \<Longrightarrow> Q STATUS_INVALID_DEVICE_STATE t"
  shows "wp (SdioWaitInhibitClear H bits) Q s"
  using InhibitLoop_stopped [where n = 9999 and bits = bits and Q = Q, OF assms] unfolding SdioWaitInhibitClear_def by simp

lemma quiet_io_frame: "stopped_world H F I \<Longrightarrow> io_frame (quiet I) H"
  using quiet_chip_frame by (auto dest!: chip_frame.axioms(1) card_frame.axioms(1) bus_frame.axioms(1))

lemma TimingBegin_stopped:
  assumes "stopped_world H F I" "I (snd s)" "\<And>x t. I (snd t) \<Longrightarrow> Q x t"
  shows "wp (TimingBegin H k) Q s"
  by (rule wp_mono [OF wp_keeps [OF reg_frame.TimingBegin_keeps [OF io_frame.axioms(1) [OF quiet_io_frame [OF assms(1)]]], where s = s]])
    (use assms(2,3) in \<open>auto simp: quiet_def\<close>)

lemma Cmd53Raw_stopped:
  assumes "stopped_world H F I" "I (snd s)"
  shows "wp (SdioCmd53TransferRaw H function address buf Write inc) (\<lambda>r _. \<not> NT_SUCCESS (fst r)) s"
  unfolding SdioCmd53TransferRaw_def wp_rules Let_def state_defs TransferFailed_def
  using assms(2) by (auto simp: wp_rules intro!: WaitInhibit_stopped [OF assms(1)]
      wp_any [of _ "SdioResetHost H _"] wp_any [of _ "SdioWrite32 H _ _"])

lemma Cmd53Transfer_stopped:
  assumes "stopped_world H F I" "I (snd s)"
  shows "wp (SdioCmd53Transfer H function address buf Write inc) (\<lambda>r _. \<not> NT_SUCCESS (fst r)) s"
  unfolding SdioCmd53Transfer_def wp_rules Let_def
  using assms(2) by (auto simp: wp_rules intro!: TimingBegin_stopped [OF assms(1)] wp_any [of _ "TimingEnd H _ _"]
      wp_mono [OF Cmd53Raw_stopped [OF assms(1)]])

lemma FifoBlocksRaw_stopped:
  assumes "stopped_world H F I" "I (snd s)"
  shows "wp (SdioFifoBlocksRaw H buf blocks Write) (\<lambda>r _. \<not> NT_SUCCESS (fst r)) s"
  unfolding SdioFifoBlocksRaw_def wp_rules Let_def
  using assms(2) by (auto simp: wp_rules intro!: IoStopped_stopped [OF assms(1)])

lemma FifoBlocks_stopped:
  assumes "stopped_world H F I" "I (snd s)"
  shows "wp (SdioFifoBlocks H buf blocks Write) (\<lambda>r _. \<not> NT_SUCCESS (fst r)) s"
  unfolding SdioFifoBlocks_def wp_rules Let_def
  using assms(2) by (auto simp: wp_rules intro!: TimingBegin_stopped [OF assms(1)] wp_any [of _ "TimingEnd H _ _"]
      wp_mono [OF FifoBlocksRaw_stopped [OF assms(1)]])

lemma FifoLoop_stopped:
  assumes "stopped_world H F I" "I (snd s)" "buf \<noteq> []"
  shows "wp (FifoLoop H buf Write) (\<lambda>r _. \<exists>st. r = Inl st \<and> \<not> NT_SUCCESS st) s"
  using assms(2,3) unfolding FifoLoop.simps [of H buf] wp_rules Let_def
  by (auto simp: wp_rules intro!: wp_mono [OF FifoBlocks_stopped [OF assms(1)]] wp_mono [OF Cmd53Transfer_stopped [OF assms(1)]])

lemma FifoTransfer_stopped:
  assumes "stopped_world H F I" "I (snd s)"
  shows "wp (SdioFifoTransfer H buf Write) (\<lambda>r _. \<not> NT_SUCCESS (fst r)) s"
  unfolding SdioFifoTransfer_def wp_rules
  by (auto simp: wp_rules state_defs intro!: wp_mono [OF FifoLoop_stopped [OF assms]])

lemma Cmd52Read_stopped:
  assumes "stopped_world H F I" "I (snd s)"
  shows "wp (SdioCmd52Read H function address) (\<lambda>r _. \<not> NT_SUCCESS (fst r)) s"
proof -
  have "wp (SdioSendCommandRaw H i arg flags want) (\<lambda>r _. \<not> NT_SUCCESS (fst r)) t" if "I (snd t)" for i arg flags want t
    unfolding SdioSendCommandRaw_def wp_rules state_defs ResetCommand_def
    using that by (auto simp: wp_rules intro!: WaitInhibit_stopped [OF assms(1)] wp_any [of _ "SdioResetHost H _"])
  note raw = this
  show ?thesis unfolding SdioCmd52Read_def SdioSendCommand_def wp_rules
    using assms by (auto simp: wp_rules intro!: TimingBegin_stopped [OF assms(1)] wp_any [of _ "TimingEnd H _ _"] wp_mono [OF raw])
qed

text \<open>
  C37 (safety).  Once \<open>IoStopped\<close> is set no register of the controller is read or written again: whatever sequence of calls
  follows - commands, transfers, bus modes, the probe, the firmware start or stop - every fact about the world that clocks,
  delays, flags and files leave alone is still there afterwards.  A transfer or register read made then reports failure.
\<close>

theorem stopped_bus_is_silent:
  assumes "stopped_world H F I" and "I (snd s)"
  shows "I (snd (after_calls H F calls s)) \<and>
    \<not> NT_SUCCESS (fst (fst (run_state (SdioFifoTransfer H buf Write) (after_calls H F calls s)))) \<and>
    \<not> NT_SUCCESS (fst (fst (run_state (SdioCmd52Read H function address) (after_calls H F calls s))))"
proof -
  have "keeps (quiet I) (fifoS f)" for f
    by (simp add: keeps_def quiet_def fifoS_def modify_def split: prod.split)
  then have "quiet I s (after_calls H F calls s)"
    by (intro chip_frame.after_calls_frame [OF quiet_chip_frame [OF assms(1)] quiet_clocks(6-9) [OF assms(1)]]
        chip_frame.PrepareFifo_keeps [OF quiet_chip_frame [OF assms(1)]])
  then have "I (snd (after_calls H F calls s))" using assms(2) by (simp add: quiet_def)
  note after = this
  from after FifoTransfer_stopped [OF assms(1) after, of buf Write] Cmd52Read_stopped [OF assms(1) after, of "function" address]
  show ?thesis by (simp add: wp_def split: prod.splits)
qed

section \<open>A sample world\<close>

text \<open>A freshly allocated adapter, and a stopped world that counts register accesses.\<close>

definition zero_cmdd :: cmdd where
  "zero_cmdd = \<lparr>LastCommand = 0, LastArgument = 0, LastInterruptStatus = 0, LastResponse = 0,
     LastCommandResetStatus = 0, Cmd53BytesTransferred = 0, Cmd53ResetStatus = 0, Cmd53ReadCount = 0,
     Cmd53WriteCount = 0, Cmd53FastPolls = 0, Cmd53WaitSleeps = 0, Cmd53Timeouts = 0, RuntimeF1FastPolls = 0,
     RuntimeCmd53SleepPhase = [], RuntimeF1WaitSleeps = 0, RuntimeF2WaitSleeps = 0, RuntimeCmd53Sleep100ns =
     0\<rparr>"

definition zero_busd :: busd where
  "zero_busd = \<lparr>BusModeStage = 0, BusTargetKhz = 0, BusActualKhz = 0, BusWidth = 0, BusCardInterface = 0,
     BusCardSpeed = 0, BusVerifyReads = 0, BusUpgradeStatus = 0, BusRecoveryStatus = 0, BusVerifyStatus = 0,
     BusHighSpeedEligible = False, BusHighSpeedAttempted = False, BusHighSpeedActive = False,
     BusHighSpeedRejectMask = 0, BusHighSpeedStatus = 0\<rparr>"

definition zero_fifod :: fifod where
  "zero_fifod = \<lparr>FifoBlockReady = False, FifoTransportFailed = False, FifoBlockCommands = 0,
     FifoBlockBytes = 0, FifoBlockFailures = 0, FifoLateCompletionAccepted = 0, FifoLastFailureStatus = 0,
     FifoLastFailureWrite = 0, FifoLastFailureBlocks = 0, FifoLastFailureCompletedBlocks = 0,
     FifoLastFailureWaitEvent = 0, FifoLastFailureInterruptStatus = 0, FifoLastFailurePresentState = 0,
     FifoLastFailureBytesTransferred = 0\<rparr>"

definition zero_cardd :: cardd where
  "zero_cardd = \<lparr>Cmd5AttemptCount = 0, Cmd5ValidAttempt = 0, Cmd5SuccessAttempt = 0, Cmd5Attempts = [],
     Cmd5ProbeResponse = 0, SdioOcr = 0, SdioFunctions = 0, RelativeAddress = 0, CccrRevision = 0, IoEnable = 0,
     IoReady = 0, F1InterfaceCode = 0, F2InterfaceCode = 0, WarmCardResetAttempts = 0, WarmCardResetStatus = 0,
     DiagStage = 0, ProbeStatus = 0, ProbePhase = 0, EromWords = 0, CoreInventoryComplete = False\<rparr>"

definition zero_bpd :: bpd where
  "zero_bpd = \<lparr>BpWindow = 0, BpWindowValid = False, BpWindowCacheHits = 0, BpWindowSelections =
     0\<rparr>"

definition zero_chipd :: chipd where
  "zero_chipd = \<lparr>Function1Ready = False, ChipClockCsr = 0, ChipIdRaw = 0, ChipId = 0, ChipRevision = 0,
     EromBase = 0, EromTrace = [], CoreCount = 0, ChipCommonBase = 0, SdioCoreBase = 0, D11CoreBase = 0,
     D11WrapperBase = 0, Cr4CoreBase = 0, Cr4WrapperBase = 0, Cr4Capabilities = 0, Cr4IoControl = 0,
     Cr4ResetControl = 0, RamBankCount = 0, RamBase = 0, RamSize = 0, ProbeRestoreStatus = 0\<rparr>"

definition zero_fwd :: fwd where
  "zero_fwd = \<lparr>FwNetworkPhase = 0, FwNetworkStatus = 0, FirmwareBytes = 0, FirmwareTotalBytes = 0,
     FirmwareUploadedBytes = 0, FirmwareStartupBusKhz = 0, FirmwareStartupFallback = False,
     FirmwareStartupElapsedMs = 0, FirmwareStartupStatus = 0, FirmwareNextSnapshot = 0, RamTransferStatus = 0,
     RamTransferStage = 0, RamTransferAddress = 0, RamTransferLength = 0, RamTransferWrite = False\<rparr>"

definition zero_adapter :: adapter where
  "zero_adapter = \<lparr>AHost = zero_hostd, ACmd = zero_cmdd, ABus = zero_busd, AFifo = zero_fifod, ACard =
     zero_cardd, ABp = zero_bpd, AChip = zero_chipd, AFw = zero_fwd, ATiming = CywTimingStart False 0 0,
     ADetailed = False\<rparr>"

definition counting_hw :: "nat hw" where
  "counting_hw = \<lparr>hw_read8 = \<lambda>_ n. (0, n + 1), hw_read16 = \<lambda>_ n. (0, n + 1), hw_read32 = \<lambda>_ n. (0, n + 1),
     hw_write8 = \<lambda>_ _ n. n + 1, hw_write16 = \<lambda>_ _ n. n + 1, hw_write32 = \<lambda>_ _ n. n + 1,
     hw_time = \<lambda>n. (0, n), hw_qpc = \<lambda>n. (0, n), hw_delay = \<lambda>_ n. n, hw_stopped = \<lambda>n. (True, n),
     hw_netstop = \<lambda>n. (True, n)\<rparr>"

definition no_files :: "nat files" where
  "no_files = \<lparr>fs_open = \<lambda>_ n. (STATUS_UNSUCCESSFUL, n), fs_query = \<lambda>_ n. ((STATUS_UNSUCCESSFUL, 0), n),
     fs_alloc = \<lambda>_ n. (False, n), fs_read = \<lambda>_ _ n. ((STATUS_UNSUCCESSFUL, []), n)\<rparr>"

lemma counting_stopped: "stopped_world counting_hw no_files (\<lambda>n. n = 0)"
  by (simp add: stopped_world_def counting_hw_def no_files_def)

theorem stopped_bus_is_silent_witness:
  "let s = after_calls counting_hw no_files [CallProbe, CallFirmwareStart, CallFifo [1, 2, 3, 4] True] (zero_adapter, 0) in
   snd s = 0 \<and> \<not> NT_SUCCESS (fst (fst (run_state (SdioFifoTransfer counting_hw [1, 2, 3, 4] True) s))) \<and>
   \<not> NT_SUCCESS (fst (fst (run_state (SdioCmd52Read counting_hw 0 2) s)))"
  using stopped_bus_is_silent [OF counting_stopped, of "(zero_adapter, 0)"] by (simp add: Let_def)

theorem fifo_failure_is_latched_witness:
  "let t = snd (run_state (SdioFifoTransfer counting_hw [1, 2, 3, 4] False) (zero_adapter, 0));
       u = after_calls counting_hw no_files [CallProbe, CallNegotiate] t in
   run_state (SdioFifoTransfer counting_hw [5, 6, 7, 8] True) u = ((STATUS_INVALID_DEVICE_STATE, [5, 6, 7, 8]), u)"
proof -
  obtain st b t where run: "run_state (SdioFifoTransfer counting_hw [1, 2, 3, 4] False) (zero_adapter, 0) = ((st, b), t)"
    by (metis prod.exhaust_sel)
  have "\<not> NT_SUCCESS st"
    using FifoTransfer_stopped [OF counting_stopped, of "(zero_adapter, 0)" "[1, 2, 3, 4]" False] run by (simp add: wp_def)
  from fifo_failure_is_latched [OF run this, of "[CallProbe, CallNegotiate]" "[5, 6, 7, 8]" True no_files]
  show ?thesis by (simp add: Let_def run)
qed

end
