(* ===== verification/Transport_Safety.thy ===== *)
theory Transport_Safety
  imports Transport Bus_Session
begin

text \<open>
  The receive path is memory safe and keeps its invariant: the poll never reads outside of the receive buffer, the tables or
  the multicast list, whatever the firmware sends, and hands to NDIS only frames the host asked for.
\<close>

section \<open>Frames of the link\<close>

locale link_relation =
  fixes P :: "link \<Rightarrow> link \<Rightarrow> bool"
  assumes P_refl: "P a a"
    and P_trans: "P a b \<Longrightarrow> P b c \<Longrightarrow> P a c"

sublocale link_relation \<subseteq> frame_relation "\<lambda>s t. P (fst s) (fst t)"
  by unfold_locales (auto intro: P_refl P_trans)

context link_relation
begin

lemma keeps_bus [keeps_intros]: "keeps (\<lambda>s t. P (fst s) (fst t)) (bus m)"
  by (simp add: keeps_def bus_def P_refl split: prod.split)

lemma keeps_lasks [keeps_intros]: "keeps (\<lambda>s t. P (fst s) (fst t)) (lasks f)"
  by (simp add: keeps_def lasks_def P_refl split: prod.split)

lemma keeps_lmod: "(\<And>l. P l (f l)) \<Longrightarrow> keeps (\<lambda>s t. P (fst s) (fst t)) (lmod f)"
  by (simp add: keeps_def lmod_def split: prod.split)

lemma keeps_linkTime [keeps_intros]: "keeps (\<lambda>s t. P (fst s) (fst t)) (linkTime H)"
  unfolding linkTime_def by (intro keeps_intros)

lemma keeps_netStop [keeps_intros]: "keeps (\<lambda>s t. P (fst s) (fst t)) (netStop H)"
  unfolding netStop_def by (intro keeps_intros)

end

text \<open>The service changes the flow state and its own counters, and announces received frames.\<close>

locale service_frame = link_relation +
  assumes flow_update: "P l (l\<lparr>LFlow := f\<rparr>)"
    and svc_update: "P l (l\<lparr>LSvc := v\<rparr>)"
    and txflow_update: "P l (l\<lparr>TxFlow := x\<rparr>)"
    and pending_update: "P l (l\<lparr>LRx := (LRx l)\<lparr>RxPending := b\<rparr>\<rparr>)"
begin

lemma keeps_flow [keeps_intros]: "keeps (\<lambda>s t. P (fst s) (fst t)) (flowS f)"
  unfolding flowS_def by (intro keeps_lmod flow_update)

lemma keeps_svc [keeps_intros]: "keeps (\<lambda>s t. P (fst s) (fst t)) (svcS f)"
  unfolding svcS_def by (intro keeps_lmod svc_update)

lemma keeps_txflow [keeps_intros]: "keeps (\<lambda>s t. P (fst s) (fst t)) (lmod (\<lambda>l. l\<lparr>TxFlow := x\<rparr>))"
  by (intro keeps_lmod txflow_update)

lemma keeps_pending [keeps_intros]: "keeps (\<lambda>s t. P (fst s) (fst t)) (rxS (\<lambda>r. r\<lparr>RxPending := b\<rparr>))"
  unfolding rxS_def by (intro keeps_lmod pending_update)

lemma ServiceFailed_keeps [keeps_intros]: "keeps (\<lambda>s t. P (fst s) (fst t)) (ServiceFailed H st)"
  unfolding ServiceFailed_def by (intro keeps_intros)

lemma readCore_keeps [keeps_intros]:
  "(\<And>v. keeps (\<lambda>s t. P (fst s) (fst t)) (k v)) \<Longrightarrow> keeps (\<lambda>s t. P (fst s) (fst t)) (readCore H offset k)"
  unfolding readCore_def CoreRegister_def by (intro keeps_intros)

lemma writeCore_keeps [keeps_intros]:
  "keeps (\<lambda>s t. P (fst s) (fst t)) k \<Longrightarrow> keeps (\<lambda>s t. P (fst s) (fst t)) (writeCore H offset v k)"
  unfolding writeCore_def CoreRegister_def by (intro keeps_intros)

lemma ServiceStatus_keeps [keeps_intros]: "keeps (\<lambda>s t. P (fst s) (fst t)) (ServiceStatus H fallback)"
  unfolding ServiceStatus_def ServiceFlowChange_def ServiceEvents_def ServiceMail_def StatusObserved_def Let_def
  by (intro keeps_intros)

lemma Service_keeps [keeps_intros]: "keeps (\<lambda>s t. P (fst s) (fst t)) (CywTransportService H probePending)"
  unfolding CywTransportService_def by (intro keeps_intros)

end

text \<open>Everything else is as it was.\<close>

definition rx_same :: "rxd \<Rightarrow> rxd \<Rightarrow> bool" where
  "rx_same r q \<longleftrightarrow> RxBuffer q = RxBuffer r \<and> RxNextLength q = RxNextLength r \<and> RxGlom q = RxGlom r \<and> RxBatch q = RxBatch r \<and>
     PacketRxWire q = PacketRxWire r \<and> PacketRxHost q = PacketRxHost r \<and> RxIndicated q = RxIndicated r"

definition serviced :: "link \<Rightarrow> link \<Rightarrow> bool" where
  "serviced l m \<longleftrightarrow> LSeq m = LSeq l \<and> rx_same (LRx l) (LRx m) \<and> LFilter m = LFilter l \<and> LNet m = LNet l \<and>
     LTraffic m = LTraffic l \<and> LProbe m = LProbe l \<and> LTx m = LTx l \<and> LDiag m = LDiag l \<and> TxSeq m = TxSeq l \<and> TxMax m = TxMax l \<and> LFault m = LFault l"

interpretation service: service_frame serviced
  by unfold_locales (simp_all add: serviced_def rx_same_def)

section \<open>Outcome of the service\<close>

definition service_ok :: "NTSTATUS \<Rightarrow> link \<times> 's \<Rightarrow> bool" where
  "service_ok st t \<longleftrightarrow> (if NT_SUCCESS st then \<not> Halted (LFlow (fst t))
     else st = STATUS_CANCELLED \<or> Halted (LFlow (fst t)) \<or> GlobalFlow (LFlow (fst t)))"

lemma SetGlobal_simps [simp]:
  "GlobalFlow (CywTransportSetGlobal b now T) = b" "Halted (CywTransportSetGlobal b now T) = Halted T"
  by (simp_all add: CywTransportSetGlobal_def Let_def)

lemma SetPriority_simps [simp]:
  "GlobalFlow (CywTransportSetPriority f now T) = GlobalFlow T" "Halted (CywTransportSetPriority f now T) = Halted T"
  by (simp_all add: CywTransportSetPriority_def Let_def)

lemma ServiceFailed_wp:
  assumes "\<And>t. GlobalFlow (LFlow (fst t)) \<Longrightarrow> Q st t"
  shows "wp (ServiceFailed H st) Q s"
  unfolding ServiceFailed_def link_defs wp_rules by (auto intro!: wp_any [of _ "InterruptTime H"] assms)

lemma readCore_wp:
  assumes "\<And>v t. wp (k v) Q (fst s, t)" "\<And>st t. \<not> NT_SUCCESS st \<Longrightarrow> GlobalFlow (LFlow (fst t)) \<Longrightarrow> Q st t"
  shows "wp (readCore H offset k) Q s"
  unfolding readCore_def CoreRegister_def wp_rules
  by (rule wp_any) (auto simp: wp_rules intro!: assms ServiceFailed_wp)

lemma writeCore_wp:
  assumes "\<And>t. wp k Q (fst s, t)" "\<And>st t. \<not> NT_SUCCESS st \<Longrightarrow> GlobalFlow (LFlow (fst t)) \<Longrightarrow> Q st t"
  shows "wp (writeCore H offset v k) Q s"
  unfolding writeCore_def CoreRegister_def wp_rules
  by (rule wp_any) (auto intro!: assms ServiceFailed_wp)

lemma service_ok_failed: "\<not> NT_SUCCESS st \<Longrightarrow> GlobalFlow (LFlow (fst t)) \<Longrightarrow> service_ok st t"
  by (simp add: service_ok_def)

lemma ServiceEvents_wp:
  assumes "\<not> Halted (LFlow (fst s))"
  shows "wp (ServiceEvents H fallback ist) service_ok s"
  unfolding ServiceEvents_def ServiceMail_def link_defs wp_rules
  by (auto simp: wp_rules Let_def service_ok_def assms intro!: readCore_wp writeCore_wp wp_any [of _ "InterruptTime H"])

lemma StatusObserved_wp:
  assumes "\<And>t. Halted (LFlow (fst t)) = Halted (LFlow (fst s)) \<Longrightarrow> Q () t"
  shows "wp (StatusObserved H v flow) Q s"
  unfolding StatusObserved_def link_defs wp_rules by (auto intro!: wp_any [of _ "InterruptTime H"] assms)

lemma ServiceFlowChange_wp:
  assumes "\<not> Halted (LFlow (fst s))"
  shows "wp (ServiceFlowChange H ist (ServiceEvents H fallback)) service_ok s"
  unfolding ServiceFlowChange_def link_defs wp_rules
  by (auto simp: wp_rules assms intro!: readCore_wp writeCore_wp StatusObserved_wp ServiceEvents_wp service_ok_failed)

lemma ServiceStatus_wp:
  assumes "\<not> Halted (LFlow (fst s))"
  shows "wp (ServiceStatus H fallback) service_ok s"
  unfolding ServiceStatus_def Let_def link_defs wp_rules
  by (auto simp: wp_rules assms intro!: readCore_wp writeCore_wp StatusObserved_wp ServiceFlowChange_wp service_ok_failed)

lemma Service_wp: "wp (CywTransportService H probePending) service_ok s"
  unfolding CywTransportService_def link_defs wp_rules
  by (auto simp: wp_rules service_ok_def [of "STATUS_CANCELLED"] service_ok_def [of "STATUS_DEVICE_NOT_READY"] service_ok_def [of "STATUS_SUCCESS"]
      intro!: wp_any [of _ "world _"] wp_any [of _ "InterruptTime H"] wp_any [of _ "SdioCmd52Read H 0 5"]
        ServiceFailed_wp ServiceStatus_wp service_ok_failed)
section \<open>Invariant of the receive path\<close>

definition filter_ok :: "rx_filter \<Rightarrow> bool" where
  "filter_ok F \<longleftrightarrow> length (CurrentMacAddress F) = 6 \<and> MulticastCount F \<le> 32 \<and> 6 * MulticastCount F \<le> length (MulticastList F)"

definition rx_base_ok :: "rxd \<Rightarrow> bool" where
  "rx_base_ok r \<longleftrightarrow> length (RxBuffer r) = CYW_WIRE_CAPACITY \<and> RxNextLength r \<le> CYW_RX_FRAME_MAX \<and>
     length (PacketRxWire r) = 7 \<and> length (PacketRxHost r) = 7"

definition link_base_ok :: "link \<Rightarrow> bool" where
  "link_base_ok l \<longleftrightarrow> \<not> LFault l \<and> rx_base_ok (LRx l) \<and> filter_ok (LFilter l) \<and> probe_inv (LProbe l)"

text \<open>A superframe is either announced, and its buffer still to be read, or validated and partly delivered.\<close>

definition rx_glom_ok :: "bytes \<Rightarrow> CYW_RX_GLOM \<Rightarrow> bool" where
  "rx_glom_ok b g \<longleftrightarrow> glom_arrays g \<and> (GlCount g \<noteq> 0 \<longrightarrow>
     (if GlPending g then glom_pending_ok g
      else GlIndex g < GlCount g \<and> GlCount g \<le> CYW_RX_GLOM_MAX \<and> GlNextLength g \<le> CYW_RX_FRAME_MAX \<and>
        glom_children_ok g b (GlCount g) CYW_WIRE_CAPACITY))"

definition transport_ok :: "link \<Rightarrow> bool" where
  "transport_ok l \<longleftrightarrow> link_base_ok l \<and> rx_glom_ok (RxBuffer (LRx l)) (RxGlom (LRx l))"

text \<open>At most one frame is handed to NDIS, and only one the host asked for, while the link is up and authorized.\<close>

definition host_accepts :: "link \<Rightarrow> bytes \<Rightarrow> bool" where
  "host_accepts l p \<longleftrightarrow> NAssociated (LNet l) \<and> NAuthorized (LNet l) \<and> NPublished (LNet l) \<and> \<not> NPaused (LNet l) \<and>
     \<not> NSelectingBand (LNet l) \<and> 14 \<le> length p \<and> length p \<le> 1514 \<and>
     ndis_filter_accepts (take 6 p) (CurrentMacAddress (LFilter l)) (PacketFilter (LFilter l))
       (multicast_set (MulticastList (LFilter l)) (MulticastCount (LFilter l)))"

definition indicated_ok :: "link \<Rightarrow> link \<Rightarrow> bool" where
  "indicated_ok l m \<longleftrightarrow> RxIndicated (LRx m) = RxIndicated (LRx l) \<or>
     (\<exists>p. RxIndicated (LRx m) = p # RxIndicated (LRx l) \<and> host_accepts l p)"

definition delivered :: "link \<Rightarrow> link \<Rightarrow> bool" where
  "delivered l m \<longleftrightarrow> link_base_ok m \<and> indicated_ok l m \<and> LFilter m = LFilter l \<and> TxSeq m = TxSeq l \<and>
     RxBuffer (LRx m) = RxBuffer (LRx l) \<and> RxGlom (LRx m) = RxGlom (LRx l)"

lemma TrafficDrop_simps [simp]:
  "RxBuffer (TrafficDrop e r) = RxBuffer r" "RxNextLength (TrafficDrop e r) = RxNextLength r" "RxGlom (TrafficDrop e r) = RxGlom r"
  "PacketRxWire (TrafficDrop e r) = PacketRxWire r" "PacketRxHost (TrafficDrop e r) = PacketRxHost r"
  "RxIndicated (TrafficDrop e r) = RxIndicated r" "RxPending (TrafficDrop e r) = RxPending r"
  by (simp_all add: TrafficDrop_def)

lemma CywTrafficFrame_safe: "n \<le> length p \<Longrightarrow> \<exists>T'. CywTrafficFrame tx p n T = Some T'"
  by (auto simp: CywTrafficFrame_def rd8_def numeral_eq_Suc)

lemmas ok_defs = delivered_def link_base_ok_def rx_base_ok_def indicated_ok_def

lemma Indicate_wp:
  assumes "link_base_ok (fst s)" "kind \<le> 6" "host_accepts (fst s) p"
  shows "wp (Indicate H D kind p) (\<lambda>_ t. delivered (fst s) (fst t)) s"
proof -
  have "\<forall>now. \<exists>d. CywProbePacket (LProbe (fst s)) p (length p) False now = Some d \<and> probe_inv d"
    using assms by (intro allI CywProbePacket_ok) (simp_all add: link_base_ok_def)
  then obtain probe where probe: "\<And>now. CywProbePacket (LProbe (fst s)) p (length p) False now = Some (probe now)"
      "\<And>now. probe_inv (probe now)" by metis
  obtain T where T: "CywTrafficFrame 0 p (length p) (LTraffic (fst s)) = Some T"
    using CywTrafficFrame_safe by blast
  show ?thesis
    using assms unfolding Indicate_def link_defs wp_rules
    by (auto simp: wp_rules ok_defs probe T intro!: wp_any [of _ "world _"] wp_any [of _ "InterruptTime H"] wp_any [of _ "TimingBegin H 11"]
        wp_any [of _ "act _"] wp_any [of _ "TimingEnd H 11 _"])
qed

lemma CywReceive_wp:
  assumes "link_base_ok (fst s)"
  shows "wp (CywReceive H D p) (\<lambda>_ t. delivered (fst s) (fst t)) s"
proof -
  obtain body where body: "CywEthernetBody p 0 (length p) = Some body"
    using CywEthernetBody_safe [of 0 "length p" p] by auto
  show ?thesis
  proof (cases body)
    case None
    then show ?thesis
      using assms by (simp add: CywReceive_def body wp_rules link_defs ok_defs)
  next
    case (Some eb)
    obtain off len where eb: "eb = (off, len)" by (cases eb)
    have b: "4 \<le> off" "off + len = length p" "14 \<le> len" "len \<le> 1514"
      using CywEthernetBody_bounds [of p 0 "length p" off len] body Some eb by auto
    obtain kind where kind: "CywPacketKind p off len = Some kind" "kind \<le> 6"
      using CywPacketKind_safe [of off len p] b by auto
    define F where "F = LFilter (fst s)"
    have F: "filter_ok F" using assms by (simp add: F_def link_base_ok_def)
    have accept: "CywAcceptEthernet p off (CurrentMacAddress F) (PacketFilter F) (MulticastList F) (MulticastCount F) =
        Some (ndis_filter_accepts (sub_bytes p off 6) (CurrentMacAddress F) (PacketFilter F) (multicast_set (MulticastList F) (MulticastCount F)))"
      using F b by (intro CywAcceptEthernet_filter) (auto simp: filter_ok_def)
    have head: "take 6 (sub_bytes p off len) = sub_bytes p off 6" "length (sub_bytes p off len) = len"
      using b by (simp_all add: sub_bytes_def)
    have dest: "rdn p off 6 = Some (sub_bytes p off 6)" "rdn p off len = Some (sub_bytes p off len)"
      using b by (auto simp: rdn_def)
    show ?thesis
      using assms kind(2) b
      by (auto simp: CywReceive_def body Some eb kind(1) wp_rules link_defs F_def [symmetric] accept dest
          simp: ok_defs head host_accepts_def ReceiveOpen_def
          intro!: wp_mono [OF Indicate_wp])
  qed
qed

lemma DeliverEvent_wp:
  assumes "link_base_ok (fst s)"
  shows "wp (DeliverEvent H p) (\<lambda>_ t. delivered (fst s) (fst t)) s"
proof -
  have "\<forall>now N. \<exists>N'. CywEvent now p (length p) N = Some N'" using CywEvent_closed by (metis order_refl)
  then obtain ev where ev: "\<And>now N. CywEvent now p (length p) N = Some (ev now N)" by metis
  show ?thesis
    using assms unfolding DeliverEvent_def link_defs wp_rules
    by (auto simp: wp_rules ok_defs ev intro!: wp_any [of _ "world _"] wp_any [of _ "InterruptTime H"] wp_any [of _ "IoStopped H"])
qed

lemma Deliver_wp:
  assumes "link_base_ok (fst s)" "off \<le> len" "len \<le> CYW_WIRE_CAPACITY"
  shows "wp (Deliver H D channel off len) (\<lambda>_ t. delivered (fst s) (fst t)) s"
proof -
  have "delivered (fst s) (fst s)" using assms by (simp add: ok_defs)
  moreover have "rdn (RxBuffer (LRx (fst s))) off (len - off) = Some (sub_bytes (RxBuffer (LRx (fst s))) off (len - off))"
    using assms by (simp add: rdn_def link_base_ok_def rx_base_ok_def)
  ultimately show ?thesis
    using assms unfolding Deliver_def wp_rules by (auto simp: wp_rules intro!: DeliverEvent_wp CywReceive_wp)
qed
section \<open>The poll keeps the invariant\<close>

text \<open>
  \<open>polled l r t\<close>: the poll started with \<open>l\<close> and returned \<open>r\<close> with state \<open>t\<close>.  A frame is returned exactly on success, and it
  lies inside of the buffer.  A failure other than an empty FIFO or a stop request closes the link: flow is stopped,
  the firmware has halted or the FIFO is latched.
\<close>

definition link_closed :: "link \<times> adapter \<times> 'w \<Rightarrow> bool" where
  "link_closed t \<longleftrightarrow> Halted (LFlow (fst t)) \<or> GlobalFlow (LFlow (fst t)) \<or> FifoTransportFailed (AFifo (fst (snd t)))"

definition polled :: "link \<Rightarrow> NTSTATUS \<times> (nat \<times> nat \<times> nat) option \<Rightarrow> link \<times> adapter \<times> 'w \<Rightarrow> bool" where
  "polled l r t \<longleftrightarrow> transport_ok (fst t) \<and> indicated_ok l (fst t) \<and> LFilter (fst t) = LFilter l \<and> TxSeq (fst t) = TxSeq l \<and>
     (case snd r of
        Some (channel, off, len) \<Rightarrow> NT_SUCCESS (fst r) \<and> off \<le> len \<and> len \<le> CYW_WIRE_CAPACITY
      | None \<Rightarrow> \<not> NT_SUCCESS (fst r) \<and> (fst r = STATUS_NO_MORE_ENTRIES \<or> fst r = STATUS_CANCELLED \<or> link_closed t))"

lemma zero_glom_ok [simp]: "rx_glom_ok b zero_glom"
  by (simp add: rx_glom_ok_def glom_arrays_def zero_glom_def)

lemma Cmd52Write_latch:
  assumes "FifoTransportFailed (AFifo (fst s))" "\<And>st t. FifoTransportFailed (AFifo (fst t)) \<Longrightarrow> Q st t"
  shows "wp (SdioCmd52Write H f x v m) Q s"
  by (rule wp_mono [OF wp_keeps [OF latch.Cmd52Write_keeps]]) (use assms in \<open>auto simp: fifo_latch_def\<close>)

lemma PollFailed_wp:
  assumes "link_base_ok (fst s)" "\<not> NT_SUCCESS st" "LFilter (fst s) = LFilter l" "TxSeq (fst s) = TxSeq l"
    "RxIndicated (LRx (fst s)) = RxIndicated (LRx l)"
  shows "wp (PollFailed H st) (polled l) s"
  using assms unfolding PollFailed_def wp_rules link_defs state_defs
  by (auto simp: wp_rules polled_def link_closed_def transport_ok_def link_base_ok_def rx_base_ok_def indicated_ok_def intro!: Cmd52Write_latch)

lemma readFifo_wp:
  assumes base: "link_base_ok (fst s)" and same: "LFilter (fst s) = LFilter l" "TxSeq (fst s) = TxSeq l"
      "RxIndicated (LRx (fst s)) = RxIndicated (LRx l)"
    and n: "at + n \<le> CYW_WIRE_CAPACITY"
    and k: "\<And>b t. length b = CYW_WIRE_CAPACITY \<Longrightarrow> wp k (polled l) ((fst s)\<lparr>LRx := (LRx (fst s))\<lparr>RxBuffer := b\<rparr>\<rparr>, t)"
  shows "wp (readFifo H at n k) (polled l) s"
proof -
  have len: "length (RxBuffer (LRx (fst s))) = CYW_WIRE_CAPACITY" using base by (simp add: link_base_ok_def rx_base_ok_def)
  have old: "rdn (RxBuffer (LRx (fst s))) at n = Some (sub_bytes (RxBuffer (LRx (fst s))) at n)"
    using n len by (simp add: rdn_def)
  have m: "length (sub_bytes (RxBuffer (LRx (fst s))) at n) = n" using n len by simp
  show ?thesis
    unfolding readFifo_def wp_rules link_defs
    using n len m same base
    by (auto simp: wp_rules old link_base_ok_def rx_base_ok_def
        intro!: wp_yields [OF FifoTransfer_length] k PollFailed_wp)
qed

lemma HeaderCredits_wp:
  assumes "link_base_ok (fst s)"
    and "\<And>l t. link_base_ok l \<Longrightarrow> LRx l = LRx (fst s) \<Longrightarrow> LFilter l = LFilter (fst s) \<Longrightarrow> TxSeq l = TxSeq (fst s) \<Longrightarrow>
      LNet l = LNet (fst s) \<Longrightarrow> Q () (l, t)"
  shows "wp (HeaderCredits H) Q s"
proof -
  have h: "rdn (RxBuffer (LRx (fst s))) 8 2 = Some (sub_bytes (RxBuffer (LRx (fst s))) 8 2)"
    using assms(1) by (simp add: link_base_ok_def rx_base_ok_def rdn_def)
  show ?thesis
    using assms(1) unfolding HeaderCredits_def wp_rules link_defs
    by (auto simp: wp_rules h link_base_ok_def intro!: wp_any [of _ "InterruptTime H"] assms(2))
qed

lemma PollChild_wp:
  assumes base: "link_base_ok (fst s)" and g: "g = RxGlom (LRx (fst s))" "rx_glom_ok (RxBuffer (LRx (fst s))) g" "GlCount g \<noteq> 0" "\<not> GlPending g"
    and same: "LFilter (fst s) = LFilter l" "TxSeq (fst s) = TxSeq l" "LNet (fst s) = LNet l" "RxIndicated (LRx (fst s)) = RxIndicated (LRx l)"
  shows "wp (PollChild H D) (polled l) s"
proof -
  define i where "i = GlIndex g"
  have gl: "glom_arrays g" "i < GlCount g" "GlCount g \<le> 32" "GlNextLength g \<le> 2048" "glom_children_ok g (RxBuffer (LRx (fst s))) (GlCount g) CYW_WIRE_CAPACITY"
    using g by (auto simp: rx_glom_ok_def i_def)
  then have c: "GlStart g ! i + 12 \<le> GlPayload g ! i" "GlPayload g ! i \<le> GlEnd g ! i" "GlEnd g ! i \<le> CYW_WIRE_CAPACITY"
    by (auto simp: glom_children_ok_def)
  have h: "rdn (RxBuffer (LRx (fst s))) (GlStart g ! i + 4) 2 = Some (sub_bytes (RxBuffer (LRx (fst s))) (GlStart g ! i + 4) 2)"
    using base c by (simp add: link_base_ok_def rx_base_ok_def rdn_def)
  show ?thesis
    using base gl c same g(4) unfolding PollChild_def wp_rules link_defs Let_def g(1) [symmetric] i_def [symmetric]
    by (auto simp: wp_rules h link_base_ok_def rx_base_ok_def intro!: wp_mono [OF Deliver_wp])
      (auto simp: wp_rules polled_def transport_ok_def delivered_def link_base_ok_def rx_base_ok_def indicated_ok_def host_accepts_def rx_glom_ok_def
        glom_arrays_def glom_children_ok_def)
qed

lemma NextLength_bound: "CywRxNextLength b off = Some n \<Longrightarrow> n \<le> CYW_RX_FRAME_MAX"
  by (auto simp: CywRxNextLength_def Let_def split: bind_splits if_splits)

lemma GlomValidate_next: "CywRxGlomValidate g b n = Some (True, g') \<Longrightarrow> GlNextLength g' \<le> CYW_RX_FRAME_MAX"
  by (auto simp: CywRxGlomValidate_def split: if_splits bind_splits option.splits prod.splits dest!: NextLength_bound)

lemma PollSuperframe_wp:
  assumes ok: "transport_ok (fst s)" and g: "g = RxGlom (LRx (fst s))" "GlCount g \<noteq> 0"
    and same: "LFilter (fst s) = LFilter l" "TxSeq (fst s) = TxSeq l" "LNet (fst s) = LNet l" "RxIndicated (LRx (fst s)) = RxIndicated (LRx l)"
  shows "wp (PollSuperframe H D) (polled l) s"
proof (cases "GlPending g")
  case False
  then show ?thesis
    using ok g same unfolding PollSuperframe_def wp_rules
    by (auto simp: transport_ok_def wp_rules intro!: PollChild_wp)
next
  case True
  have base: "link_base_ok (fst s)" and p: "glom_pending_ok g" and wf: "glom_arrays g"
    using ok g True by (auto simp: transport_ok_def rx_glom_ok_def)
  have n: "0 + GlBytes g \<le> CYW_WIRE_CAPACITY" using p by (simp add: glom_pending_ok_def)
  have "wp (do {
       v \<leftarrow> lasks (\<lambda>l. CywRxGlomValidate g (RxBuffer (LRx l)) (GlBytes g));
       checked (STATUS_UNSUCCESSFUL, None) v (\<lambda>(ok, g). do {
       rxS (\<lambda>r. r\<lparr>RxGlom := g\<rparr>);
       if \<not> ok then PollFailed H STATUS_DEVICE_DATA_ERROR
       else do {
         HeaderCredits H;
         rxS (\<lambda>r. r\<lparr>RxGlomGroups := RxGlomGroups r + 1\<rparr>);
         PollChild H D } }) }) (polled l) ((fst s)\<lparr>LRx := (LRx (fst s))\<lparr>RxBuffer := b\<rparr>\<rparr>, t)"
    if b: "length b = CYW_WIRE_CAPACITY" for b t
  proof -
    obtain valid g' where v: "CywRxGlomValidate g b (GlBytes g) = Some (valid, g')" "glom_arrays g'"
        and c: "valid \<Longrightarrow> GlCount g' = GlCount g \<and> GlIndex g' = 0 \<and> \<not> GlPending g' \<and> glom_children_ok g' b (GlCount g') (GlBytes g)"
      using CywRxGlomValidate_spec [OF p, of "GlBytes g" b] n b by auto
    have ok': "rx_glom_ok b g'" if valid
      using c [OF that] v(2) GlomValidate_next [of g b "GlBytes g" g'] v(1) that p n g(2)
      by (fastforce simp: rx_glom_ok_def glom_pending_ok_def glom_children_ok_def)
    show ?thesis
      using base same b c g(2) unfolding wp_rules link_defs
      by (auto simp: v(1) wp_rules link_base_ok_def rx_base_ok_def intro!: PollFailed_wp HeaderCredits_wp PollChild_wp ok')
  qed
  then show ?thesis
    using base same n True unfolding PollSuperframe_def wp_rules g(1) [symmetric]
    by (auto simp: wp_rules intro!: readFifo_wp)
qed

lemma delivered_polled:
  "delivered m l' \<Longrightarrow> rx_glom_ok (RxBuffer (LRx m)) (RxGlom (LRx m)) \<Longrightarrow> off \<le> len \<Longrightarrow> len \<le> CYW_WIRE_CAPACITY \<Longrightarrow>
   LFilter m = LFilter l \<Longrightarrow> TxSeq m = TxSeq l \<Longrightarrow> LNet m = LNet l \<Longrightarrow> RxIndicated (LRx m) = RxIndicated (LRx l) \<Longrightarrow>
   polled l (STATUS_SUCCESS, Some (channel, off, len)) (l', t)"
  by (simp add: polled_def delivered_def transport_ok_def indicated_ok_def host_accepts_def)

lemma PollDescriptor_wp:
  assumes base: "link_base_ok m" and g: "glom_arrays (RxGlom (LRx m))" and b: "off \<le> len" "len \<le> 65535"
    and same: "LFilter m = LFilter l" "TxSeq m = TxSeq l" "RxIndicated (LRx m) = RxIndicated (LRx l)"
  shows "wp (PollDescriptor H len off) (polled l) (m, t)"
proof -
  have len: "length (RxBuffer (LRx m)) = CYW_WIRE_CAPACITY" using base by (simp add: link_base_ok_def rx_base_ok_def)
  obtain ok g' where d: "CywRxGlomDescriptor (RxGlom (LRx m)) (RxBuffer (LRx m)) off (len - off) = Some (ok, g')" "glom_arrays g'"
      "ok \<Longrightarrow> glom_pending_ok g'"
    using CywRxGlomDescriptor_spec [OF g, of off "len - off" "RxBuffer (LRx m)"] len b by auto
  have g': "rx_glom_ok (RxBuffer (LRx m)) g'" if ok using d that by (auto simp: rx_glom_ok_def glom_pending_ok_def)
  show ?thesis
  proof (cases ok)
    case True
    then show ?thesis
      using base b same g' by (simp add: PollDescriptor_def wp_rules link_defs d(1) polled_def transport_ok_def link_base_ok_def rx_base_ok_def indicated_ok_def)
  next
    case False
    then show ?thesis
      using base b same by (simp add: PollDescriptor_def wp_rules link_defs d(1) PollFailed_wp link_base_ok_def rx_base_ok_def)
  qed
qed

lemma PollData_wp:
  assumes base: "link_base_ok m" and g: "glom_arrays (RxGlom (LRx m))" "GlCount (RxGlom (LRx m)) = 0"
    and b: "off \<le> len" "len \<le> 65535"
    and same: "LFilter m = LFilter l" "TxSeq m = TxSeq l" "LNet m = LNet l" "RxIndicated (LRx m) = RxIndicated (LRx l)"
  shows "wp (PollData H D channel len off) (polled l) (m, t)"
proof -
  have "6 < length (RxBuffer (LRx m))" using base by (simp add: link_base_ok_def rx_base_ok_def)
  then obtain nl where nl: "CywRxNextLength (RxBuffer (LRx m)) 0 = Some nl" by (simp add: CywRxNextLength_def rd8_def)
  have nl2: "nl \<le> CYW_RX_FRAME_MAX" using nl by (rule NextLength_bound)
  define m1 where "m1 = m\<lparr>LRx := (LRx m)\<lparr>RxNextLength := nl\<rparr>\<rparr>"
  have m1: "link_base_ok m1" "rx_glom_ok (RxBuffer (LRx m1)) (RxGlom (LRx m1))" "LFilter m1 = LFilter l" "TxSeq m1 = TxSeq l" "LNet m1 = LNet l"
      "RxIndicated (LRx m1) = RxIndicated (LRx l)"
    using base same nl2 g by (simp_all add: m1_def link_base_ok_def rx_base_ok_def rx_glom_ok_def)
  have "wp (Deliver H D channel off len) (\<lambda>_ t. polled l (STATUS_SUCCESS, Some (channel, off, len)) t) (m1, t)"
  proof (rule wp_mono [OF Deliver_wp])
    show "link_base_ok (fst (m1, t))" "off \<le> len" "len \<le> CYW_WIRE_CAPACITY" using m1 b by simp_all
    fix u :: unit and t' :: "link \<times> adapter \<times> 'a" assume d: "delivered (fst (m1, t)) (fst t')"
    have "polled l (STATUS_SUCCESS, Some (channel, off, len)) (fst t', snd t')"
      by (rule delivered_polled [OF d [unfolded fst_conv] m1(2) b(1) _ m1(3-6)]) (use b in simp)
    then show "polled l (STATUS_SUCCESS, Some (channel, off, len)) t'" by (simp only: prod.collapse)
  qed
  then show ?thesis unfolding PollData_def wp_rules link_defs by (simp only: fst_conv snd_conv nl option.case wp_rules m1_def)
qed

lemma PollChannel_wp:
  assumes base: "link_base_ok m" and g: "glom_arrays (RxGlom (LRx m))" "GlCount (RxGlom (LRx m)) = 0"
    and b: "off \<le> len" "len \<le> 65535"
    and same: "LFilter m = LFilter l" "TxSeq m = TxSeq l" "LNet m = LNet l" "RxIndicated (LRx m) = RxIndicated (LRx l)"
  shows "wp (PollChannel H D flags len off) (polled l) (m, t)"
proof -
  have failed: "wp (PollFailed H st) (polled l) (m, t)" if "\<not> NT_SUCCESS st" for st t
    using base same that by (intro PollFailed_wp) simp_all
  have failed': "wp (PollFailed H st) (polled l) (m\<lparr>LRx := (LRx m)\<lparr>RxGlomErrors := n\<rparr>\<rparr>, t)" if "\<not> NT_SUCCESS st" for st n t
    using base same that by (intro PollFailed_wp) (simp_all add: link_base_ok_def rx_base_ok_def)
  show ?thesis
    unfolding PollChannel_def wp_rules link_defs fst_conv snd_conv
    by (simp add: failed failed' PollDescriptor_wp [OF base g(1) b same(1,2,4)] PollData_wp [OF base g b same])
qed

lemma PollDispatch_wp:
  assumes base: "link_base_ok (fst s)" and g: "glom_arrays (RxGlom (LRx (fst s)))" "GlCount (RxGlom (LRx (fst s))) = 0"
    and b: "off \<le> len" "len \<le> 65535"
    and same: "LFilter (fst s) = LFilter l" "TxSeq (fst s) = TxSeq l" "LNet (fst s) = LNet l" "RxIndicated (LRx (fst s)) = RxIndicated (LRx l)"
  shows "wp (PollDispatch H D len off) (polled l) s"
proof -
  have h: "rdn (RxBuffer (LRx (fst s))) 4 2 = Some (sub_bytes (RxBuffer (LRx (fst s))) 4 2)"
    using base by (simp add: rdn_def link_base_ok_def rx_base_ok_def)
  have base': "link_base_ok ((fst s)\<lparr>LRx := (LRx (fst s))\<lparr>RxPending := True\<rparr>, LSeq := q\<rparr>)" for q
    using base by (simp add: link_base_ok_def rx_base_ok_def)
  show ?thesis
    unfolding PollDispatch_def wp_rules link_defs
    using g b same by (simp add: h base' HeaderCredits_wp PollChannel_wp)
qed

lemma PollHeader_wp:
  assumes base: "link_base_ok (fst s)" and g: "glom_arrays (RxGlom (LRx (fst s)))" "GlCount (RxGlom (LRx (fst s))) = 0"
    and n: "n \<le> CYW_WIRE_CAPACITY"
    and same: "LFilter (fst s) = LFilter l" "TxSeq (fst s) = TxSeq l" "LNet (fst s) = LNet l" "RxIndicated (LRx (fst s)) = RxIndicated (LRx l)"
  shows "wp (PollHeader H D hint n) (polled l) s"
proof -
  have len: "length (RxBuffer (LRx (fst s))) = CYW_WIRE_CAPACITY" using base by (simp add: link_base_ok_def rx_base_ok_def)
  obtain r where r: "CywSdpcmHeader (RxBuffer (LRx (fst s))) 0 n = Some r"
    using CywSdpcmHeader_safe [of 0 n "RxBuffer (LRx (fst s))"] n len by auto
  show ?thesis
  proof (cases r)
    case None
    then show ?thesis using base same by (simp add: PollHeader_def wp_rules r PollFailed_wp)
  next
    case (Some lo)
    obtain k off where lo: "lo = (k, off)" by (cases lo)
    have b: "off \<le> k" "k \<le> 65535" using CywSdpcmHeader_bounds [of _ 0 n k off] r Some lo by auto
    obtain v where v: "CywRxReadAheadValid (RxBuffer (LRx (fst s))) 0 hint k = Some v"
      using len by (auto simp: CywRxReadAheadValid_def rd8_def)
    have "(k - 64 + 3) div 4 \<le> (65535 - 64 + 3) div 4" by (rule div_le_mono) (use b in simp)
    then have tail: "64 + (k - 64 + 3) div 4 * 4 \<le> CYW_WIRE_CAPACITY" by simp
    have base': "link_base_ok ((fst s)\<lparr>LRx := (LRx (fst s))\<lparr>RxReadAhead := x\<rparr>\<rparr>)" "link_base_ok ((fst s)\<lparr>LRx := (LRx (fst s))\<lparr>RxReadAheadRejected := x\<rparr>\<rparr>)"
      "length d = CYW_WIRE_CAPACITY \<Longrightarrow> link_base_ok ((fst s)\<lparr>LRx := (LRx (fst s))\<lparr>RxBuffer := d\<rparr>\<rparr>)" for x d
      using base by (simp_all add: link_base_ok_def rx_base_ok_def)
    show ?thesis
      using base g same b tail
      by (simp add: PollHeader_def wp_rules link_defs r Some lo v base' PollFailed_wp PollDispatch_wp readFifo_wp)
  qed
qed

lemma PollFrame_wp:
  assumes ok: "transport_ok (fst s)" and g: "GlCount (RxGlom (LRx (fst s))) = 0"
    and same: "LFilter (fst s) = LFilter l" "TxSeq (fst s) = TxSeq l" "LNet (fst s) = LNet l" "RxIndicated (LRx (fst s)) = RxIndicated (LRx l)"
  shows "wp (PollFrame H D) (polled l) s"
proof -
  have base: "link_base_ok (fst s)" and wf: "glom_arrays (RxGlom (LRx (fst s)))" using ok by (auto simp: transport_ok_def rx_glom_ok_def)
  define hint where "hint = (if RxBatch (LRx (fst s)) then RxNextLength (LRx (fst s)) else 0)"
  define n where "n = (if hint \<noteq> 0 then hint else 64)"
  have n: "0 + n \<le> CYW_WIRE_CAPACITY" using base by (simp add: n_def hint_def link_base_ok_def rx_base_ok_def)
  define m where "m b = (fst s)\<lparr>LRx := (LRx (fst s))\<lparr>RxNextLength := 0, RxBuffer := b\<rparr>\<rparr>" for b
  have m: "link_base_ok (m b)" "LFilter (m b) = LFilter l" "TxSeq (m b) = TxSeq l" "LNet (m b) = LNet l" "RxIndicated (LRx (m b)) = RxIndicated (LRx l)"
      "RxGlom (LRx (m b)) = RxGlom (LRx (fst s))" "RxBuffer (LRx (m b)) = b" if "length b = CYW_WIRE_CAPACITY" for b
    using base same that by (simp_all add: m_def link_base_ok_def rx_base_ok_def)
  have k: "wp (do {
     word \<leftarrow> lasks (\<lambda>l. CywLe32 (RxBuffer (LRx l)) 0);
     checked (STATUS_UNSUCCESSFUL, None) word (\<lambda>word.
     if word = 0 then do {
       svcS (\<lambda>T. T\<lparr>EmptyReads := EmptyReads T + 1\<rparr>);
       rxS (\<lambda>r. r\<lparr>RxPending := False, RxBatchServiced := False\<rparr>);
       ret (STATUS_NO_MORE_ENTRIES, None) }
     else PollHeader H D hint n) }) (polled l) (m b, t)" if b: "length b = CYW_WIRE_CAPACITY" for b t
  proof -
    obtain w where w: "CywLe32 b 0 = Some w" using b by (auto simp: CywLe32_Some)
    have "wp (PollHeader H D hint n) (polled l) (m b, t)"
      using m [OF b] wf g n by (intro PollHeader_wp) simp_all
    moreover have "polled l (STATUS_NO_MORE_ENTRIES, None) ((m b)\<lparr>LSvc := v, LRx := (LRx (m b))\<lparr>RxPending := False, RxBatchServiced := False\<rparr>\<rparr>, t)" for v
      using m [OF b] wf g by (simp add: polled_def transport_ok_def link_base_ok_def rx_base_ok_def rx_glom_ok_def indicated_ok_def)
    ultimately show ?thesis by (simp add: wp_rules link_defs m(7) [OF b] w)
  qed
  have base0: "link_base_ok ((fst s)\<lparr>LRx := (LRx (fst s))\<lparr>RxNextLength := 0\<rparr>\<rparr>)"
    using base by (simp add: link_base_ok_def rx_base_ok_def)
  show ?thesis
    unfolding PollFrame_def wp_rules link_defs Let_def hint_def [symmetric] n_def [symmetric]
    by (rule readFifo_wp, unfold fst_conv snd_conv) (use base0 same n k [unfolded link_defs m_def] in simp_all)
qed
lemma Poll_wp:
  assumes "transport_ok (fst s)"
  shows "wp (CywPoll H D) (polled (fst s)) s"
proof -
  have refl: "indicated_ok (fst s) m" if "RxIndicated (LRx m) = RxIndicated (LRx (fst s))" for m
    using that by (simp add: indicated_ok_def)
  have after: "transport_ok m \<and> GlCount (RxGlom (LRx m)) = GlCount (RxGlom (LRx (fst s))) \<and> LFilter m = LFilter (fst s) \<and>
      TxSeq m = TxSeq (fst s) \<and> LNet m = LNet (fst s) \<and> RxIndicated (LRx m) = RxIndicated (LRx (fst s))"
    if "serviced (fst s) m" for m
    using assms that by (simp add: serviced_def rx_same_def transport_ok_def link_base_ok_def rx_base_ok_def)
  have frame: "wp (PollFrame H D) (polled (fst s)) (m, t)" if "serviced (fst s) m" "GlCount (RxGlom (LRx (fst s))) = 0" for m t
    using after [OF that(1)] that(2) by (intro PollFrame_wp) simp_all
  have none: "polled (fst s) (st, None) (m, t)"
    if "serviced (fst s) m" "\<not> NT_SUCCESS st" "st = STATUS_NO_MORE_ENTRIES \<or> st = STATUS_CANCELLED \<or> link_closed (m, t)" for m t st
    using after [OF that(1)] that(2,3) by (simp add: polled_def refl)
  have batch: "serviced l m \<Longrightarrow> serviced l (m\<lparr>LRx := (LRx m)\<lparr>RxBatchServiced := True\<rparr>\<rparr>)" for l m
    by (simp add: serviced_def rx_same_def)
  have service: "wp (CywTransportService H True) (\<lambda>st t. serviced (fst s) (fst t) \<and> service_ok st t) (fst s, t)" for t
    using wp_keeps [OF service.Service_keeps, of H True "(fst s, t)"] Service_wp [of H True "(fst s, t)"] by (simp add: wp_conj)
  have same: "serviced (fst s) (fst s)" by (rule service.P_refl)
  have closed: "service_ok st t \<Longrightarrow> \<not> NT_SUCCESS st \<Longrightarrow> st = STATUS_CANCELLED \<or> link_closed t" for st and t :: "link \<times> adapter \<times> 'a"
    by (auto simp: service_ok_def link_closed_def)
  have super: "wp (PollSuperframe H D) (polled (fst s)) (fst s, t)" if "GlCount (RxGlom (LRx (fst s))) \<noteq> 0" for t
    using assms that by (intro PollSuperframe_wp) simp_all
  have failed: "polled (fst s) (st, None) u" if "serviced (fst s) (fst u)" "service_ok st u" "\<not> NT_SUCCESS st"
    for st and u :: "link \<times> adapter \<times> 'a"
    using none [of "fst u" st "snd u"] closed [OF that(2,3)] that by auto
  show ?thesis
    unfolding CywPoll_def wp_rules link_defs
    by (auto simp: same none super frame batch link_closed_def failed split: prod.split
        intro!: wp_mono [OF service])
qed

section \<open>A sample link\<close>

definition sample_link :: link where
  "sample_link = \<lparr>
     LFlow = \<lparr>GlobalFlow = False, GlobalBlocked100ns = 0, GlobalStarted100ns = 0, FcStops = 0, PriorityMaskKnown = False,
       PriorityMask = 0, PriorityFlow = 0, PriorityBlocked = False, PriorityBlocked100ns = 0, PriorityStarted100ns = 0,
       PriorityStops = 0, Halted = False\<rparr>,
     LSeq = \<lparr>SequenceValid = False, SequenceExpected = 0, SequenceLast = 0, SequenceMismatches = 0, SequenceDuplicates = 0,
       SequenceFrames = 0\<rparr>,
     LSvc = \<lparr>LastInterrupt = 0, LastMailbox = 0, MailboxVersion = 0, PendingReads = 0, StatusReads = 0, StatusAcks = 0,
       FcChanges = 0, FcRaces = 0, MailReads = 0, MailUnknown = 0, FirmwareHalts = 0, EmptyReads = 0, ServiceErrors = 0,
       RxAbortFailures = 0, TxStatusChecks = 0, LastPending = 0, PendingEmpty = 0, StatusNoEvents = 0, FrameNotifications = 0,
       FallbackReads = 0, FallbackFrames = 0, FallbackMailbox = 0, StatusClockValid = False, LastStatus100ns = 0\<rparr>,
     LRx = \<lparr>RxBuffer = replicate CYW_WIRE_CAPACITY 0, RxNextLength = 0, RxPending = False, RxBatch = False,
       RxBatchServiced = False, RxGlom = zero_glom, RxGlomEnabled = False, RxReadAhead = 0, RxReadAheadRejected = 0,
       RxGlomGroups = 0, RxGlomFrames = 0, RxGlomErrors = 0, RxDropFormat = 0, RxDropState = 0, RxDropFilter = 0,
       RxUnicastOther = 0, RxNoBuffer = 0, RxPackets = 0, RxDiscards = 0, RxErrors = 0, RxFilterSnapshot = 0,
       PacketRxWire = replicate 7 0, PacketRxHost = replicate 7 0, RxIndicated = []\<rparr>,
     LFilter = \<lparr>CurrentMacAddress = [2, 0, 0, 0, 0, 1], PacketFilter = 1, MulticastList = [], MulticastCount = 0\<rparr>,
     LNet = sample_up,
     LTraffic = \<lparr>TsFrames = replicate 2 (replicate 3 0), TsBytes = replicate 2 (replicate 3 0)\<rparr>,
     LProbe = empty_probe,
     LTx = \<lparr>TdGlomEnabled = False, TdGlomAttempts = 0, TdGlomChains = 0, TdGlomFrames = 0, TdGlomBusyFallbacks = 0,
       TdGlomErrors = 0, TdGlomPayloadBytes = 0, TdGlomPaddedBytes = 0, TdExtendedDataSingles = 0, TdExtendedControlSingles = 0,
       TdBurstAttempts = [0, 0, 0], TdBurstBusy = [0, 0, 0], TdBurstSuccess = [0, 0, 0], TdBurstErrors = [0, 0, 0],
       TdBurstSavedStatusChecks = 0, TdBurstGrants = 0, TdBurstGrantedFollowers = 0, TdBurstMaxFollowers = 0,
       PacketTx = replicate 7 0, TdWire = []\<rparr>,
     LDiag = \<lparr>DfF1Calls = 0, DfF1Errors = 0, DfF1FlowBusy = 0, DfF1StatusReads = 0, DfF1StatusAcks = 0, DfF1MailboxReads = 0,
       DfF1Ticks = 0, DfF1MaxTicks = 0, DfF2Calls = 0, DfF2Errors = 0, DfF2PayloadBytes = 0, DfF2PaddedBytes = 0,
       DfF2Cmd53Writes = 0, DfF2Ticks = 0, DfF2MaxTicks = 0, DfClockRegressions = 0, DfGateLifecycleBlocked = 0,
       DfGateCreditZero = 0, DfGateCreditInvalid = 0, DfGatePriorityBlocked = 0,
       DfCredit = \<lparr>DcSamples = 0, DcZero = 0, DcInvalid = 0, Dc1To4 = 0, Dc5To16 = 0, Dc17To64 = 0\<rparr>\<rparr>,
     TxSeq = 250, TxMax = 3, TxFlow = 0, LFault = False\<rparr>"

lemma sample_link_ok: "transport_ok sample_link"
  by (simp add: sample_link_def transport_ok_def link_base_ok_def rx_base_ok_def filter_ok_def probe_inv_def empty_probe_def)

text \<open>A controller that accepts every command at once and collects the words written to its data port.\<close>

definition port_hw :: "u32 list hw" where
  "port_hw = \<lparr>hw_read8 = \<lambda>_ q. (0, q), hw_read16 = \<lambda>_ q. (0, q), hw_read32 = \<lambda>off q. (if off = 0x30 then 0x33 else 0, q),
     hw_write8 = \<lambda>_ _ q. q, hw_write16 = \<lambda>_ _ q. q, hw_write32 = \<lambda>off v q. if off = 0x20 then q @ [v] else q,
     hw_time = \<lambda>q. (0, q), hw_qpc = \<lambda>q. (0, q), hw_delay = \<lambda>_ q. q, hw_stopped = \<lambda>q. (False, q), hw_netstop = \<lambda>q. (False, q)\<rparr>"

definition port_ndis :: "u32 list ndis" where
  "port_ndis = \<lparr>nd_mdl = \<lambda>q. (True, q), nd_nbl = \<lambda>q. (True, q), nd_indicate = \<lambda>_ q. q\<rparr>"

section \<open>The poll\<close>



end
