(* ===== verification/Transport_Frames.thy ===== *)
theory Transport_Frames
  imports Wire_Protocol
begin

text \<open>
  The frames of \<open>cyw43455/transport_send.h\<close>: SDPCM headers with and without the glom extension, chains of two data frames, and
  the proof that the firmware's way of reading them gives back what was sent.
\<close>

section \<open>Frames on the wire\<close>

text \<open>The length of a frame in the FIFO: whole words, and whole blocks in block mode.\<close>

definition PadFrame :: "bool \<Rightarrow> nat \<Rightarrow> nat" where
  "PadFrame ready n = (let padded = (n + 3) div 4 * 4 in if ready \<and> padded > 512 then (padded + 511) div 512 * 512 else padded)"

text \<open>
  The bytes of \<open>N->Tx\<close>, zeroed and filled: hardware length and its complement, with the glom extension its logical length,
  the mark of the last frame and the tail padding, then sequence number, channel, data offset and data.
\<close>

definition BuildFrame :: "bool \<Rightarrow> u8 \<Rightarrow> u8 \<Rightarrow> bytes \<Rightarrow> nat \<Rightarrow> bytes option" where
  "BuildFrame glom seq channel data padded = do {
     let b = replicate padded 0;
     if glom then do {
       let total = length data + 20;
       b \<leftarrow> CywPut16 b 0 (word_of_nat padded);
       b \<leftarrow> CywPut16 b 2 (NOT (word_of_nat padded));
       b \<leftarrow> CywPut32 b 4 (word_of_nat (total - 4) OR push_bit 24 1);
       b \<leftarrow> CywPut32 b 8 (push_bit 16 (word_of_nat (padded - total)));
       b \<leftarrow> wr8 b 12 seq;
       b \<leftarrow> wr8 b 13 channel;
       b \<leftarrow> wr8 b 15 20;
       wrn b 20 data }
     else do {
       let total = length data + 12;
       b \<leftarrow> CywPut16 b 0 (word_of_nat total);
       b \<leftarrow> CywPut16 b 2 (NOT (word_of_nat total));
       b \<leftarrow> wr8 b 4 seq;
       b \<leftarrow> wr8 b 5 channel;
       b \<leftarrow> wr8 b 7 12;
       wrn b 12 data } }"

text \<open>Two data frames in one transfer: the first header carries the length of the chain, the second its own.\<close>

definition BuildPair :: "u8 \<Rightarrow> bytes \<Rightarrow> bytes \<Rightarrow> nat \<Rightarrow> bytes option" where
  "BuildPair seq data1 data2 padded = do {
     let logical1 = length data1 + 20;
     let logical2 = length data2 + 20;
     let pad1 = (4 - logical1 mod 4) mod 4;
     let off2 = logical1 + pad1;
     let b = replicate padded 0;
     b \<leftarrow> CywPut16 b 0 (word_of_nat padded);
     b \<leftarrow> CywPut16 b 2 (NOT (word_of_nat padded));
     b \<leftarrow> CywPut32 b 4 (word_of_nat (logical1 - 4));
     b \<leftarrow> CywPut32 b 8 (push_bit 16 (word_of_nat pad1));
     b \<leftarrow> wr8 b 12 seq;
     b \<leftarrow> wr8 b 13 2;
     b \<leftarrow> wr8 b 15 20;
     b \<leftarrow> wrn b 20 data1;
     b \<leftarrow> CywPut16 b off2 (word_of_nat logical2);
     b \<leftarrow> CywPut16 b (off2 + 2) (NOT (word_of_nat logical2));
     b \<leftarrow> CywPut32 b (off2 + 4) (word_of_nat (logical2 - 4) OR push_bit 24 1);
     b \<leftarrow> CywPut32 b (off2 + 8) (push_bit 16 (word_of_nat (padded - (off2 + logical2))));
     b \<leftarrow> wr8 b (off2 + 12) (seq + 1);
     b \<leftarrow> wr8 b (off2 + 13) 2;
     b \<leftarrow> wr8 b (off2 + 15) 20;
     wrn b (off2 + 20) data2 }"

section \<open>Frames decode\<close>

text \<open>How the firmware reads a frame: without the extension by the 12-byte header, with it subframe by subframe up to the mark.\<close>

definition subframe :: "bytes \<Rightarrow> nat \<Rightarrow> (bool \<times> nat \<times> u8 \<times> u8 \<times> bytes) option" where
  "subframe b off = do {
     ext \<leftarrow> CywLe32 b (off + 4);
     pad \<leftarrow> CywLe32 b (off + 8);
     seq \<leftarrow> rd8 b (off + 12);
     channel \<leftarrow> rd8 b (off + 13);
     doff \<leftarrow> rd8 b (off + 15);
     let logical = unat (ext AND 0xffffff) + 4;
     n \<leftarrow> csub logical (unat doff);
     data \<leftarrow> rdn b (off + unat doff) n;
     Some (bit ext 24, off + logical + unat (drop_bit 16 pad), seq, channel, data) }"

fun subframes :: "nat \<Rightarrow> bytes \<Rightarrow> nat \<Rightarrow> (u8 \<times> u8 \<times> bytes) list option" where
  "subframes 0 b off = None"
| "subframes (Suc n) b off = do {
     (final, next', seq, channel, data) \<leftarrow> subframe b off;
     if final then if next' = length b then Some [(seq, channel, data)] else None
     else do { rest \<leftarrow> subframes n b next'; Some ((seq, channel, data) # rest) } }"

definition decode_wire :: "bool \<Rightarrow> bytes \<Rightarrow> (u8 \<times> u8 \<times> bytes) list option" where
  "decode_wire glom b =
    (if glom then do {
       n \<leftarrow> CywLe16 b 0; m \<leftarrow> CywLe16 b 2;
       if m = NOT n \<and> unat n = length b then subframes 2 b 0 else None }
     else do {
       h \<leftarrow> CywSdpcmHeader b 0 (length b);
       case h of None \<Rightarrow> None | Some (n, off) \<Rightarrow> do {
         seq \<leftarrow> rd8 b 4; channel \<leftarrow> rd8 b 5; data \<leftarrow> rdn b off (n - off);
         Some [(seq, channel, data)] } })"

lemma round_up: "0 < k \<Longrightarrow> n \<le> (n + (k - 1)) div k * (k :: nat)"
  using div_mult_mod_eq [of "n + (k - 1)" k] mod_less_divisor [of k "n + (k - 1)"] by linarith

lemma PadFrame_bounds:
  shows "n \<le> PadFrame ready n" "PadFrame ready n mod 4 = 0" "n \<le> 8192 \<Longrightarrow> PadFrame ready n \<le> 8192"
proof -
  have 1: "n \<le> (n + 3) div 4 * 4" "p \<le> (p + 511) div 512 * 512" for p :: nat
    using round_up [of 4 n] round_up [of 512 p] by simp_all
  then show "n \<le> PadFrame ready n" unfolding PadFrame_def Let_def by (auto intro: order.trans)
  have "(p + 511) div 512 * 512 mod 4 = 0" for p :: nat by (metis mod_mult_right_eq mod_mult_self2_is_0 mult_0_right mod_0 mod_mult_mult1 numeral_Bit0 mult.assoc mult_2_right)
  then show "PadFrame ready n mod 4 = 0" by (simp add: PadFrame_def Let_def)
  assume "n \<le> 8192"
  then have "(n + 3) div 4 \<le> 8195 div 4" by (intro div_le_mono) simp
  moreover from this have "((n + 3) div 4 * 4 + 511) div 512 \<le> 8703 div 512" by (intro div_le_mono) simp
  ultimately show "PadFrame ready n \<le> 8192" by (simp add: PadFrame_def Let_def)
qed

text \<open>Accesses behind a prefix.\<close>

lemma wr8_append: "wr8 (xs @ ys) (length xs + k) v = map_option (append xs) (wr8 ys k v)"
  by (simp add: wr8_def list_update_append)

lemma rd8_append: "rd8 (xs @ ys) (length xs + k) = rd8 ys k"
  by (simp add: rd8_def nth_append)

lemma rdn_append: "rdn (xs @ ys) (length xs + k) n = rdn ys k n"
  by (simp add: rdn_def sub_bytes_def add.assoc)

lemma wrn_append: "wrn (xs @ ys) (length xs + k) d = map_option (append xs) (wrn ys k d)"
  by (simp add: wrn_def add.assoc)

lemma CywPut16_append: "CywPut16 (xs @ ys) (length xs + k) v = map_option (append xs) (CywPut16 ys k v)"
  by (auto simp: CywPut16_def wr8_def list_update_append)

lemma CywPut32_append: "CywPut32 (xs @ ys) (length xs + k) v = map_option (append xs) (CywPut32 ys k v)"
  by (auto simp: CywPut32_def wr8_def list_update_append)

lemma CywLe32_append: "CywLe32 (xs @ ys) (length xs + k) = CywLe32 ys k"
  unfolding CywLe32_def add.assoc rd8_append ..

text \<open>The header with the glom extension as a list.\<close>

definition ext_header :: "u16 \<Rightarrow> u32 \<Rightarrow> u32 \<Rightarrow> u8 \<Rightarrow> u8 \<Rightarrow> bytes" where
  "ext_header hw ext pad seq channel = [byte_of 0 hw, byte_of 1 hw, byte_of 0 (NOT hw), byte_of 1 (NOT hw),
     byte_of 0 ext, byte_of 1 ext, byte_of 2 ext, byte_of 3 ext, byte_of 0 pad, byte_of 1 pad, byte_of 2 pad, byte_of 3 pad,
     seq, channel, 0, 20, 0, 0, 0, 0]"

lemma length_ext_header [simp]: "length (ext_header hw ext pad seq channel) = 20"
  by (simp add: ext_header_def)

lemma put_ext_header:
  "do {
     b \<leftarrow> CywPut16 (replicate 20 0 @ rest) 0 hw;
     b \<leftarrow> CywPut16 b 2 (NOT hw);
     b \<leftarrow> CywPut32 b 4 ext;
     b \<leftarrow> CywPut32 b 8 pad;
     b \<leftarrow> wr8 b 12 seq;
     b \<leftarrow> wr8 b 13 channel;
     b \<leftarrow> wr8 b 15 20;
     f b } = f (ext_header hw ext pad seq channel @ rest)"
  by (simp add: CywPut16_def CywPut32_def wr8_def ext_header_def numeral_eq_Suc)

lemma ext_word:
  fixes n :: nat
  assumes "n < 2 ^ 24"
  defines "w \<equiv> word_of_nat n :: u32"
  shows "unat (w AND 0xffffff) = n" "\<not> bit w 24" "unat ((w OR push_bit 24 1) AND 0xffffff) = n" "bit (w OR push_bit 24 1) 24"
proof -
  have m: "(0xffffff :: u32) = mask 24" by (simp add: mask_eq_exp_minus_1)
  have u: "unat w = n" using assms by (simp add: w_def unat_of_nat)
  show 1: "unat (w AND 0xffffff) = n"
    unfolding m take_bit_eq_mask [symmetric] using assms u by (simp add: unsigned_take_bit_eq take_bit_nat_eq_self)
  have "(w OR push_bit 24 1) AND 0xffffff = w AND 0xffffff"
    unfolding m take_bit_eq_mask [symmetric] by (simp add: take_bit_push_bit flip: push_bit_eq_mult)
  with 1 show "unat ((w OR push_bit 24 1) AND 0xffffff) = n" by simp
  have "bit w 24 \<longleftrightarrow> bit n 24" by (simp add: w_def bit_simps)
  moreover have "\<not> bit n 24" using assms(1) by (simp add: bit_iff_odd)
  ultimately show "\<not> bit w 24" by simp
  show "bit (w OR push_bit 24 1) 24" by (simp add: bit_simps)
qed

lemma pad_word: "n < 65536 \<Longrightarrow> unat (drop_bit 16 (push_bit 16 (word_of_nat n) :: u32)) = n"
proof -
  assume n: "n < 65536"
  have "unat (push_bit 16 (word_of_nat n) :: u32) = n * 65536"
    using n by (simp add: unsigned_push_bit_eq unat_of_nat push_bit_nat_def take_bit_nat_def)
  then show ?thesis by (simp add: unat_drop_bit_eq drop_bit_nat_def)
qed
lemma replicate_split: "k \<le> n \<Longrightarrow> replicate n x = replicate k x @ replicate (n - k) x"
  by (simp flip: replicate_add)

lemma wrn_at: "wrn (xs @ replicate m 0) (length xs) d = (if length d \<le> m then Some (xs @ d @ replicate (m - length d) 0) else None)"
  by (simp add: wrn_def)

lemma BuildFrame_glom:
  assumes "length data + 20 \<le> padded"
  shows "BuildFrame True seq channel data padded = Some (ext_header (word_of_nat padded) (word_of_nat (length data + 16) OR push_bit 24 1)
    (push_bit 16 (word_of_nat (padded - (length data + 20)))) seq channel @ data @ replicate (padded - (length data + 20)) 0)"
proof -
  have r: "replicate padded 0 = replicate 20 0 @ replicate (padded - 20) (0 :: u8)" by (rule replicate_split) (use assms in simp)
  have w: "wrn (ext_header hw ext pad seq channel @ replicate (padded - 20) 0) 20 data =
      Some (ext_header hw ext pad seq channel @ data @ replicate (padded - (length data + 20)) 0)" for hw ext pad
    using wrn_at [of "ext_header hw ext pad seq channel" "padded - 20" data] assms by (simp add: add.commute)
  show ?thesis unfolding BuildFrame_def Let_def if_True r put_ext_header w by (simp add: add.commute)
qed

lemma BuildFrame_plain:
  assumes "length data + 12 \<le> padded"
  shows "BuildFrame False seq channel data padded = Some ([byte_of 0 (word_of_nat (length data + 12) :: u16), byte_of 1 (word_of_nat (length data + 12) :: u16),
     byte_of 0 (NOT (word_of_nat (length data + 12)) :: u16), byte_of 1 (NOT (word_of_nat (length data + 12)) :: u16), seq, channel, 0, 12, 0, 0, 0, 0] @
     data @ replicate (padded - (length data + 12)) 0)"
proof -
  have r: "replicate padded 0 = replicate 12 0 @ replicate (padded - 12) (0 :: u8)" by (rule replicate_split) (use assms in simp)
  show ?thesis
    unfolding BuildFrame_def Let_def if_False r using assms
    by (simp add: CywPut16_def wr8_def wrn_def numeral_eq_Suc add.commute)
qed

lemma bind_map: "Option.bind (map_option f m) g = Option.bind m (\<lambda>x. g (f x))"
  by (cases m) simp_all

lemma map_bind: "map_option f (Option.bind m g) = Option.bind m (\<lambda>x. map_option f (g x))"
  by (cases m) simp_all

lemma BuildPair_eq:
  assumes "off2 = length data1 + 20 + pad1" "pad1 = (4 - (length data1 + 20) mod 4) mod 4" "off2 + length data2 + 20 \<le> padded"
  shows "BuildPair seq data1 data2 padded = Some (
    (ext_header (word_of_nat padded) (word_of_nat (length data1 + 16)) (push_bit 16 (word_of_nat pad1)) seq 2 @ data1 @ replicate pad1 0) @
    ext_header (word_of_nat (length data2 + 20)) (word_of_nat (length data2 + 16) OR push_bit 24 1)
      (push_bit 16 (word_of_nat (padded - (off2 + (length data2 + 20))))) (seq + 1) 2 @ data2 @ replicate (padded - (off2 + (length data2 + 20))) 0)"
proof -
  define h1 where "h1 = ext_header (word_of_nat padded) (word_of_nat (length data1 + 16)) (push_bit 16 (word_of_nat pad1)) seq 2"
  define xs where "xs = h1 @ data1 @ replicate pad1 0"
  have xs: "length xs = off2" using assms(1) by (simp add: xs_def h1_def)
  have r: "replicate padded 0 = replicate 20 0 @ replicate (padded - 20) (0 :: u8)" by (rule replicate_split) (use assms(3) in linarith)
  have w1: "wrn (h1 @ replicate (padded - 20) 0) 20 data1 = Some (xs @ replicate 20 0 @ replicate (padded - off2 - 20) 0)"
  proof -
    have "replicate (padded - 20 - length data1) (0::u8) = replicate pad1 0 @ replicate (padded - 20 - length data1 - pad1) 0"
      by (rule replicate_split) (use assms(1,3) in linarith)
    moreover have "padded - 20 - length data1 - pad1 = padded - off2" using assms(1) by simp
    moreover have "replicate (padded - off2) (0::u8) = replicate 20 0 @ replicate (padded - off2 - 20) 0"
      by (rule replicate_split) (use assms(3) in linarith)
    ultimately have "replicate (padded - 20 - length data1) (0::u8) = replicate pad1 0 @ replicate 20 0 @ replicate (padded - off2 - 20) 0"
      by (simp only:)
    moreover have "length h1 = 20" "length data1 \<le> padded - 20" using assms(1,3) by (simp add: h1_def, linarith)
    ultimately show ?thesis
      using wrn_at [of h1 "padded - 20" data1] unfolding xs_def by (simp only: if_True append_assoc)
  qed
  have w2: "wrn (h @ replicate (padded - off2 - 20) 0) 20 data2 = Some (h @ data2 @ replicate (padded - (off2 + (length data2 + 20))) 0)"
    if "length h = 20" for h
  proof -
    have "length data2 \<le> padded - off2 - 20" "padded - off2 - 20 - length data2 = padded - (off2 + (length data2 + 20))" using assms(3) by linarith+
    then show ?thesis using wrn_at [of h "padded - off2 - 20" data2] that by (simp only: if_True)
  qed
  have at: "CywPut16 (xs @ ys) off2 v = map_option (append xs) (CywPut16 ys 0 v)" for ys v using CywPut16_append [of xs ys 0 v] xs by simp
  note behind = at CywPut16_append [of xs, unfolded xs] CywPut32_append [of xs, unfolded xs] wr8_append [of xs, unfolded xs] wrn_append [of xs, unfolded xs]
  have sub: "n + 20 - 4 = n + 16" for n :: nat by simp
  have second: "do {
     b \<leftarrow> CywPut16 (xs @ ys) off2 hw;
     b \<leftarrow> CywPut16 b (off2 + 2) (NOT hw);
     b \<leftarrow> CywPut32 b (off2 + 4) ext;
     b \<leftarrow> CywPut32 b (off2 + 8) pad;
     b \<leftarrow> wr8 b (off2 + 12) sq;
     b \<leftarrow> wr8 b (off2 + 13) 2;
     b \<leftarrow> wr8 b (off2 + 15) 20;
     wrn b (off2 + 20) data2 } = map_option (append xs) (do {
     b \<leftarrow> CywPut16 ys 0 hw;
     b \<leftarrow> CywPut16 b 2 (NOT hw);
     b \<leftarrow> CywPut32 b 4 ext;
     b \<leftarrow> CywPut32 b 8 pad;
     b \<leftarrow> wr8 b 12 sq;
     b \<leftarrow> wr8 b 13 2;
     b \<leftarrow> wr8 b 15 20;
     wrn b 20 data2 })" for ys hw ext pad sq
    by (simp only: behind bind_map map_bind)
  show ?thesis
    unfolding BuildPair_def Let_def assms(2) [symmetric] assms(1) [symmetric] r put_ext_header sub h1_def [symmetric] w1 xs_def [symmetric]
    by (simp only: bind.bind_lunit second put_ext_header w2 length_ext_header option.map)
qed
text \<open>Reading the frames back.\<close>

lemma subframe_ext:
  assumes "length data + 20 < 2 ^ 24" "pad < 65536"
    and "ext = (if final then word_of_nat (length data + 16) OR push_bit 24 1 else word_of_nat (length data + 16))"
  shows "subframe (xs @ ext_header hw ext (push_bit 16 (word_of_nat pad)) seq channel @ data @ rest) (length xs) =
    Some (final, length xs + (length data + 20) + pad, seq, channel, data)"
proof -
  let ?h = "ext_header hw ext (push_bit 16 (word_of_nat pad)) seq channel"
  have e: "CywLe32 (?h @ ys) 4 = Some ext" "CywLe32 (?h @ ys) 8 = Some (push_bit 16 (word_of_nat pad))" for ys
    by (simp_all add: CywLe32_def rd8_def ext_header_def)
  have b: "rd8 (?h @ ys) 12 = Some seq" "rd8 (?h @ ys) 13 = Some channel" "rd8 (?h @ ys) 15 = Some 20" for ys
    by (simp_all add: rd8_def ext_header_def)
  have d: "rdn (?h @ data @ rest) 20 (length data) = Some data" by (simp add: rdn_def sub_bytes_def)
  have x: "unat (ext AND 0xffffff) = length data + 16" "bit ext 24 = final"
    using ext_word [of "length data + 16"] assms by (auto simp del: of_nat_add of_nat_numeral)
  show ?thesis
    unfolding subframe_def CywLe32_append rd8_append e b bind.bind_lunit Let_def x
    using pad_word [OF assms(2)] rdn_append [of xs "?h @ data @ rest" 20 "length data"] d
    by (simp add: csub_def)
qed

lemma decode_frame:
  assumes "length data + (if glom then 20 else 12) \<le> padded" "padded \<le> 8192" "channel \<le> 3"
  shows "\<exists>b. BuildFrame glom seq channel data padded = Some b \<and> length b = padded \<and> decode_wire glom b = Some [(seq, channel, data)]"
proof (cases glom)
  case True
  have u: "unat (word_of_nat padded :: u16) = padded" using assms by (simp add: unat_of_nat)
  have "subframe (ext_header (word_of_nat padded) (word_of_nat (length data + 16) OR push_bit 24 1)
      (push_bit 16 (word_of_nat (padded - (length data + 20)))) seq channel @ data @ replicate (padded - (length data + 20)) 0) 0 =
      Some (True, length data + 20 + (padded - (length data + 20)), seq, channel, data)" (is "subframe ?b 0 = _")
    using subframe_ext [of data "padded - (length data + 20)" _ True "[]"] assms True by simp
  moreover have "CywLe16 ?b 0 = Some (word_of_nat padded)" "CywLe16 ?b 2 = Some (NOT (word_of_nat padded))"
    by (simp_all add: CywLe16_def rd8_def ext_header_def)
  moreover have "length ?b = padded" using assms True by simp
  ultimately show ?thesis
    using BuildFrame_glom [of data padded seq channel] assms True u
    by (simp add: decode_wire_def numeral_2_eq_2 del: of_nat_add)
next
  case False
  define n :: u16 where "n = word_of_nat (length data + 12)"
  have u: "unat n = length data + 12" using assms False unfolding n_def by (simp add: unat_of_nat del: of_nat_add)
  define b where "b = [byte_of 0 n, byte_of 1 n, byte_of 0 (NOT n), byte_of 1 (NOT n), seq, channel, 0, 12, 0, 0, 0, 0] @
     data @ replicate (padded - (length data + 12)) 0"
  have len: "length b = padded" using assms False by (simp add: b_def)
  have c: "channel AND 15 = channel"
  proof -
    have "channel AND 15 = take_bit 4 channel" by (simp add: take_bit_eq_mask mask_eq_exp_minus_1)
    moreover have "take_bit 4 channel = channel"
      using assms(3) by (simp add: word_unat_eq_iff unsigned_take_bit_eq take_bit_nat_eq_self word_le_nat_alt)
    ultimately show ?thesis by simp
  qed
  have h: "CywLe16 b 0 = Some n" "CywLe16 b 2 = Some (NOT n)" "rd8 b 7 = Some 12" "rd8 b 5 = Some channel" "rd8 b 4 = Some seq"
    by (simp_all add: CywLe16_def rd8_def b_def)
  have d: "rdn b 12 (length data) = Some data" using assms False by (simp add: b_def rdn_def sub_bytes_def)
  have x: "NOT n XOR n = 0xffff"
  proof -
    have "NOT n XOR n = - 1" by (rule bit_word_eqI) (auto simp: bit_simps)
    then show ?thesis by simp
  qed
  have "\<not> length b < 12" using len assms False by simp
  then have "CywSdpcmHeader b 0 (length b) = Some (Some (length data + 12, 12))"
    unfolding CywSdpcmHeader_def add_0 h bind.bind_lunit c x u using assms(3) u by (simp add: not_less)
  then have "decode_wire glom b = Some [(seq, channel, data)]"
    using False d unfolding decode_wire_def h by simp
  moreover have "BuildFrame glom seq channel data padded = Some b"
    using BuildFrame_plain [of data padded seq channel, folded n_def] assms False by (simp add: b_def)
  ultimately show ?thesis using len by simp
qed

lemma decode_pair:
  assumes "off2 = length data1 + 20 + (4 - (length data1 + 20) mod 4) mod 4" "off2 + (length data2 + 20) \<le> padded" "padded \<le> 8192"
  shows "\<exists>b. BuildPair seq data1 data2 padded = Some b \<and> length b = padded \<and>
    decode_wire True b = Some [(seq, 2, data1), (seq + 1, 2, data2)]"
proof -
  define pad1 where "pad1 = (4 - (length data1 + 20) mod 4) mod 4"
  define pad2 where "pad2 = padded - (off2 + (length data2 + 20))"
  define xs where "xs = ext_header (word_of_nat padded) (word_of_nat (length data1 + 16)) (push_bit 16 (word_of_nat pad1)) seq 2 @ data1 @ replicate pad1 0"
  define ys where "ys = ext_header (word_of_nat (length data2 + 20)) (word_of_nat (length data2 + 16) OR push_bit 24 1)
      (push_bit 16 (word_of_nat pad2)) (seq + 1) 2 @ data2 @ replicate pad2 0"
  have off2: "off2 = length data1 + 20 + pad1" using assms(1) by (simp add: pad1_def)
  have b: "BuildPair seq data1 data2 padded = Some (xs @ ys)"
    using BuildPair_eq [of off2 data1 pad1 data2 padded seq] off2 assms(2) by (simp add: xs_def ys_def pad1_def pad2_def add.assoc del: of_nat_add)
  have l: "length xs = off2" "length (xs @ ys) = padded" "length xs + (length data2 + 20) + pad2 = padded"
    using off2 assms(2) by (simp_all add: xs_def ys_def pad2_def)
  have u: "unat (word_of_nat padded :: u16) = padded" using assms by (simp add: unat_of_nat)
  have p: "pad1 < 65536" "length data1 + 20 < 2 ^ 24" "length data2 + 20 < 2 ^ 24" "pad2 < 65536"
    using off2 assms(2,3) by (simp_all add: pad2_def)
  have s1: "subframe (xs @ ys) 0 = Some (False, off2, seq, 2, data1)"
    using subframe_ext [of data1 pad1 _ False "[]" "word_of_nat padded" seq 2 "replicate pad1 0 @ ys"] p off2 unfolding xs_def by simp
  have s2: "subframe (xs @ ys) off2 = Some (True, padded, seq + 1, 2, data2)"
    using subframe_ext [of data2 pad2 _ True xs "word_of_nat (length data2 + 20)" "seq + 1" 2 "replicate pad2 0"] p l unfolding ys_def by simp
  have h: "CywLe16 (xs @ ys) 0 = Some (word_of_nat padded)" "CywLe16 (xs @ ys) 2 = Some (NOT (word_of_nat padded))"
    by (simp_all add: xs_def CywLe16_def rd8_def ext_header_def)
  show ?thesis using b l u s1 s2 h by (simp add: decode_wire_def numeral_2_eq_2)
qed

end
