(* ===== verification/Transport_Send.thy ===== *)
theory Transport_Send
  imports Transport_Safety Transport_Frames
begin

text \<open>
  The send path of \<open>cyw43455/transport_send.h\<close>: a frame goes out after a fresh service of function 1 (or as a follower of a burst that
  such a service allowed), with open flow control, a running firmware and a firmware credit; with the glom extension two data frames
  may share a transfer.  The buffer \<open>N->Tx\<close> is scratch, zeroed before and after each use, so a frame is a value here; \<open>TdWire\<close> keeps
  the transfers that the controller accepted.  A channel above 3 never occurs: the callers pass 0 and 2.
\<close>

section \<open>Sending\<close>

abbreviation (input) "RPI5CYW_TX_SERVICE_BURST_MAX \<equiv> (4 :: nat)"
abbreviation (input) "RPI5CYW_TX_ADAPTIVE_SMALL_DATA_MAX \<equiv> (516 :: nat)"

text \<open>One more attempt, success, refusal or error of the burst frame at \<open>position\<close>.\<close>

definition bump :: "nat \<Rightarrow> u32 list \<Rightarrow> u32 list" where
  "bump position xs = (if 2 \<le> position \<and> position \<le> 4 then xs[position - 2 := xs ! (position - 2) + 1] else xs)"

definition CywServiceBurstAttempt :: "nat \<Rightarrow> txd \<Rightarrow> txd" where
  "CywServiceBurstAttempt position T = T\<lparr>TdBurstAttempts := bump position (TdBurstAttempts T)\<rparr>"

definition CywServiceBurstBusy :: "nat \<Rightarrow> txd \<Rightarrow> txd" where
  "CywServiceBurstBusy position T = T\<lparr>TdBurstBusy := bump position (TdBurstBusy T)\<rparr>"

definition CywServiceBurstSuccess :: "nat \<Rightarrow> txd \<Rightarrow> txd" where
  "CywServiceBurstSuccess position T = T\<lparr>TdBurstSuccess := bump position (TdBurstSuccess T),
     TdBurstSavedStatusChecks := TdBurstSavedStatusChecks T + 1\<rparr>"

definition CywServiceBurstError :: "nat \<Rightarrow> txd \<Rightarrow> txd" where
  "CywServiceBurstError position T = T\<lparr>TdBurstErrors := bump position (TdBurstErrors T)\<rparr>"

definition flow_open :: "link \<Rightarrow> bool" where
  "flow_open l \<longleftrightarrow> \<not> GlobalFlow (LFlow l) \<and> CywTransportPriorityAllowed (LFlow l) (TxFlow l)"

text \<open>The clock of the detailed diagnostics, not read unless they are on.\<close>

definition CYW_TXD_CLOCK :: "'w hw \<Rightarrow> ('w, u64) drv" where
  "CYW_TXD_CLOCK H = do {
     on \<leftarrow> asks (\<lambda>a. ADetailed a \<and> TmEnabled (ATiming a));
     if on then world (hw_qpc H) else ret 0 }"

text \<open>The duration of a stage of the send path, stored by \<open>f\<close>.\<close>

definition StageDuration :: "'w hw \<Rightarrow> u64 \<Rightarrow> (tx_diag \<Rightarrow> u64 \<times> u64) \<Rightarrow> (u64 \<Rightarrow> u64 \<Rightarrow> tx_diag \<Rightarrow> tx_diag) \<Rightarrow> ('w, unit) lnk" where
  "StageDuration H start get put = do {
     on \<leftarrow> bus (asks (\<lambda>a. ADetailed a \<and> TmEnabled (ATiming a)));
     if on then do {
       now \<leftarrow> bus (CYW_TXD_CLOCK H);
       diagS (\<lambda>D. case CywTxDiagDuration start now (fst (get D), snd (get D), DfClockRegressions D) of
         (ticks, longest, back) \<Rightarrow> (put ticks longest D)\<lparr>DfClockRegressions := back\<rparr>) }
     else ret () }"

text \<open>A fresh service of function 1 before data, with its diagnostics.\<close>

definition ServiceF1 :: "'w hw \<Rightarrow> ('w, NTSTATUS) lnk" where
  "ServiceF1 H = do {
     svcS (\<lambda>T. T\<lparr>TxStatusChecks := TxStatusChecks T + 1\<rparr>);
     diagS (\<lambda>D. D\<lparr>DfF1Calls := CywTxDiagInc (DfF1Calls D)\<rparr>);
     S \<leftarrow> lasks LSvc;
     start \<leftarrow> bus (CYW_TXD_CLOCK H);
     st \<leftarrow> CywTransportService H False;
     StageDuration H start (\<lambda>D. (DfF1Ticks D, DfF1MaxTicks D)) (\<lambda>a b D. D\<lparr>DfF1Ticks := a, DfF1MaxTicks := b\<rparr>);
     U \<leftarrow> lasks LSvc;
     isOpen \<leftarrow> lasks flow_open;
     diagS (\<lambda>D. D\<lparr>DfF1StatusReads := CywTxDiagAdd (DfF1StatusReads D) (ucast (StatusReads U - StatusReads S)),
       DfF1StatusAcks := CywTxDiagAdd (DfF1StatusAcks D) (ucast (StatusAcks U - StatusAcks S)),
       DfF1MailboxReads := CywTxDiagAdd (DfF1MailboxReads D) (ucast (MailReads U - MailReads S)),
       DfF1Errors := (if \<not> NT_SUCCESS st then CywTxDiagInc (DfF1Errors D) else DfF1Errors D),
       DfF1FlowBusy := (if NT_SUCCESS st \<and> \<not> isOpen then CywTxDiagInc (DfF1FlowBusy D) else DfF1FlowBusy D)\<rparr>);
     ret st }"

text \<open>How many following frames the credit window lets a burst send without another service.\<close>

definition BurstGrant :: "nat \<Rightarrow> nat \<Rightarrow> u8 \<Rightarrow> nat" where
  "BurstGrant len want window =
    (let cap = (if len > RPI5CYW_TX_ADAPTIVE_SMALL_DATA_MAX then 1 else min want RPI5CYW_TX_SERVICE_BURST_MAX);
         available = unat window
     in if cap > 1 \<and> available > 1 \<and> available \<le> 0x40 then min (available - 1) (cap - 1) else 0)"

text \<open>The checks before a frame is built: \<open>Inl\<close> the status that ends the call, \<open>Inr\<close> the grant.\<close>

definition SendGate :: "'w hw \<Rightarrow> u8 \<Rightarrow> nat \<Rightarrow> bool \<Rightarrow> nat \<Rightarrow> nat \<Rightarrow> ('w, NTSTATUS + nat) lnk" where
  "SendGate H channel len serviceData position want =
    (if channel \<noteq> 2 then ret (Inr 0)
     else if serviceData then do {
       st \<leftarrow> ServiceF1 H;
       if \<not> NT_SUCCESS st then ret (Inl st) else do {
       isOpen \<leftarrow> lasks flow_open;
       if \<not> isOpen then ret (Inl STATUS_DEVICE_BUSY)
       else do {
         window \<leftarrow> lasks (\<lambda>l. TxMax l - TxSeq l);
         ret (Inr (BurstGrant len want window)) } } }
     else if position < 2 \<or> position > RPI5CYW_TX_SERVICE_BURST_MAX then ret (Inl STATUS_INVALID_PARAMETER)
     else do {
       txS (CywServiceBurstAttempt position);
       ready \<leftarrow> lasks (\<lambda>l. flow_open l \<and> CywTxCredit (TxSeq l) (TxMax l) 0);
       if \<not> ready then do { txS (CywServiceBurstBusy position); ret (Inl STATUS_DEVICE_BUSY) }
       else ret (Inr 0) })"

text \<open>The transfer of a finished frame of \<open>payload\<close> data bytes, with the diagnostics of data frames.\<close>

definition TransferF2 :: "'w hw \<Rightarrow> bool \<Rightarrow> bytes \<Rightarrow> nat \<Rightarrow> ('w, NTSTATUS) lnk" where
  "TransferF2 H data frame payload = do {
     (if data then diagS (\<lambda>D. D\<lparr>DfF2Calls := CywTxDiagInc (DfF2Calls D)\<rparr>) else ret ());
     commands \<leftarrow> bus (asks (\<lambda>a. Cmd53WriteCount (ACmd a)));
     start \<leftarrow> (if data then bus (CYW_TXD_CLOCK H) else ret 0);
     (st, _) \<leftarrow> bus (SdioFifoTransfer H frame True);
     (if data then do {
        after \<leftarrow> bus (asks (\<lambda>a. Cmd53WriteCount (ACmd a)));
        diagS (\<lambda>D. D\<lparr>DfF2Cmd53Writes := CywTxDiagAdd (DfF2Cmd53Writes D) (ucast (after - commands))\<rparr>);
        StageDuration H start (\<lambda>D. (DfF2Ticks D, DfF2MaxTicks D)) (\<lambda>a b D. D\<lparr>DfF2Ticks := a, DfF2MaxTicks := b\<rparr>);
        diagS (\<lambda>D. if NT_SUCCESS st
          then D\<lparr>DfF2PayloadBytes := CywTxDiagAdd (DfF2PayloadBytes D) (word_of_nat payload),
                 DfF2PaddedBytes := CywTxDiagAdd (DfF2PaddedBytes D) (word_of_nat (length frame))\<rparr>
          else D\<lparr>DfF2Errors := CywTxDiagInc (DfF2Errors D)\<rparr>) }
      else ret ());
     (if NT_SUCCESS st then txS (\<lambda>T. T\<lparr>TdWire := frame # TdWire T\<rparr>) else ret ());
     ret st }"

text \<open>After the transfer: counters, the next number, and the grant for the followers.\<close>

definition SendDone :: "u8 \<Rightarrow> bool \<Rightarrow> nat \<Rightarrow> bool \<Rightarrow> nat \<Rightarrow> NTSTATUS \<Rightarrow> ('w, NTSTATUS \<times> nat) lnk" where
  "SendDone channel serviceData position permit grant st = do {
     glom \<leftarrow> lasks (\<lambda>l. TdGlomEnabled (LTx l));
     (if NT_SUCCESS st \<and> glom
      then txS (\<lambda>T. if channel = 2 then T\<lparr>TdExtendedDataSingles := TdExtendedDataSingles T + 1\<rparr>
             else T\<lparr>TdExtendedControlSingles := TdExtendedControlSingles T + 1\<rparr>) else ret ());
     (if channel = 2 \<and> \<not> serviceData
      then txS (if NT_SUCCESS st then CywServiceBurstSuccess position else CywServiceBurstError position) else ret ());
     if NT_SUCCESS st then do {
       lmod (\<lambda>l. l\<lparr>TxSeq := TxSeq l + 1\<rparr>);
       if channel = 2 \<and> serviceData \<and> grant \<noteq> 0 \<and> permit then do {
         txS (\<lambda>T. T\<lparr>TdBurstGrants := TdBurstGrants T + 1, TdBurstGrantedFollowers := TdBurstGrantedFollowers T + word_of_nat grant,
           TdBurstMaxFollowers := (if word_of_nat grant > TdBurstMaxFollowers T then word_of_nat grant else TdBurstMaxFollowers T)\<rparr>);
         ret (st, grant) }
       else ret (st, 0) }
     else ret (st, 0) }"

definition SendFrame :: "'w hw \<Rightarrow> u8 \<Rightarrow> bytes \<Rightarrow> bool \<Rightarrow> nat \<Rightarrow> bool \<Rightarrow> nat \<Rightarrow> nat \<Rightarrow> ('w, NTSTATUS \<times> nat) lnk" where
  "SendFrame H channel data serviceData position permit grant padded = do {
     glom \<leftarrow> lasks (\<lambda>l. TdGlomEnabled (LTx l));
     if glom \<and> padded - (length data + 20) > 0xffff then ret (STATUS_INVALID_BUFFER_SIZE, 0) else do {
     frame \<leftarrow> lasks (\<lambda>l. BuildFrame glom (TxSeq l) channel data padded);
     checked (STATUS_UNSUCCESSFUL, 0) frame (\<lambda>frame. do {
     st \<leftarrow> TransferF2 H (channel = 2) frame (length data);
     SendDone channel serviceData position permit grant st }) } }"

text \<open>The gate passed: the firmware has to run and to have a credit left.\<close>

definition SendAdmitted :: "'w hw \<Rightarrow> u8 \<Rightarrow> bytes \<Rightarrow> bool \<Rightarrow> nat \<Rightarrow> bool \<Rightarrow> nat \<Rightarrow> nat \<Rightarrow> ('w, NTSTATUS \<times> nat) lnk" where
  "SendAdmitted H channel data serviceData position permit grant padded = do {
     halted \<leftarrow> lasks (\<lambda>l. Halted (LFlow l));
     if halted then ret (STATUS_DEVICE_NOT_READY, 0) else do {
     credit \<leftarrow> lasks (\<lambda>l. CywTxCredit (TxSeq l) (TxMax l) 0);
     if \<not> credit then do {
       (if channel = 2 \<and> \<not> serviceData then txS (CywServiceBurstBusy position) else ret ());
       ret (STATUS_DEVICE_BUSY, 0) }
     else SendFrame H channel data serviceData position permit grant padded } }"

definition CywSendFrameCore :: "'w hw \<Rightarrow> u8 \<Rightarrow> bytes \<Rightarrow> bool \<Rightarrow> nat \<Rightarrow> nat \<Rightarrow> bool \<Rightarrow> ('w, NTSTATUS \<times> nat) lnk" where
  "CywSendFrameCore H channel data serviceData position want permit = do {
     header \<leftarrow> lasks (\<lambda>l. if TdGlomEnabled (LTx l) then 20 else 12);
     ready \<leftarrow> bus (asks (\<lambda>a. FifoBlockReady (AFifo a)));
     let total = length data + header;
     let padded = PadFrame ready total;
     if length data > CYW_CONTROL_CAPACITY - header then ret (STATUS_INVALID_BUFFER_SIZE, 0)
     else if padded > CYW_CONTROL_CAPACITY \<or> padded < total then ret (STATUS_INVALID_BUFFER_SIZE, 0)
     else do {
       r \<leftarrow> SendGate H channel (length data) serviceData position want;
       case r of
         Inl st \<Rightarrow> ret (st, 0)
       | Inr grant \<Rightarrow> SendAdmitted H channel data serviceData position permit grant padded } }"

definition CywSendFrame :: "'w hw \<Rightarrow> u8 \<Rightarrow> bytes \<Rightarrow> ('w, NTSTATUS) lnk" where
  "CywSendFrame H channel data = do {
     (st, _) \<leftarrow> CywSendFrameCore H channel data True 0 1 False;
     ret st }"

definition CywSendDataBurstStart :: "'w hw \<Rightarrow> bytes \<Rightarrow> nat \<Rightarrow> ('w, NTSTATUS \<times> nat) lnk" where
  "CywSendDataBurstStart H data want = CywSendFrameCore H 2 data True 0 want True"

definition CywSendDataBurstReuse :: "'w hw \<Rightarrow> bytes \<Rightarrow> nat \<Rightarrow> ('w, NTSTATUS) lnk" where
  "CywSendDataBurstReuse H data position = do {
     (st, _) \<leftarrow> CywSendFrameCore H 2 data False position 1 False;
     ret st }"

text \<open>After the transfer of a pair: the counters and the two numbers used.\<close>

definition PairDone :: "nat \<Rightarrow> nat \<Rightarrow> NTSTATUS \<Rightarrow> ('w, NTSTATUS) lnk" where
  "PairDone payload padded st = do {
     (if NT_SUCCESS st then do {
        lmod (\<lambda>l. l\<lparr>TxSeq := TxSeq l + 2\<rparr>);
        txS (\<lambda>T. T\<lparr>TdGlomChains := TdGlomChains T + 1, TdGlomFrames := TdGlomFrames T + 2,
          TdGlomPayloadBytes := TdGlomPayloadBytes T + word_of_nat payload,
          TdGlomPaddedBytes := TdGlomPaddedBytes T + word_of_nat padded\<rparr>) }
      else txS (\<lambda>T. T\<lparr>TdGlomErrors := TdGlomErrors T + 1\<rparr>));
     ret st }"

text \<open>The transfer of a pair: lines up both frames behind their headers.\<close>

definition SendPair :: "'w hw \<Rightarrow> bytes \<Rightarrow> bytes \<Rightarrow> ('w, NTSTATUS) lnk" where
  "SendPair H data1 data2 = do {
     ready \<leftarrow> bus (asks (\<lambda>a. FifoBlockReady (AFifo a)));
     let logical1 = length data1 + 20;
     let off2 = logical1 + (4 - logical1 mod 4) mod 4;
     let used = off2 + (length data2 + 20);
     let padded = PadFrame ready used;
     if padded > CYW_CONTROL_CAPACITY \<or> padded < used then ret STATUS_INVALID_BUFFER_SIZE
     else if (4 - logical1 mod 4) mod 4 > 0xffff \<or> padded - used > 0xffff then ret STATUS_INVALID_BUFFER_SIZE
     else do {
       frame \<leftarrow> lasks (\<lambda>l. BuildPair (TxSeq l) data1 data2 padded);
       checked STATUS_UNSUCCESSFUL frame (\<lambda>frame. do {
       st \<leftarrow> TransferF2 H True frame (length data1 + length data2);
       PairDone (length data1 + length data2) padded st }) } }"

text \<open>The checks between the service and the transfer: open flow and two credits.\<close>

definition PairServiced :: "'w hw \<Rightarrow> bytes \<Rightarrow> bytes \<Rightarrow> NTSTATUS \<Rightarrow> ('w, NTSTATUS) lnk" where
  "PairServiced H data1 data2 st =
    (if \<not> NT_SUCCESS st then do { txS (\<lambda>T. T\<lparr>TdGlomErrors := TdGlomErrors T + 1\<rparr>); ret st }
     else do {
       ready \<leftarrow> lasks (\<lambda>l. flow_open l \<and> CywTxCredit (TxSeq l) (TxMax l) 0 \<and> CywTxCredit (TxSeq l + 1) (TxMax l) 0);
       if \<not> ready then do { txS (\<lambda>T. T\<lparr>TdGlomBusyFallbacks := TdGlomBusyFallbacks T + 1\<rparr>); ret STATUS_DEVICE_BUSY }
       else do {
         halted \<leftarrow> lasks (\<lambda>l. Halted (LFlow l));
         if halted then ret STATUS_DEVICE_NOT_READY else SendPair H data1 data2 } })"

definition CywSendDataPair :: "'w hw \<Rightarrow> bytes \<Rightarrow> bytes \<Rightarrow> ('w, NTSTATUS) lnk" where
  "CywSendDataPair H data1 data2 = do {
     txS (\<lambda>T. T\<lparr>TdGlomAttempts := TdGlomAttempts T + 1\<rparr>);
     glom \<leftarrow> lasks (\<lambda>l. TdGlomEnabled (LTx l));
     if \<not> glom \<or> length data1 > CYW_CONTROL_CAPACITY - 20 \<or> length data2 > CYW_CONTROL_CAPACITY - 20
     then ret STATUS_INVALID_BUFFER_SIZE
     else do { st \<leftarrow> ServiceF1 H; PairServiced H data1 data2 st } }"

section \<open>What a send changes\<close>

text \<open>The poll leaves the transmit side alone, apart from the credit limit.\<close>

locale poll_frame = service_frame +
  assumes rx_update: "P l (l\<lparr>LRx := r\<rparr>)"
    and seq_update: "P l (l\<lparr>LSeq := q\<rparr>)"
    and net_update: "P l (l\<lparr>LNet := n\<rparr>)"
    and probe_update: "P l (l\<lparr>LProbe := d\<rparr>)"
    and traffic_update: "P l (l\<lparr>LTraffic := c\<rparr>)"
    and credit_update: "P l (l\<lparr>TxMax := x, TxFlow := y\<rparr>)"
    and fault_update: "P l (l\<lparr>LFault := True\<rparr>)"
begin

lemma keeps_rx [keeps_intros]: "keeps (\<lambda>s t. P (fst s) (fst t)) (rxS f)"
  unfolding rxS_def by (intro keeps_lmod rx_update)

lemma keeps_seq [keeps_intros]: "keeps (\<lambda>s t. P (fst s) (fst t)) (seqS f)"
  unfolding seqS_def by (intro keeps_lmod seq_update)

lemma keeps_checked [keeps_intros]:
  "(\<And>x. keeps (\<lambda>s t. P (fst s) (fst t)) (k x)) \<Longrightarrow> keeps (\<lambda>s t. P (fst s) (fst t)) (checked d r k)"
  unfolding checked_def by (intro keeps_intros keeps_lmod fault_update)

lemma Deliver_keeps [keeps_intros]: "keeps (\<lambda>s t. P (fst s) (fst t)) (Deliver H D channel off len)"
  unfolding Deliver_def DeliverEvent_def CywReceive_def Indicate_def
  by (intro keeps_intros keeps_lmod net_update probe_update traffic_update)

lemma PollFailed_keeps [keeps_intros]: "keeps (\<lambda>s t. P (fst s) (fst t)) (PollFailed H st)"
  unfolding PollFailed_def by (intro keeps_intros)

lemma readFifo_keeps [keeps_intros]:
  "keeps (\<lambda>s t. P (fst s) (fst t)) k \<Longrightarrow> keeps (\<lambda>s t. P (fst s) (fst t)) (readFifo H at n k)"
  unfolding readFifo_def by (intro keeps_intros)

lemma HeaderCredits_keeps [keeps_intros]: "keeps (\<lambda>s t. P (fst s) (fst t)) (HeaderCredits H)"
  unfolding HeaderCredits_def by (intro keeps_intros keeps_lmod credit_update)

lemma PollChild_keeps [keeps_intros]: "keeps (\<lambda>s t. P (fst s) (fst t)) (PollChild H D)"
  unfolding PollChild_def Let_def by (intro keeps_intros)

lemma PollDispatch_keeps [keeps_intros]: "keeps (\<lambda>s t. P (fst s) (fst t)) (PollDispatch H D len off)"
  unfolding PollDispatch_def PollChannel_def PollDescriptor_def PollData_def by (intro keeps_intros)

lemma Poll_keeps [keeps_intros]: "keeps (\<lambda>s t. P (fst s) (fst t)) (CywPoll H D)"
  unfolding CywPoll_def PollSuperframe_def PollFrame_def PollHeader_def Let_def by (intro keeps_intros)

end

definition tx_kept :: "link \<Rightarrow> link \<Rightarrow> bool" where
  "tx_kept l m \<longleftrightarrow> LTx m = LTx l \<and> TxSeq m = TxSeq l"

interpretation poll: poll_frame tx_kept
  by unfold_locales (simp_all add: tx_kept_def)

text \<open>The checks before a send change counters, flow state and announcements of received frames only.\<close>

definition gated :: "link \<Rightarrow> link \<Rightarrow> bool" where
  "gated l m \<longleftrightarrow> rx_same (LRx l) (LRx m) \<and> LFilter m = LFilter l \<and> LNet m = LNet l \<and> LProbe m = LProbe l \<and> LFault m = LFault l \<and>
     TxSeq m = TxSeq l \<and> TxMax m = TxMax l \<and> TdGlomEnabled (LTx m) = TdGlomEnabled (LTx l) \<and> TdWire (LTx m) = TdWire (LTx l)"

interpretation gate: service_frame gated
  by unfold_locales (simp_all add: gated_def rx_same_def)

lemma gated_ok: "gated l m \<Longrightarrow> transport_ok l \<Longrightarrow> transport_ok m"
  by (simp add: gated_def rx_same_def transport_ok_def link_base_ok_def rx_base_ok_def)

lemma gated_diag [keeps_intros]: "keeps (\<lambda>s t. gated (fst s) (fst t)) (diagS f)"
  unfolding diagS_def by (intro gate.keeps_lmod) (simp add: gated_def rx_same_def)

lemma gated_tx:
  "(\<And>T. TdGlomEnabled (f T) = TdGlomEnabled T) \<Longrightarrow> (\<And>T. TdWire (f T) = TdWire T) \<Longrightarrow> keeps (\<lambda>s t. gated (fst s) (fst t)) (txS f)"
  unfolding txS_def by (intro gate.keeps_lmod) (simp add: gated_def rx_same_def)

lemma StageDuration_gated [keeps_intros]: "keeps (\<lambda>s t. gated (fst s) (fst t)) (StageDuration H start get put)"
  unfolding StageDuration_def by (intro keeps_intros gate.keeps_bind gate.keeps_return gate.keeps_bus)

lemmas gated_intros = keeps_if gate.keeps_bind gate.keeps_return gate.keeps_bus gate.keeps_lasks gate.keeps_svc gated_diag StageDuration_gated
  gate.Service_keeps

lemma ServiceF1_gated: "keeps (\<lambda>s t. gated (fst s) (fst t)) (ServiceF1 H)"
  unfolding ServiceF1_def by (intro gated_intros)

lemma burst_simps [simp]:
  "TdGlomEnabled (CywServiceBurstAttempt p T) = TdGlomEnabled T" "TdWire (CywServiceBurstAttempt p T) = TdWire T"
  "TdGlomEnabled (CywServiceBurstBusy p T) = TdGlomEnabled T" "TdWire (CywServiceBurstBusy p T) = TdWire T"
  "TdGlomEnabled (CywServiceBurstSuccess p T) = TdGlomEnabled T" "TdWire (CywServiceBurstSuccess p T) = TdWire T"
  "TdGlomEnabled (CywServiceBurstError p T) = TdGlomEnabled T" "TdWire (CywServiceBurstError p T) = TdWire T"
  by (simp_all add: CywServiceBurstAttempt_def CywServiceBurstBusy_def CywServiceBurstSuccess_def CywServiceBurstError_def)

lemma ServiceF1_wp:
  assumes "\<And>st t. gated (fst s) (fst t) \<Longrightarrow> Q st t"
  shows "wp (ServiceF1 H) Q s"
  by (rule wp_mono [OF wp_keeps [OF ServiceF1_gated]]) (rule assms)

lemma SendGate_wp:
  "wp (SendGate H channel len serviceData position want)
     (\<lambda>r t. gated (fst s) (fst t) \<and> (case r of Inl st \<Rightarrow> \<not> NT_SUCCESS st | Inr g \<Rightarrow> channel = 2 \<longrightarrow> flow_open (fst t))) s"
  unfolding SendGate_def wp_rules link_defs
  by (auto simp: wp_rules gate.P_refl intro!: ServiceF1_wp) (auto simp: gated_def rx_same_def flow_open_def)

text \<open>After the gate nothing of the flow state changes; the wire log grows exactly on success.\<close>

definition transferred :: "bytes \<Rightarrow> link \<Rightarrow> NTSTATUS \<Rightarrow> link \<Rightarrow> bool" where
  "transferred frame l st m \<longleftrightarrow> LFlow m = LFlow l \<and> TxFlow m = TxFlow l \<and> LRx m = LRx l \<and> LFilter m = LFilter l \<and> LNet m = LNet l \<and>
     LProbe m = LProbe l \<and> LFault m = LFault l \<and> TxSeq m = TxSeq l \<and> TxMax m = TxMax l \<and> TdGlomEnabled (LTx m) = TdGlomEnabled (LTx l) \<and>
     TdWire (LTx m) = (if NT_SUCCESS st then frame # TdWire (LTx l) else TdWire (LTx l))"

lemma StageDuration_wp:
  assumes "\<And>D t. Q () ((fst s)\<lparr>LDiag := D\<rparr>, t)"
  shows "wp (StageDuration H start get put) Q s"
  unfolding StageDuration_def CYW_TXD_CLOCK_def wp_rules link_defs
  using assms assms [of "LDiag (fst s)" "snd s"] by (auto simp: wp_rules split: prod.split)

lemma TransferF2_wp:
  assumes "\<And>st t. transferred frame (fst s) st (fst t) \<Longrightarrow> Q st t"
  shows "wp (TransferF2 H data frame payload) Q s"
  unfolding TransferF2_def CYW_TXD_CLOCK_def wp_rules link_defs
  by (auto simp: wp_rules transferred_def split: prod.split intro!: wp_any [of _ "SdioFifoTransfer H frame True"] StageDuration_wp assms)

text \<open>
  \<open>sent\<close>: a successful send used a real credit of a running firmware, data only with the flow open, and put exactly one
  transfer on the wire, which the firmware decodes to the given frames with consecutive numbers; a failed one
  put nothing there and used no number.
\<close>

definition sent :: "(u8 \<times> bytes) list \<Rightarrow> link \<Rightarrow> NTSTATUS \<Rightarrow> link \<Rightarrow> bool" where
  "sent fs l st m \<longleftrightarrow> rx_same (LRx l) (LRx m) \<and> LFilter m = LFilter l \<and> LNet m = LNet l \<and> LProbe m = LProbe l \<and> LFault m = LFault l \<and>
     TxMax m = TxMax l \<and> TdGlomEnabled (LTx m) = TdGlomEnabled (LTx l) \<and>
     (if NT_SUCCESS st then
        \<not> Halted (LFlow m) \<and> (\<forall>i < length fs. CywTxCredit (TxSeq l + of_nat i) (TxMax l) 0) \<and>
        ((\<exists>d. (2, d) \<in> set fs) \<longrightarrow> flow_open m) \<and>
        TxSeq m = TxSeq l + of_nat (length fs) \<and>
        (\<exists>b. TdWire (LTx m) = b # TdWire (LTx l) \<and>
           decode_wire (TdGlomEnabled (LTx l)) b = Some (map (\<lambda>i. (TxSeq l + of_nat i, fs ! i)) [0..<length fs]))
      else TxSeq m = TxSeq l \<and> TdWire (LTx m) = TdWire (LTx l))"

lemma sent_failed: "gated l m \<Longrightarrow> \<not> NT_SUCCESS st \<Longrightarrow> sent fs l st m"
  by (simp add: sent_def gated_def)

text \<open>The state after a transfer, with the number used up on success.\<close>

definition advanced :: "nat \<Rightarrow> link \<Rightarrow> NTSTATUS \<Rightarrow> link \<Rightarrow> bool" where
  "advanced n l st m \<longleftrightarrow> LFlow m = LFlow l \<and> TxFlow m = TxFlow l \<and> LRx m = LRx l \<and> LFilter m = LFilter l \<and> LNet m = LNet l \<and>
     LProbe m = LProbe l \<and> LFault m = LFault l \<and> TxSeq m = (if NT_SUCCESS st then TxSeq l + of_nat n else TxSeq l) \<and> TxMax m = TxMax l \<and>
     TdGlomEnabled (LTx m) = TdGlomEnabled (LTx l) \<and> TdWire (LTx m) = TdWire (LTx l)"

lemma advanced_sent:
  assumes "gated l k" "transferred b k st m" "advanced (length fs) m st m'" "\<not> Halted (LFlow k)"
    "\<And>i. i < length fs \<Longrightarrow> CywTxCredit (TxSeq l + of_nat i) (TxMax l) 0" "(\<exists>d. (2, d) \<in> set fs) \<longrightarrow> flow_open k"
    "decode_wire (TdGlomEnabled (LTx l)) b = Some (map (\<lambda>i. (TxSeq l + of_nat i, fs ! i)) [0..<length fs])"
  shows "sent fs l st m'"
  using assms by (auto simp: sent_def gated_def transferred_def advanced_def flow_open_def)

lemma SendDone_wp:
  assumes "\<And>g t. advanced 1 (fst s) st (fst t) \<Longrightarrow> g \<le> grant \<Longrightarrow> Q (st, g) t"
  shows "wp (SendDone channel serviceData position permit grant st) Q s"
  unfolding SendDone_def wp_rules link_defs
  by (auto simp: wp_rules intro!: assms) (simp_all add: advanced_def)

lemma SendFrame_wp:
  assumes g: "gated l (fst s)" and credit: "CywTxCredit (TxSeq l) (TxMax l) 0" and h: "\<not> Halted (LFlow (fst s))"
    and flow: "channel = 2 \<longrightarrow> flow_open (fst s)" and c: "channel \<le> 3"
    and n: "length data + (if TdGlomEnabled (LTx l) then 20 else 12) \<le> padded" "padded \<le> 8192"
  shows "wp (SendFrame H channel data serviceData position permit grant padded)
    (\<lambda>(st, g) t. sent [(channel, data)] l st (fst t) \<and> g \<le> grant) s"
proof -
  have e: "TdGlomEnabled (LTx (fst s)) = TdGlomEnabled (LTx l)" "TxSeq (fst s) = TxSeq l" using g by (simp_all add: gated_def)
  obtain b where b: "BuildFrame (TdGlomEnabled (LTx l)) (TxSeq l) channel data padded = Some b"
      "decode_wire (TdGlomEnabled (LTx l)) b = Some [(TxSeq l, channel, data)]"
    using decode_frame [OF n c] by blast
  have done': "sent [(channel, data)] l st m'" if "transferred b (fst s) st m" "advanced 1 m st m'" for st m m'
    by (rule advanced_sent [OF g that(1) _ h]) (use that(2) credit flow b(2) in auto)
  have small: "\<not> (TdGlomEnabled (LTx l) \<and> padded - (length data + 20) > 0xffff)" using n(2) by linarith
  show ?thesis
    unfolding SendFrame_def wp_rules e if_not_P [OF small] b(1) option.case link_defs
    by (rule TransferF2_wp, rule SendDone_wp) (simp add: done')
qed

text \<open>Every follower a burst grants has a firmware credit of its own.\<close>

definition granted :: "link \<Rightarrow> nat \<Rightarrow> bool" where
  "granted l g \<longleftrightarrow> g \<le> 3 \<and> (g \<noteq> 0 \<longrightarrow> (\<forall>i \<le> g. CywTxCredit (TxSeq l + of_nat i) (TxMax l) 0))"

lemma credit_window_add: "i \<le> credit_window seq mx \<Longrightarrow> credit_window (seq + of_nat i) mx = credit_window seq mx - i"
proof (induction i)
  case (Suc i)
  then have w: "credit_window (seq + of_nat i) mx = credit_window seq mx - i" by simp
  with Suc.prems have "seq + of_nat i \<noteq> mx" by (auto simp: credit_window_def)
  from credit_window_Suc [OF this] w show ?case by (simp add: ac_simps)
qed simp

lemma BurstGrant_granted:
  assumes "g \<le> BurstGrant len want (TxMax l - TxSeq l)"
  shows "granted l g"
proof -
  let ?w = "credit_window (TxSeq l) (TxMax l)"
  have g: "g \<le> 3" "g \<noteq> 0 \<Longrightarrow> g < ?w \<and> ?w \<le> 64"
    using assms by (auto simp: BurstGrant_def credit_window_def Let_def split: if_splits)
  have "CywTxCredit (TxSeq l + of_nat i) (TxMax l) 0" if "i \<le> g" "g \<noteq> 0" for i
    unfolding CywTxCredit_window using g(2) [OF that(2)] that(1) credit_window_add [of i "TxSeq l" "TxMax l"] by simp linarith
  with g(1) show ?thesis by (auto simp: granted_def)
qed

lemma granted_gated: "gated l m \<Longrightarrow> granted m g = granted l g"
  by (simp add: gated_def granted_def)

lemma granted_0 [simp]: "granted l 0"
  by (simp add: granted_def)

lemma granted_mono: "granted l g \<Longrightarrow> h \<le> g \<Longrightarrow> granted l h"
  by (auto simp: granted_def)

lemma gated_trans: "gated l k \<Longrightarrow> gated k m \<Longrightarrow> gated l m"
  by (auto simp: gated_def rx_same_def)


lemma SendGate_granted:
  "wp (SendGate H channel len serviceData position want)
     (\<lambda>r t. gated (fst s) (fst t) \<and> (case r of Inl st \<Rightarrow> \<not> NT_SUCCESS st
        | Inr g \<Rightarrow> (channel = 2 \<longrightarrow> flow_open (fst t)) \<and> granted (fst s) g)) s"
  unfolding SendGate_def wp_rules link_defs
  by (auto simp: wp_rules gate.P_refl intro!: ServiceF1_wp)
    (auto simp: gated_def rx_same_def flow_open_def intro!: BurstGrant_granted elim: subst)

lemma SendAdmitted_wp:
  assumes g: "gated l (fst s)" and flow: "channel = 2 \<longrightarrow> flow_open (fst s)" and c: "channel \<le> 3" and gr: "granted l grant"
    and n: "length data + (if TdGlomEnabled (LTx l) then 20 else 12) \<le> padded" "padded \<le> 8192"
  shows "wp (SendAdmitted H channel data serviceData position permit grant padded)
    (\<lambda>(st, g) t. sent [(channel, data)] l st (fst t) \<and> granted l g) s"
proof -
  let ?Q = "\<lambda>(st, g) t. sent [(channel, data)] l st (fst t) \<and> granted l g"
  have e: "TxSeq (fst s) = TxSeq l" "TxMax (fst s) = TxMax l" using g by (simp_all add: gated_def)
  have f: "sent fs l STATUS_DEVICE_NOT_READY (fst s)"
    "gated l m \<Longrightarrow> sent fs l STATUS_DEVICE_BUSY m" for m fs by (rule sent_failed; use g in simp)+
  have busy: "gated l ((fst s)\<lparr>LTx := CywServiceBurstBusy position (LTx (fst s))\<rparr>)" using g by (simp add: gated_def)
  have "wp (SendFrame H channel data serviceData position permit grant padded) ?Q s"
    if "\<not> Halted (LFlow (fst s))" "CywTxCredit (TxSeq l) (TxMax l) 0"
    by (rule wp_mono [OF SendFrame_wp [OF g that(2,1) flow c n]]) (auto intro: granted_mono [OF gr])
  then show ?thesis
    unfolding SendAdmitted_def wp_rules link_defs e by (simp add: f g busy)
qed

lemma CywSendFrameCore_wp:
  assumes c: "channel \<le> 3"
  shows "wp (CywSendFrameCore H channel data serviceData position want permit)
    (\<lambda>(st, g) t. sent [(channel, data)] (fst s) st (fst t) \<and> granted (fst s) g) s"
proof -
  let ?Q = "\<lambda>(st, g) t. sent [(channel, data)] (fst s) st (fst t) \<and> granted (fst s) g"
  define h :: nat where "h = (if TdGlomEnabled (LTx (fst s)) then 20 else 12)"
  have "wp (SendGate H channel (length data) serviceData position want) (\<lambda>r. wp (case r of Inl st \<Rightarrow> ret (st, 0)
       | Inr grant \<Rightarrow> SendAdmitted H channel data serviceData position permit grant padded) ?Q) s"
    if "length data + h \<le> padded" "padded \<le> 8192" for padded
    by (rule wp_mono [OF SendGate_granted])
      (use that c in \<open>auto simp: wp_rules h_def split: sum.splits intro!: sent_failed SendAdmitted_wp\<close>)
  moreover have "sent [(channel, data)] (fst s) STATUS_INVALID_BUFFER_SIZE (fst s)"
    by (rule sent_failed) (simp_all add: gate.P_refl)
  ultimately show ?thesis
    unfolding CywSendFrameCore_def wp_rules link_defs Let_def h_def [symmetric] by (simp add: not_less)
qed


lemma PairDone_wp:
  assumes "\<And>t. advanced 2 (fst s) st (fst t) \<Longrightarrow> Q st t"
  shows "wp (PairDone payload padded st) Q s"
  unfolding PairDone_def wp_rules link_defs by (auto simp: wp_rules intro!: assms) (simp_all add: advanced_def)

lemma SendPair_wp:
  assumes g: "gated l (fst s)" and credit: "CywTxCredit (TxSeq l) (TxMax l) 0" "CywTxCredit (TxSeq l + 1) (TxMax l) 0"
    and h: "\<not> Halted (LFlow (fst s))" and flow: "flow_open (fst s)" and glom: "TdGlomEnabled (LTx l)"
  shows "wp (SendPair H data1 data2) (\<lambda>st t. sent [(2, data1), (2, data2)] l st (fst t)) s"
proof -
  let ?fs = "[(2, data1), (2, data2)] :: (u8 \<times> bytes) list"
  define off2 where "off2 = length data1 + 20 + (4 - (length data1 + 20) mod 4) mod 4"
  have f: "sent ?fs l STATUS_INVALID_BUFFER_SIZE (fst s)" by (rule sent_failed [OF g]) simp
  have e: "TxSeq (fst s) = TxSeq l" using g by (simp add: gated_def)
  have credits: "CywTxCredit (TxSeq l + of_nat i) (TxMax l) 0" if "i < length ?fs" for i
    using that credit by (cases i) auto
  have tail: "\<exists>b. BuildPair (TxSeq l) data1 data2 padded = Some b \<and> wp (TransferF2 H True b n)
       (\<lambda>st. wp (PairDone n padded st) (\<lambda>st t. sent ?fs l st (fst t))) s"
    if p: "off2 + (length data2 + 20) \<le> padded" "padded \<le> 8192" for padded n
  proof -
    obtain b where b: "BuildPair (TxSeq l) data1 data2 padded = Some b" "decode_wire True b = Some [(TxSeq l, 2, data1), (TxSeq l + 1, 2, data2)]"
      using decode_pair [OF off2_def p] by blast
    have s: "sent ?fs l st m'" if "transferred b (fst s) st m" "advanced 2 m st m'" for st m m'
      by (rule advanced_sent [OF g that(1) _ h credits]) (use that(2) flow b(2) glom in \<open>auto simp: numeral_2_eq_2\<close>)
    have "wp (TransferF2 H True b n) (\<lambda>st. wp (PairDone n padded st) (\<lambda>st t. sent ?fs l st (fst t))) s"
      by (rule TransferF2_wp, rule PairDone_wp, rule s)
    with b(1) show ?thesis by blast
  qed
  show ?thesis
    unfolding SendPair_def wp_rules link_defs Let_def off2_def [symmetric] e prod.collapse
    by (auto simp: f not_less dest!: tail [where n = "length data1 + length data2"])
qed

lemma PairServiced_wp:
  assumes g: "gated l (fst s)" and glom: "TdGlomEnabled (LTx l)"
  shows "wp (PairServiced H data1 data2 st) (\<lambda>st t. sent [(2, data1), (2, data2)] l st (fst t)) s"
proof -
  have tx: "gated l ((fst s)\<lparr>LTx := (LTx (fst s))\<lparr>TdGlomErrors := x\<rparr>\<rparr>)" "gated l ((fst s)\<lparr>LTx := (LTx (fst s))\<lparr>TdGlomBusyFallbacks := x\<rparr>\<rparr>)" for x
    using g by (simp_all add: gated_def)
  have e: "TxSeq (fst s) = TxSeq l" "TxMax (fst s) = TxMax l" using g by (simp_all add: gated_def)
  show ?thesis
    unfolding PairServiced_def wp_rules link_defs e
    by (simp add: sent_failed [OF tx(1)] sent_failed [OF tx(2)] sent_failed [OF g] SendPair_wp [OF g _ _ _ _ glom])
qed

lemma CywSendDataPair_wp:
  "wp (CywSendDataPair H data1 data2) (\<lambda>st t. sent [(2, data1), (2, data2)] (fst s) st (fst t)) s"
proof -
  let ?l = "(fst s)\<lparr>LTx := (LTx (fst s))\<lparr>TdGlomAttempts := TdGlomAttempts (LTx (fst s)) + 1\<rparr>\<rparr>"
  have g: "gated (fst s) ?l" by (simp add: gated_def rx_same_def)
  have "wp (ServiceF1 H) (\<lambda>st. wp (PairServiced H data1 data2 st) (\<lambda>st t. sent [(2, data1), (2, data2)] (fst s) st (fst t))) (?l, snd s)"
    if "TdGlomEnabled (LTx (fst s))"
    by (rule ServiceF1_wp, rule PairServiced_wp [OF gated_trans [OF g] that]) simp
  then show ?thesis
    unfolding CywSendDataPair_def wp_rules link_defs by (simp add: sent_failed [OF g])
qed

section \<open>The link as a numbered log\<close>

text \<open>What the bus worker asks of the link, in any order: polls, control frames, first and following frames of a burst, pairs.\<close>

datatype link_op = OpPoll | OpControl bytes | OpData bytes | OpStart bytes nat | OpReuse bytes nat | OpPair bytes bytes

fun op_frames :: "link_op \<Rightarrow> (u8 \<times> bytes) list" where
  "op_frames OpPoll = []"
| "op_frames (OpControl d) = [(0, d)]"
| "op_frames (OpData d) = [(2, d)]"
| "op_frames (OpStart d want) = [(2, d)]"
| "op_frames (OpReuse d position) = [(2, d)]"
| "op_frames (OpPair d1 d2) = [(2, d1), (2, d2)]"

fun link_call :: "'w hw \<Rightarrow> 'w ndis \<Rightarrow> link_op \<Rightarrow> ('w, NTSTATUS) lnk" where
  "link_call H D OpPoll = do { (st, _) \<leftarrow> CywPoll H D; ret st }"
| "link_call H D (OpControl d) = CywSendFrame H 0 d"
| "link_call H D (OpData d) = CywSendFrame H 2 d"
| "link_call H D (OpStart d want) = do { (st, _) \<leftarrow> CywSendDataBurstStart H d want; ret st }"
| "link_call H D (OpReuse d position) = CywSendDataBurstReuse H d position"
| "link_call H D (OpPair d1 d2) = CywSendDataPair H d1 d2"

text \<open>The frames of the calls that succeeded, in order, and the state after all calls.\<close>

fun link_run :: "'w hw \<Rightarrow> 'w ndis \<Rightarrow> link_op list \<Rightarrow> ('w, (u8 \<times> bytes) list) lnk" where
  "link_run H D [] = ret []"
| "link_run H D (x # xs) = do {
     st \<leftarrow> link_call H D x;
     fs \<leftarrow> link_run H D xs;
     ret ((if NT_SUCCESS st then op_frames x else []) @ fs) }"

text \<open>The frames the firmware reads off the wire, with their numbers; what they should be.\<close>

definition wire_log :: "link \<Rightarrow> (u8 \<times> u8 \<times> bytes) list option" where
  "wire_log l = map_option concat (those (map (decode_wire (TdGlomEnabled (LTx l))) (rev (TdWire (LTx l)))))"

definition numbered :: "u8 \<Rightarrow> (u8 \<times> bytes) list \<Rightarrow> (u8 \<times> u8 \<times> bytes) list" where
  "numbered seq fs = map (\<lambda>i. (seq + of_nat i, fs ! i)) [0..<length fs]"

lemma numbered_Nil [simp]: "numbered seq [] = []"
  by (simp add: numbered_def)

lemma numbered_append: "numbered seq (fs @ gs) = numbered seq fs @ numbered (seq + of_nat (length fs)) gs"
  by (auto simp: numbered_def nth_append ac_simps intro!: nth_equalityI)

lemma those_snoc: "those (xs @ [x]) = (case those xs of None \<Rightarrow> None | Some ys \<Rightarrow> map_option (\<lambda>y. ys @ [y]) x)"
  by (induction xs) (auto simp: option.map_comp comp_def split: option.splits)

lemma sent_ok: "sent fs l st m \<Longrightarrow> transport_ok l \<Longrightarrow> transport_ok m"
  by (simp add: sent_def rx_same_def transport_ok_def link_base_ok_def rx_base_ok_def)

text \<open>A call appends the frames it accepted to the log, and nothing else.\<close>

definition appended :: "(u8 \<times> bytes) list \<Rightarrow> link \<Rightarrow> link \<Rightarrow> bool" where
  "appended fs l m \<longleftrightarrow> transport_ok m \<and> TdGlomEnabled (LTx m) = TdGlomEnabled (LTx l) \<and> TxSeq m = TxSeq l + of_nat (length fs) \<and>
     wire_log m = map_option (\<lambda>log. log @ numbered (TxSeq l) fs) (wire_log l)"

lemma sent_appended:
  assumes "sent fs l st m" "transport_ok l"
  shows "appended (if NT_SUCCESS st then fs else []) l m"
  using assms sent_ok [OF assms]
  by (auto simp: sent_def appended_def wire_log_def numbered_def those_snoc option.map_comp comp_def option.map_ident split: option.splits)

lemma appended_trans: "appended fs l k \<Longrightarrow> appended gs k m \<Longrightarrow> appended (fs @ gs) l m"
  by (simp add: appended_def numbered_append option.map_comp comp_def ac_simps)

lemma Poll_appended:
  assumes "transport_ok (fst s)"
  shows "wp (CywPoll H D) (\<lambda>r t. appended [] (fst s) (fst t)) s"
proof -
  have "wp (CywPoll H D) (\<lambda>r t. polled (fst s) r t \<and> tx_kept (fst s) (fst t)) s"
    unfolding wp_conj using Poll_wp [OF assms] wp_keeps [OF poll.Poll_keeps] by blast
  then show ?thesis
    by (rule wp_mono) (simp add: polled_def tx_kept_def appended_def wire_log_def option.map_ident)
qed

lemma link_call_appended:
  assumes ok: "transport_ok (fst s)"
  shows "wp (link_call H D x) (\<lambda>st t. appended (if NT_SUCCESS st then op_frames x else []) (fst s) (fst t)) s"
proof -
  have core: "wp (CywSendFrameCore H channel d serviceData position want permit) (\<lambda>(st, _) t.
      appended (if NT_SUCCESS st then [(channel, d)] else []) (fst s) (fst t)) s" if "channel \<le> 3" for channel d serviceData position want permit
    by (rule wp_mono [OF CywSendFrameCore_wp [OF that]]) (use sent_appended [OF _ ok] in auto)
  note core = wp_mono [OF core]
  show ?thesis
  proof (cases x)
    case OpPoll
    then show ?thesis by (auto simp: wp_rules intro: wp_mono [OF Poll_appended [OF ok]])
  next
    case (OpPair d1 d2)
    then show ?thesis by (simp, intro wp_mono [OF CywSendDataPair_wp]) (use sent_appended [OF _ ok] in auto)
  qed (auto simp: wp_rules CywSendFrame_def CywSendDataBurstStart_def CywSendDataBurstReuse_def intro!: core)
qed

lemma link_run_appended:
  assumes "transport_ok (fst s)"
  shows "wp (link_run H D xs) (\<lambda>fs t. appended fs (fst s) (fst t)) s"
  using assms
proof (induction xs arbitrary: s)
  case Nil
  then show ?case by (simp add: wp_rules appended_def option.map_ident)
next
  case (Cons x xs)
  have "wp (link_run H D xs) (\<lambda>fs u. appended ((if NT_SUCCESS st then op_frames x else []) @ fs) (fst s) (fst u)) t"
    if "appended (if NT_SUCCESS st then op_frames x else []) (fst s) (fst t)" for st t
    by (rule wp_mono [OF Cons.IH]) (use that in \<open>simp add: appended_def\<close>, rule appended_trans [OF that])
  then show ?case
    unfolding link_run.simps wp_rules by (intro wp_mono [OF link_call_appended [OF Cons.prems]])
qed

section \<open>A sample send\<close>

text \<open>The definitions that a transfer of a few bytes runs through; each of its waits ends at the first look.\<close>

lemmas first_try = InhibitLoop.simps(2) [where n = 9999, simplified] PollLoop.simps(2) [where n = 253, simplified]

lemmas transfer_eval = wp_rules Let_def state_defs first_try SdioFifoTransfer_def FifoLoop.simps [where buf = "_ # _"] FifoLoop.simps [where buf = "[]"]
  FifoChunk_def SdioCmd53Transfer_def SdioCmd53TransferRaw_def TimingBegin_def TimingEnd_def CywTimingBucketEnabled_def CywTimingStart_def
  Cmd53Valid_def SdioIsValidByteRead_def SdioWaitInhibitClear_def IoStopped_def SdioRead32_def StartCmd53_def SdioWrite32_def SdioWrite16_def
  InterruptTime_def DataErrors_def PhaseEvent_def PhaseWork_def SdioR5HasError_def OperatingBus_def
  StoreLoop.simps [where bs = "_ # _"] StoreLoop.simps [where bs = "[]"]

lemma sample_frame: "BuildFrame False 250 0 [1, 2, 3, 4] 16 = Some [16, 0, 0xef, 0xff, 250, 0, 0, 12, 0, 0, 0, 0, 1, 2, 3, 4]"
  by code_simp

lemma sample_send: "wp (CywSendFrame port_hw 0 [1, 2, 3, 4])
    (\<lambda>st t. st = STATUS_SUCCESS \<and> snd (snd t) = [0xffef0010, 0x0c0000fa, 0, 0x04030201]) (sample_link, zero_adapter, [])"
  by (simp add: CywSendFrame_def CywSendFrameCore_def SendGate_def SendAdmitted_def SendFrame_def SendDone_def TransferF2_def link_defs CywTxCredit_def PadFrame_def
    sample_frame sample_link_def transfer_eval port_hw_def zero_adapter_def zero_fifod_def zero_busd_def)

section \<open>The link delivers\<close>






end
