(* ===== verification/Firmware_Command.thy ===== *)
theory Firmware_Command
  imports Transport_Send
begin

text \<open>
  Commands to the firmware (\<open>cyw43455/control.h\<close>): a request goes out as a control frame with a fresh number, and the
  polls that follow wait for the reply with that number.  \<open>fwc\<close> holds the fields of the adapter that describe the last command, \<open>conn\<close> those of the
  connection sequence.  The two waiting loops run until the interrupt time passes a deadline, so they have fuel: \<open>FcHung\<close> is set
  when it runs out, and the last section shows that with a running clock it never does.
\<close>

section \<open>State\<close>

text \<open>What the connection sequence records.\<close>

record conn =
  TxGlomRequested :: bool
  TxGlomConfigStatus :: NTSTATUS
  MacReadbackStatus :: NTSTATUS
  MacReadbackMatches :: bool
  JoinPreferenceAccepted :: bool
  JoinPreferenceError :: u32
  JoinPreferenceStatus :: NTSTATUS
  ConnectStep :: nat
  CountryRequested :: u32
  CountryApplied :: u32
  CountryRevision :: u32
  CountryBefore :: u32
  CountryBeforeRevision :: u32
  CountrySetMode :: nat
  CountryExplicitError :: u32
  ClmLoadStatus :: u32
  ClmQueryStatus :: NTSTATUS
  CountryListStatus :: NTSTATUS
  CountryListError :: u32
  CountryListCount :: nat
  CountryListMembership :: nat
  CountryListReplyLength :: nat
  BandSelection :: "u32 list"

record fwc =
  RequestId :: u16
  FirmwareReplyDeclaredLength :: u32
  FirmwareReplyPayloadLength :: nat
  FirmwareRequestCapacity :: nat
  FirmwareValueLength :: nat
  FirmwareCommandCode :: u32
  FirmwareError :: u32
  FirmwareReplyLength :: nat
  FcHung :: bool
  FcConn :: conn

type_synonym ('w, 'a) fwm = "(fwc \<times> link \<times> adapter \<times> 'w, 'a) state"

definition via :: "('w, 'a) lnk \<Rightarrow> ('w, 'a) fwm" where
  "via m = State (\<lambda>(c, s). case run_state m s of (x, t) \<Rightarrow> (x, (c, t)))"

definition fasks :: "(fwc \<Rightarrow> 'a) \<Rightarrow> ('w, 'a) fwm" where
  "fasks f = State (\<lambda>(c, s). (f c, (c, s)))"

definition fmod :: "(fwc \<Rightarrow> fwc) \<Rightarrow> ('w, unit) fwm" where
  "fmod f = State (\<lambda>(c, s). ((), (f c, s)))"

lemma wp_via [wp_rules]: "wp (via m) Q s = wp m (\<lambda>x t. Q x (fst s, t)) (snd s)"
  by (cases s) (simp add: via_def wp_def split: prod.splits)

lemma wp_fasks [wp_rules]: "wp (fasks f) Q s = Q (f (fst s)) s"
  by (cases s) (simp add: fasks_def wp_rules)

lemma wp_fmod [wp_rules]: "wp (fmod f) Q s = Q () (f (fst s), snd s)"
  by (cases s) (simp add: fmod_def wp_rules)

section \<open>The exchange with the firmware\<close>

text \<open>The request: command, length, number and direction, status, value.\<close>

definition BuildRequest :: "u32 \<Rightarrow> bool \<Rightarrow> u16 \<Rightarrow> bytes \<Rightarrow> bytes option" where
  "BuildRequest command Set' rid data = do {
     let b = replicate (length data + 16) 0;
     b \<leftarrow> CywPut32 b 0 command;
     b \<leftarrow> CywPut32 b 4 (word_of_nat (length data));
     b \<leftarrow> CywPut32 b 8 (push_bit 16 (ucast rid) OR (if Set' then 2 else 0));
     wrn b 16 data }"

fun CreditWaitLoop :: "nat \<Rightarrow> 'w hw \<Rightarrow> 'w ndis \<Rightarrow> u64 \<Rightarrow> ('w, NTSTATUS option) fwm" where
  "CreditWaitLoop 0 H D until = do { fmod (\<lambda>c. c\<lparr>FcHung := True\<rparr>); ret (Some STATUS_IO_TIMEOUT) }"
| "CreditWaitLoop (Suc n) H D until = do {
     credit \<leftarrow> via (lasks (\<lambda>l. CywTxCredit (TxSeq l) (TxMax l) 0));
     if credit then ret None else do {
     now \<leftarrow> via (linkTime H);
     if now \<ge> until then ret None else do {
     stop \<leftarrow> via (netStop H);
     if stop then ret None else do {
     (st, _) \<leftarrow> via (CywPoll H D);
     if \<not> NT_SUCCESS st \<and> st \<noteq> STATUS_NO_MORE_ENTRIES then ret (Some st)
     else do {
       via (bus (SdioDelayMilliseconds H 1));
       CreditWaitLoop n H D until } } } } }"

text \<open>The reply at \<open>off\<close> with its length and error checked and the value copied; \<open>None\<close> if it answers another request.\<close>

definition TakeReply :: "u32 \<Rightarrow> bool \<Rightarrow> u16 \<Rightarrow> bytes \<Rightarrow> nat \<Rightarrow> nat \<Rightarrow> ('w, (NTSTATUS \<times> bytes) option) fwm" where
  "TakeReply command Set' rid data off len = do {
     head \<leftarrow> via (lasks (\<lambda>l. do {
       c \<leftarrow> CywLe32 (RxBuffer (LRx l)) off;
       n \<leftarrow> CywLe32 (RxBuffer (LRx l)) (off + 4);
       f \<leftarrow> CywLe32 (RxBuffer (LRx l)) (off + 8);
       e \<leftarrow> CywLe32 (RxBuffer (LRx l)) (off + 12);
       v \<leftarrow> rdn (RxBuffer (LRx l)) (off + 16) (min (len - off - 16) (length data));
       Some (c, n, f, e, v) }));
     case head of
       None \<Rightarrow> do { via (lmod (\<lambda>l. l\<lparr>LFault := True\<rparr>)); ret (Some (STATUS_UNSUCCESSFUL, data)) }
     | Some (code, declared, flags, err, v) \<Rightarrow>
         if drop_bit 16 flags \<noteq> ucast rid \<or> code \<noteq> command then ret None
         else do {
           fmod (\<lambda>c. c\<lparr>FirmwareReplyDeclaredLength := declared, FirmwareReplyPayloadLength := len - off - 16\<rparr>);
           if flags AND 1 \<noteq> 0 then do {
             fmod (\<lambda>c. c\<lparr>FirmwareError := err\<rparr>);
             ret (Some (STATUS_UNSUCCESSFUL, data)) }
           else if Set' then ret (Some (STATUS_SUCCESS, data))
           else do {
             fmod (\<lambda>c. c\<lparr>FirmwareReplyLength := length v\<rparr>);
             ret (Some (STATUS_SUCCESS, v @ replicate (length data - length v) 0)) } } }"

text \<open>What the loop makes of one poll; \<open>None\<close> polls again.\<close>

definition ReplyFrame :: "'w hw \<Rightarrow> u32 \<Rightarrow> bool \<Rightarrow> u16 \<Rightarrow> bytes \<Rightarrow> NTSTATUS \<Rightarrow> (nat \<times> nat \<times> nat) option \<Rightarrow>
    ('w, (NTSTATUS \<times> bytes) option) fwm" where
  "ReplyFrame H command Set' rid data st frame =
    (if st = STATUS_NO_MORE_ENTRIES then do { via (bus (SdioDelayMilliseconds H 2)); ret None }
     else if \<not> NT_SUCCESS st then ret (Some (st, data))
     else case frame of
       None \<Rightarrow> do { via (lmod (\<lambda>l. l\<lparr>LFault := True\<rparr>)); ret (Some (STATUS_UNSUCCESSFUL, data)) }
     | Some (channel, off, len) \<Rightarrow>
         if channel \<noteq> 0 then ret None
         else if off > len \<or> len > CYW_WIRE_CAPACITY \<or> len - off < 16 \<or> len - off > CYW_CONTROL_CAPACITY
         then ret (Some (STATUS_DEVICE_DATA_ERROR, data))
         else TakeReply command Set' rid data off len)"

fun ReplyLoop :: "nat \<Rightarrow> 'w hw \<Rightarrow> 'w ndis \<Rightarrow> u64 \<Rightarrow> u32 \<Rightarrow> bool \<Rightarrow> u16 \<Rightarrow> bytes \<Rightarrow> ('w, NTSTATUS \<times> bytes) fwm" where
  "ReplyLoop 0 H D until command Set' rid data = do { fmod (\<lambda>c. c\<lparr>FcHung := True\<rparr>); ret (STATUS_IO_TIMEOUT, data) }"
| "ReplyLoop (Suc n) H D until command Set' rid data = do {
     now \<leftarrow> via (linkTime H);
     stop \<leftarrow> (if now < until then via (netStop H) else ret True);
     if stop then do {
       stop \<leftarrow> via (netStop H);
       ret (if stop then STATUS_CANCELLED else STATUS_IO_TIMEOUT, data) }
     else do {
       (st, frame) \<leftarrow> via (CywPoll H D);
       r \<leftarrow> ReplyFrame H command Set' rid data st frame;
       case r of
         None \<Rightarrow> ReplyLoop n H D until command Set' rid data
       | Some r \<Rightarrow> ret r } }"

definition SendRequest :: "nat \<Rightarrow> 'w hw \<Rightarrow> 'w ndis \<Rightarrow> u32 \<Rightarrow> bool \<Rightarrow> u16 \<Rightarrow> bytes \<Rightarrow> bytes \<Rightarrow> ('w, NTSTATUS \<times> bytes) fwm" where
  "SendRequest fuel H D command Set' rid data message = do {
     now \<leftarrow> via (linkTime H);
     let until = now + 50000000;
     r \<leftarrow> CreditWaitLoop fuel H D until;
     case r of
       Some st \<Rightarrow> ret (st, data)
     | None \<Rightarrow> do {
         st \<leftarrow> via (CywSendFrame H 0 message);
         if \<not> NT_SUCCESS st then ret (st, data)
         else ReplyLoop fuel H D until command Set' rid data } }"

definition CywFirmwareCommand :: "nat \<Rightarrow> 'w hw \<Rightarrow> 'w ndis \<Rightarrow> 'w files \<Rightarrow> u32 \<Rightarrow> bool \<Rightarrow> bytes \<Rightarrow> ('w, NTSTATUS \<times> bytes) fwm" where
  "CywFirmwareCommand fuel H D F command Set' data = do {
     fmod (\<lambda>c. c\<lparr>FirmwareReplyDeclaredLength := 0, FirmwareReplyPayloadLength := 0, FirmwareRequestCapacity := length data,
       FirmwareValueLength := 0\<rparr>);
     if length data > CYW_CONTROL_CAPACITY - 28 then ret (STATUS_INVALID_PARAMETER, data)
     else do {
       got \<leftarrow> via (bus (world (fs_alloc F (length data + 16))));
       if \<not> got then ret (STATUS_INSUFFICIENT_RESOURCES, data)
       else do {
         fmod (\<lambda>c. c\<lparr>RequestId := RequestId c + 1\<rparr>);
         rid \<leftarrow> fasks RequestId;
         fmod (\<lambda>c. c\<lparr>FirmwareCommandCode := command, FirmwareError := 0, FirmwareReplyLength := 0\<rparr>);
         case BuildRequest command Set' rid data of
           None \<Rightarrow> do { via (lmod (\<lambda>l. l\<lparr>LFault := True\<rparr>)); ret (STATUS_UNSUCCESSFUL, data) }
         | Some message \<Rightarrow> SendRequest fuel H D command Set' rid data message } } }"

text \<open>The value of a variable is the requested part of the reply; a short reply is an error.\<close>

definition IovarDone :: "bool \<Rightarrow> bytes \<Rightarrow> NTSTATUS \<times> bytes \<Rightarrow> ('w, NTSTATUS \<times> bytes) fwm" where
  "IovarDone Set' data r = do {
     fmod (\<lambda>c. c\<lparr>FirmwareValueLength := length data\<rparr>);
     if \<not> Set' \<and> NT_SUCCESS (fst r) then do {
       n \<leftarrow> fasks FirmwareReplyLength;
       if n < length data then ret (STATUS_DEVICE_DATA_ERROR, data)
       else do {
         fmod (\<lambda>c. c\<lparr>FirmwareReplyLength := length data\<rparr>);
         ret (fst r, take (length data) (snd r)) } }
     else ret (fst r, data) }"

text \<open>The name of a variable is a C string of 1 to 63 characters.\<close>

definition CywIovar :: "nat \<Rightarrow> 'w hw \<Rightarrow> 'w ndis \<Rightarrow> 'w files \<Rightarrow> bytes \<Rightarrow> bool \<Rightarrow> bytes \<Rightarrow> ('w, NTSTATUS \<times> bytes) fwm" where
  "CywIovar fuel H D F name Set' data =
    (if name = [] \<or> length name \<ge> 64 \<or> length data > CYW_CONTROL_CAPACITY - 128 then ret (STATUS_INVALID_PARAMETER, data)
     else do {
       got \<leftarrow> via (bus (world (fs_alloc F (length name + 1 + length data))));
       if \<not> got then ret (STATUS_INSUFFICIENT_RESOURCES, data)
       else do {
         r \<leftarrow> CywFirmwareCommand fuel H D F (if Set' then 263 else 262) Set'
           (name @ [0] @ (if Set' then data else replicate (length data) 0));
         IovarDone Set' data r } })"

section \<open>A command is one request and its own reply\<close>

definition request :: "u32 \<Rightarrow> bool \<Rightarrow> u16 \<Rightarrow> bytes \<Rightarrow> bytes" where
  "request command Set' rid data = bytes32 command @ bytes32 (word_of_nat (length data)) @
     bytes32 (push_bit 16 (ucast rid) OR (if Set' then 2 else 0)) @ replicate 4 0 @ data"

lemma BuildRequest_eq: "BuildRequest command Set' rid data = Some (request command Set' rid data)"
proof -
  have r: "replicate (length data + 16) 0 = replicate 16 0 @ replicate (length data) (0 :: u8)" by (simp flip: replicate_add)
  show ?thesis
    unfolding BuildRequest_def Let_def r
    by (simp add: CywPut32_def wr8_def wrn_def request_def bytes32_def numeral_eq_Suc)
qed

text \<open>The receive buffer holds the answer: the number and the code of the request, no error, and the value.\<close>

definition answered :: "u32 \<Rightarrow> bool \<Rightarrow> u16 \<Rightarrow> bytes \<Rightarrow> bytes \<Rightarrow> nat \<Rightarrow> link \<Rightarrow> bool" where
  "answered command Set' rid data d n l \<longleftrightarrow> (\<exists>off len flags. off + 16 \<le> len \<and> len \<le> CYW_WIRE_CAPACITY \<and>
     (let m = sub_bytes (RxBuffer (LRx l)) off (len - off) in
        CywLe32 m 0 = Some command \<and> CywLe32 m 8 = Some flags \<and> drop_bit 16 flags = ucast rid \<and> flags AND 1 = 0 \<and>
        (if Set' then d = data
         else n = min (length m - 16) (length data) \<and> d = take (length data) (drop 16 m @ replicate (length data) 0))))"

lemma CywLe32_sub: "CywLe32 b (off + k) = Some v \<Longrightarrow> k + 4 \<le> n \<Longrightarrow> off + n \<le> length b \<Longrightarrow> CywLe32 (sub_bytes b off n) k = Some v"
  by (auto simp: CywLe32_def rd8_def sub_bytes_def add.assoc split: if_splits)

lemma CywLe32_within: "k + 4 \<le> length b \<Longrightarrow> \<exists>v. CywLe32 b k = Some v"
  by (simp add: CywLe32_def rd8_def)

lemma TakeReply_wp:
  assumes l: "length (RxBuffer (LRx (fst (snd s)))) = CYW_WIRE_CAPACITY" and b: "off + 16 \<le> len" "len \<le> CYW_WIRE_CAPACITY"
    and none: "Q None s"
    and some: "\<And>st d c. length d = length data \<Longrightarrow> (if NT_SUCCESS st then answered command Set' rid data d (FirmwareReplyLength c) (fst (snd s))
        else d = data) \<Longrightarrow> FcHung c = FcHung (fst s) \<Longrightarrow> RequestId c = RequestId (fst s) \<Longrightarrow> Q (Some (st, d)) (c, snd s)"
  shows "wp (TakeReply command Set' rid data off len) Q s"
proof -
  let ?b = "RxBuffer (LRx (fst (snd s)))"
  let ?k = "min (len - (off + 16)) (length data)"
  obtain c n f e where r: "CywLe32 ?b off = Some c" "CywLe32 ?b (off + 4) = Some n" "CywLe32 ?b (off + 8) = Some f" "CywLe32 ?b (off + 12) = Some e"
    using CywLe32_within [of off ?b] CywLe32_within [of "off + 4" ?b] CywLe32_within [of "off + 8" ?b] CywLe32_within [of "off + 12" ?b] b l
    by auto
  have v: "rdn ?b (off + 16) ?k = Some (sub_bytes ?b (off + 16) ?k)" using b l by (simp add: rdn_def)
  have n: "length (sub_bytes ?b (off + 16) ?k) = ?k" using b l by simp
  have ans: "answered command S rid data d x (fst (snd s))"
    if "c = command" "drop_bit 16 f = ucast rid" "f AND 1 = 0"
      "if S then d = data else x = ?k \<and> d = sub_bytes ?b (off + 16) ?k @ replicate (length data - ?k) 0" for d x S
  proof -
    let ?m = "sub_bytes ?b off (len - off)"
    have m: "length ?m = len - off" using b l by simp
    have "CywLe32 ?m 0 = Some command" "CywLe32 ?m 8 = Some f"
      using CywLe32_sub [of ?b off 0 command "len - off"] CywLe32_sub [of ?b off 8 f "len - off"] r that b l by auto
    moreover have "sub_bytes ?b (off + 16) ?k @ replicate (length data - ?k) 0 = take (length data) (drop 16 ?m @ replicate (length data) 0)"
    proof -
      have d: "drop 16 ?m = sub_bytes ?b (off + 16) (len - (off + 16))" by (simp add: sub_bytes_def drop_take add.commute)
      have n: "length (sub_bytes ?b (off + 16) (len - (off + 16))) = len - (off + 16)" using b l by simp
      have t: "take (length data) (sub_bytes ?b (off + 16) (len - (off + 16))) = sub_bytes ?b (off + 16) ?k"
        by (simp add: sub_bytes_def min.commute)
      show ?thesis unfolding d take_append t n by (simp add: min_def)
    qed
    ultimately show ?thesis
      unfolding answered_def using that b m by (intro exI [of _ off] exI [of _ len] exI [of _ f]) (auto simp: Let_def)
  qed
  show ?thesis
    unfolding TakeReply_def wp_rules diff_diff_left r v bind.bind_lunit option.case prod.case n
    using none n by (auto simp: wp_rules intro!: some ans)
qed


text \<open>A poll between two states of the log, with the frame it found.\<close>

lemma Poll_between:
  assumes "appended fs l (fst s)"
    and "\<And>st r t. appended fs l (fst t) \<Longrightarrow> polled (fst s) (st, r) t \<Longrightarrow> Q (st, r) t"
  shows "wp (CywPoll H D) Q s"
proof -
  have ok: "transport_ok (fst s)" using assms(1) by (simp add: appended_def)
  have "wp (CywPoll H D) (\<lambda>r t. polled (fst s) r t \<and> appended [] (fst s) (fst t)) s"
    unfolding wp_conj using Poll_wp [OF ok] Poll_appended [OF ok] by blast
  then show ?thesis by (rule wp_mono) (use appended_trans [OF assms(1), of "[]"] assms(2) in auto)
qed

lemma wp_prod: "wp (case x of (a, b) \<Rightarrow> f a b) Q s = (case x of (a, b) \<Rightarrow> wp (f a b) Q s)"
  by (cases x) simp

definition waiting :: "fwc \<Rightarrow> link \<Rightarrow> (u8 \<times> bytes) list \<Rightarrow> fwc \<times> link \<times> 's \<Rightarrow> bool" where
  "waiting c l fs t \<longleftrightarrow> appended fs l (fst (snd t)) \<and> RequestId (fst t) = RequestId c"

lemma CreditWaitLoop_wp:
  assumes "waiting c l fs s"
  shows "wp (CreditWaitLoop n H D until) (\<lambda>r t. waiting c l fs t \<and> (case r of Some st \<Rightarrow> \<not> NT_SUCCESS st | None \<Rightarrow> True)) s"
  using assms
proof (induction n arbitrary: s)
  case 0
  then show ?case by (simp add: wp_rules waiting_def)
next
  case (Suc n)
  then show ?case
    by (auto simp: wp_rules link_defs waiting_def intro!: wp_any [of _ "InterruptTime H"] wp_any [of _ "world (hw_netstop H)"]
      wp_any [where m = "SdioDelayMilliseconds H ms" for ms] Poll_between [where fs = fs and l = l] Suc.IH)
qed

definition replied :: "u32 \<Rightarrow> bool \<Rightarrow> u16 \<Rightarrow> bytes \<Rightarrow> fwc \<Rightarrow> link \<Rightarrow> (u8 \<times> bytes) list \<Rightarrow> NTSTATUS \<times> bytes \<Rightarrow> fwc \<times> link \<times> 's \<Rightarrow> bool" where
  "replied command Set' rid data c l fs r t \<longleftrightarrow> waiting c l fs t \<and> length (snd r) = length data \<and>
    (if NT_SUCCESS (fst r) then answered command Set' rid data (snd r) (FirmwareReplyLength (fst t)) (fst (snd t)) else snd r = data)"

lemma ReplyFrame_wp:
  assumes w: "waiting c l fs s" and p: "polled k (st, frame) (snd s)"
  shows "wp (ReplyFrame H command Set' rid data st frame)
    (\<lambda>r t. case r of None \<Rightarrow> waiting c l fs t | Some r \<Rightarrow> replied command Set' rid data c l fs r t) s"
proof -
  have len: "length (RxBuffer (LRx (fst (snd s)))) = CYW_WIRE_CAPACITY"
    using w by (simp add: waiting_def appended_def transport_ok_def link_base_ok_def rx_base_ok_def)
  have none: "frame \<noteq> None" if "NT_SUCCESS st" using p that by (auto simp: polled_def split: option.splits)
  show ?thesis
    unfolding ReplyFrame_def wp_rules
    using w none len
    by (auto simp: wp_rules replied_def waiting_def split: option.split intro!: wp_any [where m = "SdioDelayMilliseconds H ms" for ms] TakeReply_wp)
qed

lemma ReplyLoop_wp:
  assumes "waiting c l fs s"
  shows "wp (ReplyLoop n H D until command Set' rid data) (replied command Set' rid data c l fs) s"
  using assms
proof (induction n arbitrary: s)
  case 0
  then show ?case by (simp add: wp_rules waiting_def replied_def)
next
  case (Suc n)
  have frame: "wp (ReplyFrame H command Set' rid data st frame)
      (\<lambda>r. wp (case r of None \<Rightarrow> ReplyLoop n H D until command Set' rid data | Some r \<Rightarrow> ret r) (replied command Set' rid data c l fs)) t"
    if "waiting c l fs t" "polled k (st, frame) (snd t)" for st frame k and t :: "fwc \<times> link \<times> adapter \<times> 'a"
    by (rule wp_mono [OF ReplyFrame_wp [OF that]]) (auto simp: wp_rules Suc.IH split: option.splits)
  have quit: "replied command Set' rid data c l fs (if b then STATUS_CANCELLED else STATUS_IO_TIMEOUT, data) (fst s, fst (snd s), x)" for b x
    using Suc.prems by (simp add: replied_def waiting_def)
  have go: "wp (CywPoll H D) (\<lambda>x t. case x of (st, frame) \<Rightarrow> wp (ReplyFrame H command Set' rid data st frame)
      (\<lambda>r. wp (case r of None \<Rightarrow> ReplyLoop n H D until command Set' rid data | Some r \<Rightarrow> ret r) (replied command Set' rid data c l fs))
      (fst s, t)) (fst (snd s), x)" for x
    using Suc.prems by (intro Poll_between [where fs = fs and l = l]) (auto simp: waiting_def intro!: frame)
  show ?case
    unfolding ReplyLoop.simps wp_rules link_defs
    by (intro wp_any [of _ "InterruptTime H"]) (auto simp: wp_rules wp_prod quit intro!: wp_any [of _ "world (hw_netstop H)"] go)
qed

definition commanded :: "u32 \<Rightarrow> bool \<Rightarrow> bytes \<Rightarrow> fwc \<Rightarrow> link \<Rightarrow> NTSTATUS \<times> bytes \<Rightarrow> fwc \<Rightarrow> link \<Rightarrow> bool" where
  "commanded command Set' data c l r c' l' \<longleftrightarrow> length (snd r) = length data \<and>
    (if NT_SUCCESS (fst r) then appended [(0, request command Set' (RequestId c + 1) data)] l l' \<and>
       answered command Set' (RequestId c + 1) data (snd r) (FirmwareReplyLength c') l'
     else (appended [] l l' \<or> appended [(0, request command Set' (RequestId c + 1) data)] l l') \<and> snd r = data)"

lemma appended_refl: "transport_ok l \<Longrightarrow> appended [] l l"
  by (simp add: appended_def option.map_ident)

lemma commanded_failed: "appended [] l m \<Longrightarrow> \<not> NT_SUCCESS st \<Longrightarrow> commanded command Set' data c l (st, data) c' m"
  by (simp add: commanded_def)

text \<open>The steps of a command, given that its request carries the number after the last one.\<close>

lemma ReplyLoop_commanded:
  assumes "appended [(0, request command Set' (RequestId c + 1) data)] l (fst (snd s))"
  shows "wp (ReplyLoop n H D until command Set' (RequestId c + 1) data) (\<lambda>r t. commanded command Set' data c l r (fst t) (fst (snd t))) s"
  by (rule wp_mono [OF ReplyLoop_wp [of "fst s" l "[(0, request command Set' (RequestId c + 1) data)]"]])
    (use assms in \<open>auto simp: waiting_def replied_def commanded_def split: if_splits\<close>)

lemma SendFrame_commanded:
  assumes k: "appended [] l k"
  shows "wp (CywSendFrame H 0 (request command Set' (RequestId c + 1) data))
    (\<lambda>st v. (\<not> NT_SUCCESS st \<longrightarrow> commanded command Set' data c l (st, data) a (fst v)) \<and>
      (NT_SUCCESS st \<longrightarrow> wp (ReplyLoop n H D until command Set' (RequestId c + 1) data)
        (\<lambda>r t. commanded command Set' data c l r (fst t) (fst (snd t))) (a, v))) (k, x)"
proof -
  let ?m = "request command Set' (RequestId c + 1) data"
  have "transport_ok k" using k by (simp add: appended_def)
  then have "wp (CywSendFrame H 0 ?m) (\<lambda>st t. appended (if NT_SUCCESS st then [(0, ?m)] else []) k (fst t)) (k, x)"
    using link_call_appended [of "(k, x)" H undefined "OpControl ?m"] unfolding link_call.simps op_frames.simps by simp
  then show ?thesis
    by (rule wp_mono) (drule appended_trans [OF k], auto simp: commanded_failed intro!: ReplyLoop_commanded)
qed

lemma SendRequest_commanded:
  assumes "appended [] l (fst (snd s))"
  shows "wp (SendRequest n H D command Set' (RequestId c + 1) data (request command Set' (RequestId c + 1) data))
    (\<lambda>r t. commanded command Set' data c l r (fst t) (fst (snd t))) s"
  unfolding SendRequest_def wp_rules link_defs Let_def
  by (intro wp_any [of _ "InterruptTime H"], rule wp_mono [OF CreditWaitLoop_wp [of "fst s" l "[]"]])
    (use assms in \<open>auto simp: waiting_def wp_rules commanded_failed split: option.splits intro!: SendFrame_commanded\<close>)

lemma CywFirmwareCommand_wp:
  assumes "transport_ok (fst (snd s))"
  shows "wp (CywFirmwareCommand n H D F command Set' data) (\<lambda>r t. commanded command Set' data (fst s) (fst (snd s)) r (fst t) (fst (snd t))) s"
  unfolding CywFirmwareCommand_def wp_rules BuildRequest_eq option.case
  using appended_refl [OF assms]
  by (auto simp: commanded_failed wp_rules intro!: wp_any [where m = "world (fs_alloc F k)" for k] SendRequest_commanded)

section \<open>Variables\<close>

text \<open>A variable that was read is the beginning of the answer to its own request, and the answer was long enough to hold it.\<close>

definition variable_read :: "bytes \<Rightarrow> u16 \<Rightarrow> bytes \<Rightarrow> link \<Rightarrow> bool" where
  "variable_read data rid d l \<longleftrightarrow> (\<exists>off len flags. off + 16 \<le> len \<and> len \<le> CYW_WIRE_CAPACITY \<and>
     (let m = sub_bytes (RxBuffer (LRx l)) off (len - off) in
        CywLe32 m 0 = Some 262 \<and> CywLe32 m 8 = Some flags \<and> drop_bit 16 flags = ucast rid \<and> flags AND 1 = 0 \<and>
        length data \<le> length m - 16 \<and> d = take (length data) (drop 16 m)))"

definition variable_done :: "bytes \<Rightarrow> bool \<Rightarrow> bytes \<Rightarrow> fwc \<Rightarrow> link \<Rightarrow> NTSTATUS \<times> bytes \<Rightarrow> link \<Rightarrow> bool" where
  "variable_done name Set' data c l r l' \<longleftrightarrow> (let rid = RequestId c + 1;
       frame = (0, request (if Set' then 263 else 262) Set' rid (name @ [0] @ (if Set' then data else replicate (length data) 0))) in
     length (snd r) = length data \<and>
     (if NT_SUCCESS (fst r) then appended [frame] l l' \<and> (if Set' then snd r = data else variable_read data rid (snd r) l')
      else (appended [] l l' \<or> appended [frame] l l') \<and> snd r = data))"

lemma answered_variable:
  assumes "answered 262 False rid b d n l" "length data \<le> n" "length data \<le> length b"
  shows "variable_read data rid (take (length data) d) l"
proof -
  obtain off len flags where r: "off + 16 \<le> len" "len \<le> CYW_WIRE_CAPACITY"
      "CywLe32 (sub_bytes (RxBuffer (LRx l)) off (len - off)) 0 = Some 262" "CywLe32 (sub_bytes (RxBuffer (LRx l)) off (len - off)) 8 = Some flags"
      "drop_bit 16 flags = ucast rid" "flags AND 1 = 0"
    and n: "n = min (length (sub_bytes (RxBuffer (LRx l)) off (len - off)) - 16) (length b)"
    and d: "d = take (length b) (drop 16 (sub_bytes (RxBuffer (LRx l)) off (len - off)) @ replicate (length b) 0)"
    using assms(1) by (auto simp: answered_def Let_def)
  have "length data \<le> length (sub_bytes (RxBuffer (LRx l)) off (len - off)) - 16" using n assms(2) by simp
  moreover from this have "take (length data) d = take (length data) (drop 16 (sub_bytes (RxBuffer (LRx l)) off (len - off)))"
    unfolding d using assms(3) by (simp add: min_def)
  ultimately show ?thesis unfolding variable_read_def Let_def using r by blast
qed

lemma if_both: "(b \<Longrightarrow> P) \<Longrightarrow> (\<not> b \<Longrightarrow> Q) \<Longrightarrow> if b then P else Q"
  by simp

lemma CywIovar_wp:
  assumes "transport_ok (fst (snd s))"
  shows "wp (CywIovar n H D F name Set' data) (\<lambda>r t. variable_done name Set' data (fst s) (fst (snd s)) r (fst (snd t))) s"
proof -
  let ?b = "name @ [0] @ (if Set' then data else replicate (length data) 0)"
  let ?c = "if Set' then 263 else 262 :: u32"
  have refl: "appended [] (fst (snd s)) (fst (snd s))" using assms by (rule appended_refl)
  have cmd: "wp (CywFirmwareCommand n H D F ?c Set' ?b) (\<lambda>r t. commanded ?c Set' ?b (fst s) (fst (snd s)) r (fst t) (fst (snd t)))
      (fst s, fst (snd s), x)" for x
    using CywFirmwareCommand_wp [of "(fst s, fst (snd s), x)"] assms by simp
  have post: "wp (IovarDone Set' data r) (\<lambda>r t. variable_done name Set' data (fst s) (fst (snd s)) r (fst (snd t))) t"
    if "commanded ?c Set' ?b (fst s) (fst (snd s)) r (fst t) (fst (snd t))" for r t
    using that unfolding IovarDone_def
    by (cases Set') (auto simp: wp_rules variable_done_def commanded_def Let_def intro: answered_variable split: if_splits)
  have go: "wp (CywFirmwareCommand n H D F ?c Set' ?b) (\<lambda>r. wp (IovarDone Set' data r)
      (\<lambda>r t. variable_done name Set' data (fst s) (fst (snd s)) r (fst (snd t)))) (fst s, fst (snd s), x)" for x
    by (rule wp_mono [OF cmd post])
  have fail: "\<not> NT_SUCCESS st \<Longrightarrow> variable_done name Set' data (fst s) (fst (snd s)) (st, data) (fst (snd s))" for st
    using refl by (simp add: variable_done_def Let_def)
  show ?thesis
    unfolding CywIovar_def wp_rules
    by (auto split: prod.split intro!: if_both fail go split del: if_split)
qed

section \<open>The world behind the link\<close>

locale world_frame = chip_frame R H for R :: "adapter \<times> 'w \<Rightarrow> adapter \<times> 'w \<Rightarrow> bool" and H :: "'w hw" +
  fixes D :: "'w ndis"
  assumes mdl [keeps_intros]: "keeps R (world (nd_mdl D))"
    and nbl [keeps_intros]: "keeps R (world (nd_nbl D))"
    and indicate [keeps_intros]: "keeps R (act (nd_indicate D p))"

sublocale world_frame \<subseteq> lnk: frame_relation "\<lambda>s t. R (snd s) (snd t)"
  by unfold_locales (auto intro: frame_refl frame_trans)

context world_frame
begin

lemma link_bus [keeps_intros]: "keeps R m \<Longrightarrow> keeps (\<lambda>s t. R (snd s) (snd t)) (bus m)"
  by (simp add: keeps_def bus_def split: prod.split) (metis snd_conv)

lemma link_lasks [keeps_intros]: "keeps (\<lambda>s t. R (snd s) (snd t)) (lasks f)"
  by (simp add: keeps_def lasks_def frame_refl split: prod.split)

lemma link_lmod [keeps_intros]: "keeps (\<lambda>s t. R (snd s) (snd t)) (lmod f)"
  by (simp add: keeps_def lmod_def frame_refl split: prod.split)

lemma link_checked [keeps_intros]:
  "(\<And>x. keeps (\<lambda>s t. R (snd s) (snd t)) (k x)) \<Longrightarrow> keeps (\<lambda>s t. R (snd s) (snd t)) (checked d r k)"
  unfolding checked_def by (intro keeps_intros)

lemma link_updates [keeps_intros]:
  "keeps (\<lambda>s t. R (snd s) (snd t)) (flowS f)" "keeps (\<lambda>s t. R (snd s) (snd t)) (seqS g)" "keeps (\<lambda>s t. R (snd s) (snd t)) (svcS h)"
  "keeps (\<lambda>s t. R (snd s) (snd t)) (rxS i)" "keeps (\<lambda>s t. R (snd s) (snd t)) (txS j)" "keeps (\<lambda>s t. R (snd s) (snd t)) (diagS k)"
  "keeps (\<lambda>s t. R (snd s) (snd t)) (linkTime H)" "keeps (\<lambda>s t. R (snd s) (snd t)) (netStop H)"
  unfolding link_defs by (intro keeps_intros)+

lemma ServiceFailed_keeps [keeps_intros]: "keeps (\<lambda>s t. R (snd s) (snd t)) (ServiceFailed H st)"
  unfolding ServiceFailed_def by (intro keeps_intros)

lemma Core_keeps [keeps_intros]:
  "(\<And>v. keeps (\<lambda>s t. R (snd s) (snd t)) (k v)) \<Longrightarrow> keeps (\<lambda>s t. R (snd s) (snd t)) (readCore H offset k)"
  "keeps (\<lambda>s t. R (snd s) (snd t)) m \<Longrightarrow> keeps (\<lambda>s t. R (snd s) (snd t)) (writeCore H offset v m)"
  unfolding readCore_def writeCore_def CoreRegister_def by (intro keeps_intros; assumption)+

lemma Service_keeps [keeps_intros]: "keeps (\<lambda>s t. R (snd s) (snd t)) (CywTransportService H probePending)"
  unfolding CywTransportService_def ServiceStatus_def ServiceFlowChange_def ServiceEvents_def ServiceMail_def StatusObserved_def Let_def
  by (intro keeps_intros)

lemma Deliver_keeps [keeps_intros]: "keeps (\<lambda>s t. R (snd s) (snd t)) (Deliver H D channel off len)"
  unfolding Deliver_def DeliverEvent_def CywReceive_def Indicate_def by (intro keeps_intros)

lemma PollFailed_keeps [keeps_intros]: "keeps (\<lambda>s t. R (snd s) (snd t)) (PollFailed H st)"
  unfolding PollFailed_def by (intro keeps_intros keeps_fifo) simp

lemma readFifo_keeps [keeps_intros]:
  "keeps (\<lambda>s t. R (snd s) (snd t)) k \<Longrightarrow> keeps (\<lambda>s t. R (snd s) (snd t)) (readFifo H at n k)"
  unfolding readFifo_def by (intro keeps_intros)

lemma Poll_keeps [keeps_intros]: "keeps (\<lambda>s t. R (snd s) (snd t)) (CywPoll H D)"
  unfolding CywPoll_def PollSuperframe_def PollChild_def PollFrame_def PollHeader_def PollDispatch_def PollChannel_def PollDescriptor_def
    PollData_def HeaderCredits_def Let_def
  by (intro keeps_intros)

lemma Send_keeps [keeps_intros]: "keeps (\<lambda>s t. R (snd s) (snd t)) (CywSendFrame H channel data)"
  unfolding CywSendFrame_def CywSendFrameCore_def SendGate_def ServiceF1_def SendAdmitted_def SendFrame_def SendDone_def TransferF2_def
    StageDuration_def CYW_TXD_CLOCK_def Let_def
  by (intro keeps_intros)

end


section \<open>A command ends\<close>

text \<open>
  \<open>clock_runs\<close>: behind the interrupt time is a finer clock that nothing turns back and that each look at the time moves on; the time
  reported is that clock in units of \<open>K\<close>, up to the largest 64-bit value.
\<close>

definition clock_runs :: "'w hw \<Rightarrow> 'w ndis \<Rightarrow> ('w \<Rightarrow> nat) \<Rightarrow> nat \<Rightarrow> bool" where
  "clock_runs H D clock K \<longleftrightarrow>
     (\<forall>w off. clock w \<le> clock (snd (hw_read8 H off w)) \<and> clock w \<le> clock (snd (hw_read16 H off w)) \<and> clock w \<le> clock (snd (hw_read32 H off w))) \<and>
     (\<forall>w off v. clock w \<le> clock (hw_write8 H off v w)) \<and> (\<forall>w off v. clock w \<le> clock (hw_write16 H off v w)) \<and>
     (\<forall>w off v. clock w \<le> clock (hw_write32 H off v w)) \<and> (\<forall>w us. clock w \<le> clock (hw_delay H us w)) \<and>
     (\<forall>w. clock w \<le> clock (snd (hw_qpc H w)) \<and> clock w \<le> clock (snd (hw_stopped H w)) \<and> clock w \<le> clock (snd (hw_netstop H w)) \<and>
       clock w \<le> clock (snd (nd_mdl D w)) \<and> clock w \<le> clock (snd (nd_nbl D w))) \<and>
     (\<forall>w p. clock w \<le> clock (nd_indicate D p w)) \<and>
     (\<forall>w. clock w < clock (snd (hw_time H w)) \<and> min (clock w div K) (2 ^ 64 - 1) \<le> unat (fst (hw_time H w)))"

definition clock_le :: "'w hw \<Rightarrow> 'w ndis \<Rightarrow> ('w \<Rightarrow> nat) \<Rightarrow> nat \<Rightarrow> 'a \<times> 'w \<Rightarrow> 'a \<times> 'w \<Rightarrow> bool" where
  "clock_le H D clock K s t \<longleftrightarrow> (clock_runs H D clock K \<longrightarrow> clock (snd s) \<le> clock (snd t))"

interpretation clock_rel: frame_relation "clock_le H D clock K" for H D clock K
  by unfold_locales (auto simp: clock_le_def)

lemma clock_world:
  "(\<And>w. clock_runs H D clock K \<Longrightarrow> clock w \<le> clock (snd (f w))) \<Longrightarrow> keeps (clock_le H D clock K) (world f)"
  by (simp add: keeps_def world_def clock_le_def split: prod.split) (metis snd_conv)

lemma clock_act:
  "(\<And>w. clock_runs H D clock K \<Longrightarrow> clock w \<le> clock (f w)) \<Longrightarrow> keeps (clock_le H D clock K) (act f)"
  by (simp add: keeps_def act_def clock_le_def split: prod.split)

lemma clock_stopped: "keeps (clock_le H D clock K) (IoStopped H)"
  unfolding IoStopped_def by (rule clock_world) (simp add: clock_runs_def)

lemma clock_registers:
  "keeps (clock_le H D clock K) (SdioRead8 H off)" "keeps (clock_le H D clock K) (SdioRead16 H off)" "keeps (clock_le H D clock K) (SdioRead32 H off)"
  "keeps (clock_le H D clock K) (SdioWrite8 H off v8)" "keeps (clock_le H D clock K) (SdioWrite16 H off v16)" "keeps (clock_le H D clock K) (SdioWrite32 H off v32)"
  unfolding SdioRead8_def SdioRead16_def SdioRead32_def SdioWrite8_def SdioWrite16_def SdioWrite32_def
  by (intro clock_rel.keeps_bind clock_stopped keeps_if clock_rel.keeps_return clock_world clock_act; simp add: clock_runs_def)+

lemma clock_clocks:
  "keeps (clock_le H D clock K) (InterruptTime H)" "keeps (clock_le H D clock K) (world (hw_qpc H))" "keeps (clock_le H D clock K) (act (hw_delay H us))"
  "keeps (clock_le H D clock K) (world (hw_netstop H))" "keeps (clock_le H D clock K) (world (nd_mdl D))" "keeps (clock_le H D clock K) (world (nd_nbl D))"
  "keeps (clock_le H D clock K) (act (nd_indicate D p))"
  unfolding InterruptTime_def by (intro clock_world clock_act; simp add: clock_runs_def less_imp_le)+

interpretation clocked: world_frame "clock_le H D clock K" H D for H D clock K
  by unfold_locales (rule clock_registers clock_stopped clock_clocks | simp add: clock_le_def)+

lemma clock_poll:
  assumes "clock_runs H D clock K" "\<And>r t. clock (snd (snd s)) \<le> clock (snd (snd t)) \<Longrightarrow> Q r t"
  shows "wp (CywPoll H D) Q s"
  by (rule wp_mono [OF wp_keeps [OF clocked.Poll_keeps [of H D clock K]]]) (use assms in \<open>simp add: clock_le_def\<close>)

lemma clock_bus:
  assumes "clock_runs H D clock K" "keeps (clock_le H D clock K) m" "\<And>r t. clock (snd s) \<le> clock (snd t) \<Longrightarrow> Q r t"
  shows "wp m Q s"
  by (rule wp_mono [OF wp_keeps [OF assms(2)]]) (use assms in \<open>simp add: clock_le_def\<close>)


text \<open>A look at the time that is still before the deadline has used up some of it.\<close>

lemma clock_look:
  assumes "clock_runs H D clock K" "0 < K" "fuel \<noteq> 0" "K * unat until < clock (snd s) + fuel"
    and "\<And>now t. until \<le> now \<Longrightarrow> clock (snd s) \<le> clock (snd t) \<Longrightarrow> Q now t"
    and "\<And>now t m. now < until \<Longrightarrow> fuel = Suc m \<Longrightarrow> m \<noteq> 0 \<Longrightarrow> K * unat until < clock (snd t) + m \<Longrightarrow> Q now t"
  shows "wp (InterruptTime H) Q s"
proof -
  obtain now w where r: "hw_time H (snd s) = (now, w)" by (cases "hw_time H (snd s)")
  have c: "clock (snd s) < clock w" "min (clock (snd s) div K) (2 ^ 64 - 1) \<le> unat now"
    using assms(1) r unfolding clock_runs_def by (metis fst_conv snd_conv)+
  have "Q now (fst s, w)"
  proof (cases "until \<le> now")
    case True
    then show ?thesis using assms(5) c by simp
  next
    case False
    then have u: "unat now < unat until" by (simp add: not_le word_less_nat_alt)
    moreover have "unat until < 2 ^ 64" using unsigned_less [of until] by simp
    ultimately have "clock (snd s) div K < unat until" using c(2) by linarith
    then have "clock (snd s) < K * unat until" using assms(2) by (simp add: div_less_iff_less_mult mult.commute)
    with assms(3,4) obtain m where "fuel = Suc m" "m \<noteq> 0" by (cases fuel) auto
    then show ?thesis using assms(4,6) c False by simp
  qed
  then show ?thesis using r by (cases s) (simp add: InterruptTime_def wp_rules)
qed


lemma clock_netstop: "clock_runs H D clock K \<Longrightarrow> hw_netstop H b = (x, w) \<Longrightarrow> clock b \<le> clock w"
  unfolding clock_runs_def by (metis snd_conv)

lemma CreditWaitLoop_ends:
  assumes "clock_runs H D clock K" "0 < K" "n \<noteq> 0" "K * unat until < clock (snd (snd (snd s))) + n"
  shows "wp (CreditWaitLoop n H D until) (\<lambda>r t. FcHung (fst t) = FcHung (fst s)) s"
  using assms(3-4)
proof (induction n arbitrary: s)
  case (Suc n)
  have loop: "wp (CreditWaitLoop n H D until) (\<lambda>r t. FcHung (fst t) = FcHung (fst s)) (fst s, l, a, w)"
    if "n \<noteq> 0" "K * unat until < clock w + n" for l a w
    using Suc.IH [of "(fst s, l, a, w)"] that by simp
  have poll: "wp (CywPoll H D) (\<lambda>x t. wp (case x of (st, _) \<Rightarrow>
        if \<not> NT_SUCCESS st \<and> st \<noteq> STATUS_NO_MORE_ENTRIES then ret (Some st)
        else do { via (bus (SdioDelayMilliseconds H 1)); CreditWaitLoop n H D until }) (\<lambda>r t. FcHung (fst t) = FcHung (fst s)) (fst s, t)) (l, a, w)"
    if "n \<noteq> 0" "K * unat until < clock w + n" for l a w
    using that by (intro clock_poll [OF assms(1)])
      (auto simp: wp_rules intro!: clock_bus [OF assms(1) clocked.Delay_keeps] loop)
  show ?case
    unfolding CreditWaitLoop.simps wp_rules link_defs
    using Suc.prems poll
    by (auto simp: wp_rules intro!: clock_look [OF assms(1,2), where fuel = "Suc n"] dest!: clock_netstop [OF assms(1)])
qed simp

lemma ReplyFrame_ends: "wp (ReplyFrame H command Set' rid data st frame) (\<lambda>r t. FcHung (fst t) = FcHung (fst s) \<and>
    (clock_runs H D clock K \<longrightarrow> clock (snd (snd (snd s))) \<le> clock (snd (snd (snd t))))) s"
proof -
  have "wp (SdioDelayMilliseconds H 2) (\<lambda>x t. clock_runs H D clock K \<longrightarrow> clock (snd (snd (snd s))) \<le> clock (snd t)) (snd (snd s))"
    by (rule wp_mono [OF wp_keeps [OF clocked.Delay_keeps [of H D clock K]]]) (simp add: clock_le_def)
  then show ?thesis
    unfolding ReplyFrame_def TakeReply_def wp_rules by (auto simp: wp_rules wp_prod split: option.split prod.split)
qed

lemma ReplyLoop_ends:
  assumes "clock_runs H D clock K" "0 < K" "n \<noteq> 0" "K * unat until < clock (snd (snd (snd s))) + n"
  shows "wp (ReplyLoop n H D until command Set' rid data) (\<lambda>r t. FcHung (fst t) = FcHung (fst s)) s"
  using assms(3-4)
proof (induction n arbitrary: s)
  case (Suc n)
  have poll: "wp (CywPoll H D) (\<lambda>x t. wp (case x of (st, frame) \<Rightarrow> do {
        r \<leftarrow> ReplyFrame H command Set' rid data st frame;
        case r of None \<Rightarrow> ReplyLoop n H D until command Set' rid data | Some r \<Rightarrow> ret r })
      (\<lambda>r t. FcHung (fst t) = FcHung (fst s)) (fst s, t)) (l, a, w)"
    if "n \<noteq> 0" "K * unat until < clock w + n" for l a w
  proof -
    have "wp (ReplyFrame H command Set' rid data st frame) (\<lambda>r. wp (case r of None \<Rightarrow> ReplyLoop n H D until command Set' rid data | Some r \<Rightarrow> ret r)
        (\<lambda>r t. FcHung (fst t) = FcHung (fst s))) (fst s, t)" if "clock w \<le> clock (snd (snd t))" for st frame t
    proof (rule wp_mono [OF ReplyFrame_ends [where clock = clock and D = D and K = K]])
      fix r and u :: "fwc \<times> link \<times> adapter \<times> 'a"
      assume u: "FcHung (fst u) = FcHung (fst (fst s, t)) \<and> (clock_runs H D clock K \<longrightarrow> clock (snd (snd (snd (fst s, t)))) \<le> clock (snd (snd (snd u))))"
      have "wp (ReplyLoop n H D until command Set' rid data) (\<lambda>r t. FcHung (fst t) = FcHung (fst u)) u"
        by (rule Suc.IH) (use u that \<open>n \<noteq> 0\<close> \<open>K * unat until < clock w + n\<close> assms(1) in auto)
      with u show "wp (case r of None \<Rightarrow> ReplyLoop n H D until command Set' rid data | Some r \<Rightarrow> ret r) (\<lambda>r t. FcHung (fst t) = FcHung (fst s)) u"
        by (cases r) (auto simp: wp_rules)
    qed
    then show ?thesis
      by (intro clock_poll [OF assms(1)]) (auto simp: wp_rules wp_prod)
  qed
  show ?case
    unfolding ReplyLoop.simps wp_rules link_defs
    using Suc.prems poll
    by (auto simp: wp_rules intro!: clock_look [OF assms(1,2), where fuel = "Suc n"] dest!: clock_netstop [OF assms(1)])
qed simp


text \<open>With fuel for every look at the clock that 64 bits can tell apart, neither loop runs out.\<close>

lemma CywFirmwareCommand_ends:
  assumes "clock_runs H D clock K" "0 < K" "K * 2 ^ 64 \<le> n"
  shows "wp (CywFirmwareCommand n H D F command Set' data) (\<lambda>r t. FcHung (fst t) = FcHung (fst s)) s"
proof -
  have n: "n \<noteq> 0" using assms(2,3) by (cases n) auto
  have fuel: "K * unat until < c + n" for until :: u64 and c
  proof -
    have "unat until < 2 ^ 64" using unsigned_less [of until] by simp
    then have "K * unat until < K * 2 ^ 64" using assms(2) by simp
    then show ?thesis using assms(3) by linarith
  qed
  have reply: "wp (ReplyLoop n H D until command Set' rid data) (\<lambda>r t. FcHung (fst t) = h) t" if "FcHung (fst t) = h" for until rid h t
    using ReplyLoop_ends [OF assms(1,2) n fuel, where s = t] that by simp
  have send: "wp (SendRequest n H D command Set' rid data m) (\<lambda>r t. FcHung (fst t) = h) t" if "FcHung (fst t) = h" for rid m h t
    unfolding SendRequest_def wp_rules link_defs Let_def
    by (intro wp_any [of _ "InterruptTime H"], rule wp_mono [OF CreditWaitLoop_ends [OF assms(1,2) n fuel]])
      (use that in \<open>auto simp: wp_rules split: option.split intro!: wp_any [where m = "CywSendFrame H 0 m"] reply\<close>)
  show ?thesis
    unfolding CywFirmwareCommand_def wp_rules BuildRequest_eq option.case by (auto split: prod.split intro!: send)
qed

lemma CywIovar_ends:
  assumes "clock_runs H D clock K" "0 < K" "K * 2 ^ 64 \<le> n"
  shows "wp (CywIovar n H D F name Set' data) (\<lambda>r t. FcHung (fst t) = FcHung (fst s)) s"
proof -
  have cmd: "wp (CywFirmwareCommand n H D F command Set' b) (\<lambda>r. wp (IovarDone Set' data r) (\<lambda>r t. FcHung (fst t) = h)) t"
    if "FcHung (fst t) = h" for command b h t
    by (rule wp_mono [OF CywFirmwareCommand_ends [OF assms]]) (use that in \<open>auto simp: IovarDone_def wp_rules\<close>)
  show ?thesis
    unfolding CywIovar_def wp_rules by (auto split: prod.split intro!: if_both cmd split del: if_split)
qed

section \<open>Commands are answered\<close>

definition zero_conn :: conn where
  "zero_conn = \<lparr>TxGlomRequested = False, TxGlomConfigStatus = 0, MacReadbackStatus = 0, MacReadbackMatches = False,
     JoinPreferenceAccepted = False, JoinPreferenceError = 0, JoinPreferenceStatus = 0, ConnectStep = 0, CountryRequested = 0,
     CountryApplied = 0, CountryRevision = 0, CountryBefore = 0, CountryBeforeRevision = 0, CountrySetMode = 0,
     CountryExplicitError = 0, ClmLoadStatus = 0, ClmQueryStatus = 0, CountryListStatus = 0, CountryListError = 0,
     CountryListCount = 0, CountryListMembership = 0, CountryListReplyLength = 0, BandSelection = replicate 16 0\<rparr>"

definition zero_fwc :: fwc where
  "zero_fwc = \<lparr>RequestId = 0, FirmwareReplyDeclaredLength = 0, FirmwareReplyPayloadLength = 0, FirmwareRequestCapacity = 0,
     FirmwareValueLength = 0, FirmwareCommandCode = 0, FirmwareError = 0, FirmwareReplyLength = 0, FcHung = False, FcConn = zero_conn\<rparr>"

text \<open>A controller that never answers but whose clock runs; the world counts the looks at it.\<close>

definition ticking_hw :: "nat hw" where
  "ticking_hw = \<lparr>hw_read8 = \<lambda>_ n. (0, n), hw_read16 = \<lambda>_ n. (0, n), hw_read32 = \<lambda>_ n. (0, n), hw_write8 = \<lambda>_ _ n. n,
     hw_write16 = \<lambda>_ _ n. n, hw_write32 = \<lambda>_ _ n. n, hw_time = \<lambda>n. (word_of_nat (min n (2 ^ 64 - 1)), n + 1), hw_qpc = \<lambda>n. (0, n),
     hw_delay = \<lambda>_ n. n, hw_stopped = \<lambda>n. (False, n), hw_netstop = \<lambda>n. (False, n)\<rparr>"

definition ticking_ndis :: "nat ndis" where
  "ticking_ndis = \<lparr>nd_mdl = \<lambda>n. (True, n), nd_nbl = \<lambda>n. (True, n), nd_indicate = \<lambda>_ n. n\<rparr>"

definition ticking_files :: "nat files" where
  "ticking_files = \<lparr>fs_open = \<lambda>_ n. (STATUS_UNSUCCESSFUL, n), fs_query = \<lambda>_ n. ((STATUS_UNSUCCESSFUL, 0), n),
     fs_alloc = \<lambda>_ n. (True, n), fs_read = \<lambda>_ _ n. ((STATUS_UNSUCCESSFUL, []), n)\<rparr>"

lemma ticking_clock: "clock_runs ticking_hw ticking_ndis (\<lambda>n. n) 1"
  by (simp add: clock_runs_def ticking_hw_def ticking_ndis_def unat_of_nat)



text \<open>
  C5 (liveness). A command comes back.  Whatever the firmware sends or withholds, however often it answers with
  frames of other channels or with replies to other requests, both waiting loops of \<open>CywFirmwareCommand\<close> end, as long as the
  clock runs: nothing turns it back and looking at it moves it on, if only by a \<open>K\<close>th of what it can show.
\<close>

theorem CywFirmwareCommand_returns:
  assumes "clock_runs H D clock K" "0 < K" "K * 2 ^ 64 \<le> n" "\<not> FcHung c"
  shows "\<not> FcHung (fst (snd (run_state (CywFirmwareCommand n H D F command Set' data) (c, s))))"
  using CywFirmwareCommand_ends [OF assms(1-3), of F command Set' data "(c, s)"] assms(4) by (simp add: wp_def split: prod.splits)

theorem CywFirmwareCommand_returns_witness:
  "\<not> FcHung (fst (snd (run_state (CywFirmwareCommand (2 ^ 64) ticking_hw ticking_ndis ticking_files 262 False [118, 0])
     (zero_fwc, sample_link, zero_adapter, 0))))"
  by (rule CywFirmwareCommand_returns [OF ticking_clock]) (simp_all add: zero_fwc_def)

end
