(* ===== verification/Radio_Band.thy ===== *)
theory Radio_Band
  imports Wire_Protocol
begin

text \<open>
  The station report of the firmware (\<open>cyw43455/radio_protocol.h\<close>) and the startup policy for the 5 GHz
  band (\<open>cyw43455/band_policy.h\<close>).

  The report is an array of 64 words of which the parser writes some.  As in the other decoders,
  \<open>None\<close> is a read outside of the received bytes or a write outside of the report.
\<close>

abbreviation (input) "CYW_RADIO_REPORT_WORDS \<equiv> (64 :: nat)"
abbreviation (input) "CYW_RADIO_STA_VALID \<equiv> (16 :: u32)"
abbreviation (input) "CYW_RADIO_STA_STATS_VALID \<equiv> (32 :: u32)"
abbreviation (input) "CYW_RADIO_STA_RETRIES_VALID \<equiv> (64 :: u32)"
abbreviation (input) "CYW_RADIO_STA_TXRATE_VALID \<equiv> (128 :: u32)"
abbreviation (input) "CYW_RADIO_STA_RXRATE_VALID \<equiv> (256 :: u32)"
abbreviation (input) "CYW_BAND_MIN_5GHZ_RSSI \<equiv> (-70 :: int)"

definition CywRadioLe32 :: "bytes \<Rightarrow> nat \<Rightarrow> u32 option" where
  "CywRadioLe32 p i = do {
     a \<leftarrow> rd8 p i; b \<leftarrow> rd8 p (i + 1); c \<leftarrow> rd8 p (i + 2); d \<leftarrow> rd8 p (i + 3); Some (le32 a b c d) }"

definition CywRadioLe16 :: "bytes \<Rightarrow> nat \<Rightarrow> u32 option" where
  "CywRadioLe16 p i = do { a \<leftarrow> rd8 p i; b \<leftarrow> rd8 p (i + 1); Some (ucast (le16 a b)) }"

definition CywRadioMacValid :: "bytes \<Rightarrow> bool option" where
  "CywRadioMacValid p = do {
     a \<leftarrow> rd8 p 0;
     if a AND 1 \<noteq> 0 then Some False
     else do { m \<leftarrow> rdn p 0 6; Some (foldl (OR) 0 m \<noteq> 0) } }"

definition wrw :: "u32 list \<Rightarrow> nat \<Rightarrow> u32 \<Rightarrow> u32 list option" where
  "wrw r i v = (if i < length r then Some (r[i := v]) else None)"

definition rdw :: "u32 list \<Rightarrow> nat \<Rightarrow> u32 option" where
  "rdw r i = (if i < length r then Some (r ! i) else None)"

text \<open>\<open>r[20] |= bits\<close> and the copy of a field of the reply into a word of the report.\<close>

definition RadioMark :: "u32 list \<Rightarrow> u32 \<Rightarrow> u32 list option" where
  "RadioMark r bits = do { m \<leftarrow> rdw r 20; wrw r 20 (m OR bits) }"

definition RadioCopy :: "bytes \<Rightarrow> u32 list \<Rightarrow> nat \<Rightarrow> nat \<Rightarrow> u32 list option" where
  "RadioCopy p r i off = do { v \<leftarrow> CywRadioLe32 p off; wrw r i v }"

fun RadioCopyAll :: "bytes \<Rightarrow> u32 list \<Rightarrow> (nat \<times> nat) list \<Rightarrow> u32 list option" where
  "RadioCopyAll p r [] = Some r"
| "RadioCopyAll p r ((i, off) # xs) = do { r \<leftarrow> RadioCopy p r i off; RadioCopyAll p r xs }"

text \<open>The body of the loop over the transmit and receive rates.\<close>

definition RadioRate :: "bytes \<Rightarrow> u32 \<Rightarrow> nat \<Rightarrow> u32 list \<Rightarrow> u32 list option" where
  "RadioRate p version i r = do {
     rate \<leftarrow> CywRadioLe32 p (68 + 4 * i);
     havePackets \<leftarrow>
       (if i \<noteq> 0 then do { a \<leftarrow> rdw r 48; b \<leftarrow> rdw r 49; Some (a \<noteq> 0 \<or> b \<noteq> 0) }
        else do {
          a \<leftarrow> rdw r 46;
          if a \<noteq> 0 then Some True
          else if version \<ge> 4 then do { w \<leftarrow> CywRadioLe32 p 92; Some (w \<noteq> 0) }
          else Some False });
     if havePackets \<and> rate \<noteq> 0 \<and> rate \<le> 10000000
     then do { r \<leftarrow> wrw r (44 + i) rate;
               RadioMark r (if i \<noteq> 0 then CYW_RADIO_STA_RXRATE_VALID else CYW_RADIO_STA_TXRATE_VALID) }
     else Some r }"

definition RadioStationFields :: "bytes \<Rightarrow> u32 \<Rightarrow> u32 list \<Rightarrow> u32 list option" where
  "RadioStationFields p version r = do {
     r \<leftarrow> RadioCopyAll p r [(46, 52), (47, 56), (48, 60), (49, 64), (50, 80)];
     r \<leftarrow> RadioMark r CYW_RADIO_STA_STATS_VALID;
     r \<leftarrow> RadioRate p version 0 r;
     r \<leftarrow> RadioRate p version 1 r;
     if version \<ge> 4
     then do {
       r \<leftarrow> RadioCopyAll p r ([(51, 160), (52, 164)] @ map (\<lambda>i. (53 + i, 172 + 4 * i)) [0..<7]);
       RadioMark r CYW_RADIO_STA_RETRIES_VALID }
     else Some r }"

definition radio_minimum :: "u32 \<Rightarrow> u32" where
  "radio_minimum version = (if version = 3 then 84 else if version = 4 then 200 else if version = 5 then 252 else 296)"

definition radio_known_version :: "u32 \<Rightarrow> bool" where
  "radio_known_version version \<longleftrightarrow> \<not> (version \<noteq> 3 \<and> version \<noteq> 4 \<and> version \<noteq> 5 \<and> version \<noteq> 7)"

definition CywRadioParseStation :: "bytes \<Rightarrow> nat \<Rightarrow> bytes \<Rightarrow> u32 list \<Rightarrow> (bool \<times> u32 list) option" where
  "CywRadioParseStation p available bssid r =
    (if available < 4 then Some (False, r) else do {
       version \<leftarrow> CywRadioLe16 p 0;
       length' \<leftarrow> CywRadioLe16 p 2;
       if \<not> radio_known_version version then Some (False, r)
       else if length' < radio_minimum version \<or> unat length' > available \<or> available > 521 then Some (False, r)
       else do {
         ok \<leftarrow> CywRadioMacValid bssid;
         if \<not> ok then Some (False, r) else do {
         ea \<leftarrow> rdn p 16 6;
         mac \<leftarrow> rdn bssid 0 6;
         if ea \<noteq> mac then Some (False, r) else do {
         rates \<leftarrow> CywRadioLe32 p 24;
         if rates > 16 then Some (False, r) else do {
         flags \<leftarrow> CywRadioLe32 p 8;
         r \<leftarrow> wrw r 41 version;
         r \<leftarrow> wrw r 42 length';
         r \<leftarrow> wrw r 43 flags;
         r \<leftarrow> RadioMark r CYW_RADIO_STA_VALID;
         if flags AND 0x4000 = 0 then Some (True, r)
         else do { r \<leftarrow> RadioStationFields p version r; Some (True, r) } }}}}})"

section \<open>Band policy\<close>

definition CywBuildJoinPreference :: "bool \<Rightarrow> bytes \<times> nat" where
  "CywBuildJoinPreference prefer5 =
    (if prefer5 then ([3, 2, 0, 1, 1, 2, 0, 0], 8) else ([1, 2, 0, 0, 0, 0, 0, 0], 4))"

definition CywBandMacValid :: "bytes \<Rightarrow> bool option" where
  "CywBandMacValid p = do {
     a \<leftarrow> rd8 p 0;
     if a AND 1 \<noteq> 0 then Some False
     else do { m \<leftarrow> rdn p 0 6; Some (foldl (OR) 0 m \<noteq> 0) } }"

definition CywBandReadback :: "bytes \<Rightarrow> nat \<Rightarrow> bytes \<Rightarrow> nat \<Rightarrow> bytes \<Rightarrow> nat \<Rightarrow> bytes \<Rightarrow> nat \<Rightarrow>
    (u32 \<times> u32 \<times> u32 \<times> u32) option option" where
  "CywBandReadback channel channelLength rssi rssiLength before beforeLength after afterLength =
    (if channelLength \<noteq> 12 \<or> rssiLength \<noteq> 12 \<or> beforeLength \<noteq> 6 \<or> afterLength \<noteq> 6 then Some None else do {
       v1 \<leftarrow> CywBandMacValid before;
       if \<not> v1 then Some None else do {
       v2 \<leftarrow> CywBandMacValid after;
       if \<not> v2 then Some None else do {
       m1 \<leftarrow> rdn before 0 6;
       m2 \<leftarrow> rdn after 0 6;
       if m1 \<noteq> m2 then Some None else do {
       c \<leftarrow> CywLe32 channel 0;
       d \<leftarrow> CywLe32 rssi 0;
       c1 \<leftarrow> CywLe32 channel 4;
       c2 \<leftarrow> CywLe32 channel 8;
       if c = 0 \<or> c > 196 \<or> (c > 14 \<and> c < 32) \<or> c1 \<noteq> c \<or> c2 \<noteq> 0 \<or> sint d \<ge> 0 \<or> sint d < -127
       then Some None
       else do {
         lo \<leftarrow> CywLe32 before 0;
         hi \<leftarrow> CywLe16 before 4;
         Some (Some (c, d, lo, ucast hi)) } }}}})"

definition CywBandCandidateUsable :: "u32 \<Rightarrow> u32 \<Rightarrow> bool" where
  "CywBandCandidateUsable channel rssi \<longleftrightarrow> channel \<le> 14 \<or> sint rssi \<ge> CYW_BAND_MIN_5GHZ_RSSI"

definition CywBandStationAuthorized :: "bytes \<Rightarrow> nat \<Rightarrow> bytes \<Rightarrow> bool option" where
  "CywBandStationAuthorized data n bssid = do {
     (ok, report) \<leftarrow> CywRadioParseStation data n bssid (replicate CYW_RADIO_REPORT_WORDS 0);
     if \<not> ok then Some False else do { w \<leftarrow> rdw report 43; Some (w AND 0x30 = 0x30) } }"

section \<open>What the parser writes\<close>

text \<open>The words of the extension: the mask and the station words.\<close>

definition radio_frame :: "u32 list \<Rightarrow> u32 list \<Rightarrow> bool" where
  "radio_frame r r' \<longleftrightarrow> length r = 64 \<and> length r' = 64 \<and>
     (\<forall>i < 64. i \<noteq> 20 \<and> (i < 41 \<or> 59 < i) \<longrightarrow> r' ! i = r ! i)"

lemma radio_frame_refl: "length r = 64 \<Longrightarrow> radio_frame r r"
  by (simp add: radio_frame_def)

lemma radio_frame_trans: "radio_frame r r' \<Longrightarrow> radio_frame r' r'' \<Longrightarrow> radio_frame r r''"
  by (simp add: radio_frame_def)

lemma CywRadioLe32_safe: "i + 3 < length p \<Longrightarrow> \<exists>v. CywRadioLe32 p i = Some v"
  by (simp add: CywRadioLe32_def wire_simps)

lemma CywRadioLe16_safe: "i + 1 < length p \<Longrightarrow> \<exists>v. CywRadioLe16 p i = Some v"
  by (simp add: CywRadioLe16_def wire_simps)

lemma wrw_frame:
  assumes "length r = 64" "i = 20 \<or> 41 \<le> i" "i \<le> 59"
  shows "\<exists>r'. wrw r i v = Some r' \<and> radio_frame r r'"
  using assms by (auto simp: wrw_def radio_frame_def nth_list_update)

lemma RadioMark_frame: "length r = 64 \<Longrightarrow> \<exists>r'. RadioMark r v = Some r' \<and> radio_frame r r'"
  using wrw_frame [of r 20] by (simp add: RadioMark_def rdw_def)

lemma RadioCopy_frame:
  assumes "length r = 64" "41 \<le> i" "i \<le> 59" "off + 3 < length p"
  shows "\<exists>r'. RadioCopy p r i off = Some r' \<and> radio_frame r r'"
  using CywRadioLe32_safe [OF assms(4)] wrw_frame [of r i] assms by (auto simp: RadioCopy_def)

lemma RadioCopyAll_frame:
  assumes "length r = 64" "list_all (\<lambda>(i, off). 41 \<le> i \<and> i \<le> 59 \<and> off + 3 < length p) xs"
  shows "\<exists>r'. RadioCopyAll p r xs = Some r' \<and> radio_frame r r'"
  using assms
proof (induction xs arbitrary: r)
  case Nil
  then show ?case by (simp add: radio_frame_refl)
next
  case (Cons x xs)
  obtain i off where x: "x = (i, off)" by (cases x)
  obtain r1 where r1: "RadioCopy p r i off = Some r1" "radio_frame r r1"
    using RadioCopy_frame [of r i off p] Cons.prems x by auto
  with Cons.IH [of r1] Cons.prems obtain r2 where "RadioCopyAll p r1 xs = Some r2" "radio_frame r1 r2"
    by (auto simp: radio_frame_def)
  with r1 x show ?case by (auto intro: radio_frame_trans)
qed

lemma RadioRate_frame:
  assumes "length r = 64" "i \<le> 1" "96 \<le> length p \<or> version < 4" "84 \<le> length p"
  shows "\<exists>r'. RadioRate p version i r = Some r' \<and> radio_frame r r'"
proof -
  obtain rate where rate: "CywRadioLe32 p (68 + 4 * i) = Some rate"
    using CywRadioLe32_safe [of "68 + 4 * i" p] assms by auto
  have "\<exists>w. CywRadioLe32 p 92 = Some w" if "4 \<le> version"
    using CywRadioLe32_safe [of 92 p] assms that by auto
  then have "\<exists>h. (if i \<noteq> 0 then do { a \<leftarrow> rdw r 48; b \<leftarrow> rdw r 49; Some (a \<noteq> 0 \<or> b \<noteq> 0) }
        else do {
          a \<leftarrow> rdw r 46;
          if a \<noteq> 0 then Some True
          else if version \<ge> 4 then do { w \<leftarrow> CywRadioLe32 p 92; Some (w \<noteq> 0) }
          else Some False }) = Some h" (is "\<exists>h. ?m = Some h")
    using assms(1) by (cases "version \<ge> 4") (auto simp: rdw_def)
  then obtain h where h: "?m = Some h" by blast
  obtain r1 where r1: "wrw r (44 + i) rate = Some r1" "radio_frame r r1"
    using wrw_frame [of r "44 + i" rate] assms by auto
  then obtain r2 where r2: "RadioMark r1 (if i \<noteq> 0 then 256 else 128) = Some r2" "radio_frame r1 r2"
    using RadioMark_frame [of r1] by (meson radio_frame_def)
  show ?thesis
    unfolding RadioRate_def rate bind.simps(2) h
    using r1 r2 assms(1) radio_frame_refl by (auto intro: radio_frame_trans)
qed

lemma RadioStationFields_frame:
  assumes r: "length r = 64" and p: "84 \<le> length p" "200 \<le> length p \<or> version < 4"
  shows "\<exists>r'. RadioStationFields p version r = Some r' \<and> radio_frame r r'"
proof -
  have fr: "\<And>r r'. radio_frame r r' \<Longrightarrow> length r' = 64" by (simp add: radio_frame_def)
  obtain r1 where 1: "RadioCopyAll p r [(46, 52), (47, 56), (48, 60), (49, 64), (50, 80)] = Some r1"
      "radio_frame r r1"
    using RadioCopyAll_frame [OF r, of p "[(46, 52), (47, 56), (48, 60), (49, 64), (50, 80)]"] p by auto
  obtain r2 where 2: "RadioMark r1 32 = Some r2" "radio_frame r1 r2" using RadioMark_frame fr [OF 1(2)] by blast
  obtain r3 where 3: "RadioRate p version 0 r2 = Some r3" "radio_frame r2 r3"
    using RadioRate_frame [OF fr [OF 2(2)], of 0 p version] p by auto
  obtain r4 where 4: "RadioRate p version 1 r3 = Some r4" "radio_frame r3 r4"
    using RadioRate_frame [OF fr [OF 3(2)], of 1 p version] p by auto
  have f4: "radio_frame r r4" using 1 2 3 4 by (blast intro: radio_frame_trans)
  show ?thesis
  proof (cases "version \<ge> 4")
    case True
    let ?xs = "[(51, 160), (52, 164)] @ map (\<lambda>i. (53 + i, 172 + 4 * i)) [0..<7]"
    have "list_all (\<lambda>(i, off). 41 \<le> i \<and> i \<le> 59 \<and> off + 3 < length p) ?xs"
      using True p by (auto simp: list_all_iff)
    then obtain r5 where 5: "RadioCopyAll p r4 ?xs = Some r5" "radio_frame r4 r5"
      using RadioCopyAll_frame [OF fr [OF 4(2)]] by blast
    then obtain r6 where 6: "RadioMark r5 64 = Some r6" "radio_frame r5 r6" using RadioMark_frame fr by blast
    have "RadioStationFields p version r = Some r6"
      using True by (simp add: RadioStationFields_def 1 2 3 4 5 6 del: One_nat_def RadioCopyAll.simps append_Cons)
    then show ?thesis using f4 5(2) 6(2) by (blast intro: radio_frame_trans)
  next
    case False
    then have "RadioStationFields p version r = Some r4"
      by (simp add: RadioStationFields_def 1 2 3 4 del: One_nat_def RadioCopyAll.simps)
    then show ?thesis using f4 by blast
  qed
qed

lemma CywRadioMacValid_safe: "6 \<le> length p \<Longrightarrow> \<exists>v. CywRadioMacValid p = Some v"
  by (auto simp: CywRadioMacValid_def rd8_def rdn_def)

lemma radio_minimum_bounds: "84 \<le> unat (radio_minimum v) \<and> (v < 4 \<or> v = 3 \<or> 200 \<le> unat (radio_minimum v))"
  by (auto simp: radio_minimum_def)

lemma CywRadioParseStation_frame:
  assumes "available \<le> length p" "6 \<le> length bssid" "length r = CYW_RADIO_REPORT_WORDS"
  shows "\<exists>ok r'. CywRadioParseStation p available bssid r = Some (ok, r') \<and> radio_frame r r' \<and> (ok \<or> r' = r)"
proof (cases "available < 4")
  case True
  then show ?thesis using assms by (auto simp: CywRadioParseStation_def radio_frame_refl)
next
  case False
  then obtain v l where vl: "CywRadioLe16 p 0 = Some v" "CywRadioLe16 p 2 = Some l"
    using CywRadioLe16_safe [of 0 p] CywRadioLe16_safe [of 2 p] assms by auto
  show ?thesis
  proof (cases "\<not> radio_known_version v \<or> l < radio_minimum v \<or> unat l > available \<or> available > 521")
    case True
    then show ?thesis using False assms by (auto simp: CywRadioParseStation_def vl radio_frame_refl)
  next
    case ok: False
    then have min: "unat (radio_minimum v) \<le> length p" using assms by (simp add: word_le_nat_alt not_less)
    have long: "84 \<le> length p" "200 \<le> length p \<or> v < 4"
      using radio_minimum_bounds [of v] min by auto
    obtain mv where mv: "CywRadioMacValid bssid = Some mv" using CywRadioMacValid_safe assms by blast
    obtain rates flags where w: "CywRadioLe32 p 24 = Some rates" "CywRadioLe32 p 8 = Some flags"
      using CywRadioLe32_safe [of 24 p] CywRadioLe32_safe [of 8 p] long by auto
    have rd: "rdn p 16 6 = Some (sub_bytes p 16 6)" "rdn bssid 0 6 = Some (sub_bytes bssid 0 6)"
      using long assms by (auto simp: rdn_def)
    show ?thesis
    proof (cases "\<not> mv \<or> sub_bytes p 16 6 \<noteq> sub_bytes bssid 0 6 \<or> rates > 16")
      case True
      then show ?thesis
        using False ok assms by (auto simp: CywRadioParseStation_def vl mv w rd radio_frame_refl)
    next
      case good: False
      obtain r1 where r1: "RadioMark (r[41 := v, 42 := l, 43 := flags]) 16 = Some r1"
          "radio_frame (r[41 := v, 42 := l, 43 := flags]) r1"
        using RadioMark_frame [of "r[41 := v, 42 := l, 43 := flags]"] assms by auto
      have "radio_frame r (r[41 := v, 42 := l, 43 := flags])"
        using assms by (auto simp: radio_frame_def nth_list_update)
      then have f1: "radio_frame r r1" using r1 by (blast intro: radio_frame_trans)
      obtain r2 where r2: "RadioStationFields p v r1 = Some r2" "radio_frame r1 r2"
        using RadioStationFields_frame [of r1 p v] r1 long by (auto simp: radio_frame_def)
      have "CywRadioParseStation p available bssid r = Some (True, if flags AND 0x4000 = 0 then r1 else r2)"
        using False ok good assms by (simp add: CywRadioParseStation_def vl mv w rd wrw_def r1 r2)
      then show ?thesis using f1 r2(2) by (auto intro: radio_frame_trans)
    qed
  qed
qed

lemma CywBandStationAuthorized_safe:
  assumes "n \<le> length data" "length bssid = 6"
  shows "\<exists>r. CywBandStationAuthorized data n bssid = Some r"
proof -
  obtain ok r where r: "CywRadioParseStation data n bssid (replicate CYW_RADIO_REPORT_WORDS 0) = Some (ok, r)" "radio_frame (replicate CYW_RADIO_REPORT_WORDS 0) r"
    using CywRadioParseStation_frame [of n data bssid "replicate CYW_RADIO_REPORT_WORDS 0"] assms by auto
  then have "length r = 64" by (simp add: radio_frame_def)
  with r(1) show ?thesis by (auto simp: CywBandStationAuthorized_def rdw_def)
qed

lemma CywBandReadback_safe:
  assumes "length channel = 12" "length rssi = 12" "length before = 6" "length after = 6"
  shows "\<exists>r. CywBandReadback channel 12 rssi 12 before 6 after 6 = Some r"
proof -
  have "\<exists>v. CywBandMacValid p = Some v" if "length p = 6" for p
    using that by (auto simp: CywBandMacValid_def rd8_def rdn_def)
  then obtain v w where "CywBandMacValid before = Some v" "CywBandMacValid after = Some w" using assms by blast
  then show ?thesis using assms by (auto simp: CywBandReadback_def wire_simps rdn_def)
qed

text \<open>
  C16 (safety).  Parsing a station reply never reads outside of the received bytes or writes outside of the
  report, whatever version and length the firmware claims.  A rejected reply leaves the report as it was;
  an accepted one changes only the mask (word 20) and the station words 41 to 59, so the words of the first
  report version and the reserved ones keep their values.
\<close>

theorem CywRadioParseStation_safe:
  assumes "available \<le> length p" "6 \<le> length bssid" "length r = CYW_RADIO_REPORT_WORDS"
  shows "\<exists>ok r'. CywRadioParseStation p available bssid r = Some (ok, r') \<and> radio_frame r r' \<and> (ok \<or> r' = r)"
  using assms by (rule CywRadioParseStation_frame)

theorem CywRadioParseStation_safe_witness:
  "\<exists>ok r'. CywRadioParseStation (7 # 0 # 44 # 1 # replicate 400 2) 300 (replicate 6 2) (replicate 64 0) = Some (ok, r')"
  using CywRadioParseStation_safe [of 300 "7 # 0 # 44 # 1 # replicate 400 2" "replicate 6 2" "replicate 64 0"]
  by auto

end
