(* ===== verification/Firmware_Sequences.thy ===== *)
theory Firmware_Sequences
  imports Firmware_Command Radio_Band
begin

text \<open>
  The command sequences of the worker: the configuration after a firmware start (\<open>CywConfigure\<close> of \<open>network.c\<close>, \<open>rx_config.h\<close>,
  \<open>tx_glom2_config.h\<close>), the join with band selection (\<open>join_preference.h\<close>, \<open>band_selection.h\<close>) and the whole connection sequence
  (\<open>connection.h\<close>).  A read of a fixed array out of its bounds would set \<open>LFault\<close>, like in the transport.
\<close>

section \<open>Commands without a reply value\<close>

definition cstr :: "string \<Rightarrow> bytes" where
  "cstr s = map of_char s"

definition connS :: "(conn \<Rightarrow> conn) \<Rightarrow> ('w, unit) fwm" where
  "connS f = fmod (\<lambda>c. c\<lparr>FcConn := f (FcConn c)\<rparr>)"

definition sound :: "'b \<Rightarrow> 'a option \<Rightarrow> ('a \<Rightarrow> ('w, 'b) fwm) \<Rightarrow> ('w, 'b) fwm" where
  "sound d r k = (case r of None \<Rightarrow> do { via (lmod (\<lambda>l. l\<lparr>LFault := True\<rparr>)); ret d } | Some x \<Rightarrow> k x)"

text \<open>
  The environment of a sequence: fuel, controller, NDIS, pool and files, what other threads ask of the worker, and the build option
  \<open>RPI5CYW_TX_GLOM2\<close>.
\<close>

record 'w env =
  fuel :: nat
  hwE :: "'w hw"
  ndisE :: "'w ndis"
  filesE :: "'w files"
  asked :: "'w \<Rightarrow> bool \<times> 'w"
  txGlom2 :: bool

definition Command :: "'w env \<Rightarrow> u32 \<Rightarrow> bytes \<Rightarrow> ('w, NTSTATUS) fwm" where
  "Command E command data = do { (st, _) \<leftarrow> CywFirmwareCommand (fuel E) (hwE E) (ndisE E) (filesE E) command True data; ret st }"

definition Query :: "'w env \<Rightarrow> u32 \<Rightarrow> bytes \<Rightarrow> ('w, NTSTATUS \<times> bytes) fwm" where
  "Query E command data = CywFirmwareCommand (fuel E) (hwE E) (ndisE E) (filesE E) command False data"

definition SetVar :: "'w env \<Rightarrow> string \<Rightarrow> bytes \<Rightarrow> ('w, NTSTATUS) fwm" where
  "SetVar E name data = do { (st, _) \<leftarrow> CywIovar (fuel E) (hwE E) (ndisE E) (filesE E) (cstr name) True data; ret st }"

definition GetVar :: "'w env \<Rightarrow> string \<Rightarrow> bytes \<Rightarrow> ('w, NTSTATUS \<times> bytes) fwm" where
  "GetVar E name data = CywIovar (fuel E) (hwE E) (ndisE E) (filesE E) (cstr name) False data"

definition CywInt :: "'w env \<Rightarrow> string \<Rightarrow> u32 \<Rightarrow> ('w, NTSTATUS) fwm" where
  "CywInt E name v = SetVar E name (bytes32 v)"

definition CywCmdInt :: "'w env \<Rightarrow> u32 \<Rightarrow> u32 \<Rightarrow> ('w, NTSTATUS) fwm" where
  "CywCmdInt E command v = Command E command (bytes32 v)"

text \<open>The firmware said \<open>UNSUPPORTED\<close> itself: the only failure a sequence may go on after.\<close>

definition Unsupported :: "NTSTATUS \<Rightarrow> ('w, bool) fwm" where
  "Unsupported st = do { e \<leftarrow> fasks FirmwareError; ret (st = STATUS_UNSUCCESSFUL \<and> e = 0xffffffe9) }"

section \<open>Configuration\<close>

definition CywConfigureRxAggregation :: "'w env \<Rightarrow> ('w, NTSTATUS) fwm" where
  "CywConfigureRxAggregation E = do {
     via (rxS (\<lambda>r. r\<lparr>RxGlomEnabled := False\<rparr>));
     tryS (CywInt E ''bus:txglom'' 0) (
     tryS (CywInt E ''bus:rxglom'' 0) (do {
     ready \<leftarrow> via (bus (asks (\<lambda>a. FifoBlockReady (AFifo a))));
     if \<not> ready then ret STATUS_SUCCESS else do {
     st \<leftarrow> CywInt E ''bus:txglomalign'' 4;
     st \<leftarrow> (if NT_SUCCESS st then do { via (rxS (\<lambda>r. r\<lparr>RxGlomEnabled := True\<rparr>)); CywInt E ''bus:txglom'' 1 } else ret st);
     if NT_SUCCESS st then ret st else do {
     via (rxS (\<lambda>r. r\<lparr>RxGlomEnabled := False\<rparr>));
     unsupported \<leftarrow> Unsupported st;
     if unsupported then CywInt E ''bus:txglom'' 0 else ret st } } })) }"

definition CywTxGlom2ResetProtocol :: "('w, unit) fwm" where
  "CywTxGlom2ResetProtocol = do {
     via (txS (\<lambda>T. T\<lparr>TdGlomEnabled := False\<rparr>));
     connS (\<lambda>n. n\<lparr>TxGlomConfigStatus := STATUS_SUCCESS\<rparr>) }"

definition CywConfigureTxGlom2 :: "'w env \<Rightarrow> ('w, NTSTATUS) fwm" where
  "CywConfigureTxGlom2 E = do {
     connS (\<lambda>n. n\<lparr>TxGlomRequested := txGlom2 E, TxGlomConfigStatus := STATUS_SUCCESS\<rparr>);
     if \<not> txGlom2 E then ret STATUS_SUCCESS else do {
     st \<leftarrow> CywInt E ''bus:rxglom'' 1;
     connS (\<lambda>n. n\<lparr>TxGlomConfigStatus := st\<rparr>);
     if NT_SUCCESS st then do { via (txS (\<lambda>T. T\<lparr>TdGlomEnabled := True\<rparr>)); ret STATUS_SUCCESS }
     else do {
       unsupported \<leftarrow> Unsupported st;
       if unsupported then do { via (txS (\<lambda>T. T\<lparr>TdGlomEnabled := False\<rparr>)); ret STATUS_SUCCESS }
       else ret st } } }"

text \<open>The regulatory blob goes down in chunks of at most 448 bytes, the first and the last of them marked.\<close>

definition ClmChunk :: "bytes \<Rightarrow> nat \<Rightarrow> nat \<Rightarrow> nat \<Rightarrow> bytes option" where
  "ClmChunk clm len off n = do {
     let b = replicate 460 0;
     b \<leftarrow> CywPut16 b 0 (0x1000 OR (if off = 0 then 2 else 0) OR (if off + n = len then 4 else 0));
     b \<leftarrow> CywPut16 b 2 2;
     b \<leftarrow> CywPut32 b 4 (word_of_nat n);
     v \<leftarrow> rdn clm off n;
     b \<leftarrow> wrn b 12 v;
     Some (take (n + 12) b) }"

function ClmLoop :: "'w env \<Rightarrow> bytes \<Rightarrow> nat \<Rightarrow> nat \<Rightarrow> ('w, NTSTATUS) fwm" where
  "ClmLoop E clm len off =
    (if off < len then
       sound STATUS_UNSUCCESSFUL (ClmChunk clm len off (min (len - off) 448)) (\<lambda>chunk.
         tryS (SetVar E ''clmload'' chunk) (ClmLoop E clm len (off + min (len - off) 448)))
     else ret STATUS_SUCCESS)"
  by pat_completeness auto
termination
  by (relation "measure (\<lambda>(E, clm, len, off). len - off)") auto

declare ClmLoop.simps [simp del]

definition MacReadback :: "'w env \<Rightarrow> ('w, unit) fwm" where
  "MacReadback E = do {
     (st, mac) \<leftarrow> GetVar E ''cur_etheraddr'' (replicate 6 0);
     own \<leftarrow> via (lasks (\<lambda>l. CurrentMacAddress (LFilter l)));
     connS (\<lambda>n. n\<lparr>MacReadbackStatus := st, MacReadbackMatches := NT_SUCCESS st \<and> mac = own\<rparr>) }"

definition EventMask :: bytes where
  "EventMask = (replicate 16 0) [0 := 0x61, 1 := 0x18, 2 := 1, 5 := 0x40]"

text \<open>The CLM file is file 2 of the driver's files.\<close>

definition CywConfigure :: "'w env \<Rightarrow> ('w, NTSTATUS) fwm" where
  "CywConfigure E = do {
     CywTxGlom2ResetProtocol;
     (st, n, clm) \<leftarrow> via (bus (CywReadFirmwareFile (filesE E) 2 65536));
     if \<not> NT_SUCCESS st then ret st else
     tryS (ClmLoop E clm n 0) (
     tryS (CywCmdInt E 3 0) (
     tryS (CywConfigureRxAggregation E) (
     tryS (CywConfigureTxGlom2 E) (
     tryS (CywInt E ''mpc'' 0) (
     tryS (CywCmdInt E 86 0) (
     tryS (CywInt E ''allmulti'' 1) (do {
     own \<leftarrow> via (lasks (\<lambda>l. CurrentMacAddress (LFilter l)));
     tryS (SetVar E ''cur_etheraddr'' own) (do {
     MacReadback E;
     tryS (SetVar E ''event_msgs'' EventMask) (do {
     via (lmod (\<lambda>l. l\<lparr>LNet := (LNet l)\<lparr>ANetworkPhase := 500\<rparr>\<rparr>));
     ret STATUS_SUCCESS }) }) }))))))) }"


section \<open>Joining a network\<close>

abbreviation (input) "CYW_BAND_JOIN_WAIT_100NS \<equiv> (150000000 :: u64)"

definition CywSetJoinPreference :: "'w env \<Rightarrow> bool \<Rightarrow> ('w, NTSTATUS) fwm" where
  "CywSetJoinPreference E prefer5 = do {
     connS (\<lambda>n. n\<lparr>JoinPreferenceAccepted := False, JoinPreferenceError := 0\<rparr>);
     fmod (\<lambda>c. c\<lparr>FirmwareError := 0\<rparr>);
     st \<leftarrow> SetVar E ''join_pref'' (case CywBuildJoinPreference prefer5 of (b, k) \<Rightarrow> take k b);
     e \<leftarrow> fasks FirmwareError;
     connS (\<lambda>n. n\<lparr>JoinPreferenceStatus := st, JoinPreferenceError := e, JoinPreferenceAccepted := NT_SUCCESS st\<rparr>);
     unsupported \<leftarrow> Unsupported st;
     ret (if unsupported then STATUS_SUCCESS else st) }"

definition CywApplyJoinPreference :: "'w env \<Rightarrow> ('w, NTSTATUS) fwm" where
  "CywApplyJoinPreference E = CywSetJoinPreference E True"

definition step :: "nat \<Rightarrow> ('w, unit) fwm" where
  "step k = connS (\<lambda>n. n\<lparr>ConnectStep := k\<rparr>)"

text \<open>A change of the control plane, which sees the stop flags as they are now.\<close>

definition netS :: "'w env \<Rightarrow> (net \<Rightarrow> net) \<Rightarrow> ('w, unit) fwm" where
  "netS E f = do {
     stopped \<leftarrow> via (bus (IoStopped (hwE E)));
     stop \<leftarrow> via (netStop (hwE E));
     via (lmod (\<lambda>l. l\<lparr>LNet := f ((LNet l)\<lparr>AIoStopped := stopped, NStop := stop\<rparr>)\<rparr>)) }"

text \<open>Words of the band selection report; word 1 is its stage, which the event handler reads too.\<close>

definition band :: "nat \<Rightarrow> u32 \<Rightarrow> ('w, unit) fwm" where
  "band i v = do {
     connS (\<lambda>n. n\<lparr>BandSelection := (BandSelection n)[i := v]\<rparr>);
     (if i = 1 then via (lmod (\<lambda>l. l\<lparr>LNet := (LNet l)\<lparr>ABandStage := v\<rparr>\<rparr>)) else ret ()) }"

definition bandOr :: "u32 \<Rightarrow> ('w, unit) fwm" where
  "bandOr v = connS (\<lambda>n. n\<lparr>BandSelection := (BandSelection n)[2 := BandSelection n ! 2 OR v]\<rparr>)"

text \<open>The flags other threads set: pause, power and a newer request come from \<open>asked\<close>.\<close>

definition CywBandCancelled :: "'w env \<Rightarrow> ('w, bool) fwm" where
  "CywBandCancelled E = do {
     stopped \<leftarrow> via (bus (IoStopped (hwE E)));
     if stopped then ret True else do {
     stop \<leftarrow> via (netStop (hwE E));
     if stop then ret True else via (bus (world (asked E))) } }"

definition isUp :: "link \<Rightarrow> bool" where
  "isUp l \<longleftrightarrow> NAssociated (LNet l) \<and> NAuthorized (LNet l)"

text \<open>The reply to one query of the verification is judged by \<open>good\<close>; then the link has to be up still.\<close>

definition BandReply :: "NTSTATUS \<Rightarrow> bytes \<Rightarrow> (nat \<Rightarrow> bytes \<Rightarrow> bool option) \<Rightarrow>
    (bytes \<Rightarrow> ('w, NTSTATUS \<times> u32 list) fwm) \<Rightarrow> ('w, NTSTATUS \<times> u32 list) fwm" where
  "BandReply st d good k =
    (if \<not> NT_SUCCESS st then ret (st, []) else do {
     n \<leftarrow> fasks FirmwareReplyLength;
     sound (STATUS_UNSUCCESSFUL, []) (good n d) (\<lambda>g.
     if \<not> g then ret (STATUS_DEVICE_DATA_ERROR, []) else do {
     up \<leftarrow> via (lasks isUp);
     if \<not> up then ret (STATUS_DEVICE_DATA_ERROR, []) else k d }) })"

definition BandGet :: "'w env \<Rightarrow> u64 \<Rightarrow> u32 \<Rightarrow> bytes \<Rightarrow> (nat \<Rightarrow> bytes \<Rightarrow> bool option) \<Rightarrow>
    (bytes \<Rightarrow> ('w, NTSTATUS \<times> u32 list) fwm) \<Rightarrow> ('w, NTSTATUS \<times> u32 list) fwm" where
  "BandGet E deadline command data good k = do {
     cancelled \<leftarrow> CywBandCancelled E;
     if cancelled then ret (STATUS_CANCELLED, []) else do {
     now \<leftarrow> via (linkTime (hwE E));
     if now \<ge> deadline then ret (STATUS_IO_TIMEOUT, []) else do {
     (st, d) \<leftarrow> Query E command data;
     BandReply st d good k } } }"

text \<open>The station query carries its name and the address in the buffer; the result is the four words of the read-back.\<close>

definition CywBandVerify :: "'w env \<Rightarrow> u64 \<Rightarrow> ('w, NTSTATUS \<times> u32 list) fwm" where
  "CywBandVerify E deadline =
     BandGet E deadline 23 (replicate 6 0) (\<lambda>n _. Some (n = 6)) (\<lambda>before.
     BandGet E deadline 29 (replicate 12 0) (\<lambda>n _. Some (n = 12)) (\<lambda>channel.
     BandGet E deadline 127 (replicate 12 0) (\<lambda>n _. Some (n = 12)) (\<lambda>rssi.
     BandGet E deadline 262 (cstr ''sta_info'' @ [0] @ before @ replicate 506 0)
       (\<lambda>n station. CywBandStationAuthorized station n before) (\<lambda>_.
     BandGet E deadline 23 (replicate 6 0) (\<lambda>n _. Some (n = 6)) (\<lambda>after. do {
     cancelled \<leftarrow> CywBandCancelled E;
     if cancelled then ret (STATUS_CANCELLED, [])
     else sound (STATUS_UNSUCCESSFUL, []) (CywBandReadback channel 12 rssi 12 before 6 after 6) (\<lambda>r.
       case r of None \<Rightarrow> ret (STATUS_DEVICE_DATA_ERROR, [])
       | Some (c, d, lo, hi) \<Rightarrow> ret (STATUS_SUCCESS, [c, d, lo, hi])) })))))"

fun BandWaitLoop :: "nat \<Rightarrow> 'w env \<Rightarrow> u64 \<Rightarrow> ('w, NTSTATUS \<times> u32 list) fwm" where
  "BandWaitLoop 0 E deadline = do { fmod (\<lambda>c. c\<lparr>FcHung := True\<rparr>); ret (STATUS_IO_TIMEOUT, []) }"
| "BandWaitLoop (Suc n) E deadline = do {
     now \<leftarrow> via (linkTime (hwE E));
     if now \<ge> deadline then do {
       cancelled \<leftarrow> CywBandCancelled E;
       ret (if cancelled then STATUS_CANCELLED else STATUS_IO_TIMEOUT, []) }
     else do {
       cancelled \<leftarrow> CywBandCancelled E;
       if cancelled then ret (STATUS_CANCELLED, []) else do {
       up \<leftarrow> via (lasks isUp);
       if up then CywBandVerify E deadline else do {
       (st, _) \<leftarrow> via (CywPoll (hwE E) (ndisE E));
       if st = STATUS_NO_MORE_ENTRIES then do {
         via (bus (SdioDelayMilliseconds (hwE E) 2));
         BandWaitLoop n E deadline }
       else if \<not> NT_SUCCESS st then ret (st, [])
       else BandWaitLoop n E deadline } } } }"

definition CywBandWait :: "'w env \<Rightarrow> u64 \<Rightarrow> nat \<Rightarrow> ('w, NTSTATUS) fwm" where
  "CywBandWait E deadline at = do {
     (st, out) \<leftarrow> BandWaitLoop (fuel E) E deadline;
     connS (\<lambda>n. n\<lparr>BandSelection := (if NT_SUCCESS st then take at (BandSelection n) @ out @ drop (at + 4) (BandSelection n) else BandSelection n)\<rparr>);
     ret st }"


text \<open>The first join, with the 5 GHz preference: \<open>Inl\<close> leaves with the initial and the final status, \<open>Inr\<close> says whether to fall back.\<close>

definition JoinFirst :: "'w env \<Rightarrow> bytes \<Rightarrow> u64 \<Rightarrow> ('w, NTSTATUS \<times> NTSTATUS + NTSTATUS \<times> bool) fwm" where
  "JoinFirst E ssid deadline = do {
     via (lmod (\<lambda>l. l\<lparr>LNet := (LNet l)\<lparr>NSelectingBand := True\<rparr>\<rparr>));
     band 1 1; band 2 1;
     cancelled \<leftarrow> CywBandCancelled E;
     if cancelled then ret (Inl (STATUS_CANCELLED, STATUS_CANCELLED)) else do {
     band 13 1;
     via (lmod (\<lambda>l. l\<lparr>LNet := (LNet l)\<lparr>NAssociated := False, NAuthorized := False\<rparr>\<rparr>));
     step 13;
     st \<leftarrow> Command E 26 ssid;
     st \<leftarrow> (if NT_SUCCESS st then do { step 19; CywBandWait E deadline 5 } else ret st);
     band 3 st;
     cancelled \<leftarrow> CywBandCancelled E;
     if cancelled \<or> st = STATUS_CANCELLED then ret (Inl (st, STATUS_CANCELLED))
     else if NT_SUCCESS st then do {
       bandOr 2;
       r \<leftarrow> fasks (\<lambda>c. BandSelection (FcConn c));
       if \<not> CywBandCandidateUsable (r ! 5) (r ! 6) then do { band 15 2; ret (Inr (st, True)) } else ret (Inr (st, False)) }
     else if st = STATUS_IO_TIMEOUT \<or> st = STATUS_DEVICE_DATA_ERROR \<or> st = STATUS_UNSUCCESSFUL then do {
       k \<leftarrow> fasks (\<lambda>c. ConnectStep (FcConn c));
       band 15 (if k = 13 then 4 else if st = STATUS_IO_TIMEOUT then 1 else 3);
       ret (Inr (st, True)) }
     else ret (Inl (st, st)) } }"

text \<open>After the preference was taken back, the association is verified again unless there is a fallback anyway.\<close>

definition JoinObserve :: "'w env \<Rightarrow> u64 \<Rightarrow> bool \<Rightarrow> ('w, NTSTATUS + bool) fwm" where
  "JoinObserve E deadline fallback = do {
     bandOr 8;
     cancelled \<leftarrow> CywBandCancelled E;
     if cancelled then ret (Inl STATUS_CANCELLED)
     else if fallback then ret (Inr True)
     else do {
       step 24;
       (st, out) \<leftarrow> CywBandVerify E deadline;
       if NT_SUCCESS st then do {
         connS (\<lambda>n. n\<lparr>BandSelection := take 9 (BandSelection n) @ out @ drop 13 (BandSelection n)\<rparr>);
         if \<not> CywBandCandidateUsable (out ! 0) (out ! 1) then do { band 15 2; ret (Inr True) } else ret (Inr False) }
       else if st = STATUS_IO_TIMEOUT \<or> st = STATUS_DEVICE_DATA_ERROR \<or> st = STATUS_UNSUCCESSFUL then do {
         band 15 (if st = STATUS_IO_TIMEOUT then 1 else 3);
         ret (Inr True) }
       else ret (Inl st) } }"

definition JoinRestore :: "'w env \<Rightarrow> u64 \<Rightarrow> bool \<Rightarrow> ('w, NTSTATUS + bool) fwm" where
  "JoinRestore E deadline fallback = do {
     step 20;
     restore \<leftarrow> CywSetJoinPreference E False;
     n \<leftarrow> fasks FcConn;
     if \<not> NT_SUCCESS restore \<or> \<not> JoinPreferenceAccepted n
     then ret (Inl (if NT_SUCCESS restore then JoinPreferenceStatus n else restore))
     else JoinObserve E deadline fallback }"

text \<open>The fallback: an explicit disassociation, then a second join on any band.\<close>

definition JoinAgain :: "'w env \<Rightarrow> bytes \<Rightarrow> ('w, NTSTATUS) fwm" where
  "JoinAgain E ssid = do {
     band 1 4; bandOr 4;
     r \<leftarrow> fasks (\<lambda>c. BandSelection (FcConn c));
     step 21;
     st \<leftarrow> Command E 52 (bytes32 3 @ bytes32 (r ! 7) @ [byte_of 0 (r ! 8), byte_of 1 (r ! 8), 0, 0]);
     e \<leftarrow> fasks FirmwareError;
     let st = (if st = STATUS_UNSUCCESSFUL \<and> e = 0xffffffef then STATUS_SUCCESS else st);
     if \<not> NT_SUCCESS st then ret st else do {
     via (lmod (\<lambda>l. l\<lparr>LNet := (LNet l)\<lparr>NAssociated := False, NAuthorized := False\<rparr>\<rparr>));
     cancelled \<leftarrow> CywBandCancelled E;
     if cancelled then ret STATUS_CANCELLED else do {
     now \<leftarrow> via (linkTime (hwE E));
     step 22; band 13 2;
     tryS (Command E 26 ssid) (do {
     step 23;
     tryS (CywBandWait E (now + CYW_BAND_JOIN_WAIT_100NS) 9) (do { band 1 5; ret STATUS_SUCCESS }) }) } } }"

text \<open>The last checks before the link is released.\<close>

definition JoinConfirm :: "'w env \<Rightarrow> ('w, NTSTATUS) fwm" where
  "JoinConfirm E = do {
     cancelled \<leftarrow> CywBandCancelled E;
     if cancelled then ret STATUS_CANCELLED else do {
     up \<leftarrow> via (lasks isUp);
     if \<not> up then ret STATUS_DEVICE_DATA_ERROR else do { bandOr 16; ret STATUS_SUCCESS } } }"

definition JoinRest :: "'w env \<Rightarrow> bytes \<Rightarrow> u64 \<Rightarrow> bool \<Rightarrow> ('w, NTSTATUS) fwm" where
  "JoinRest E ssid deadline fallback = do {
     r \<leftarrow> JoinRestore E deadline fallback;
     case r of
       Inl st \<Rightarrow> ret st
     | Inr True \<Rightarrow> tryS (JoinAgain E ssid) (JoinConfirm E)
     | Inr False \<Rightarrow> do {
         r \<leftarrow> fasks (\<lambda>c. BandSelection (FcConn c));
         band 1 (if r ! 9 > 14 then 2 else 3);
         JoinConfirm E } }"

definition JoinLeave :: "'w env \<Rightarrow> u64 \<Rightarrow> NTSTATUS \<Rightarrow> NTSTATUS \<Rightarrow> ('w, NTSTATUS) fwm" where
  "JoinLeave E started initial st = do {
     band 3 initial; band 4 st;
     now \<leftarrow> via (linkTime (hwE E));
     band 14 (ucast ((now - started) div 10000));
     (if \<not> NT_SUCCESS st then band 1 (if st = STATUS_CANCELLED then 8 else 6) else ret ());
     stage \<leftarrow> fasks (\<lambda>c. BandSelection (FcConn c) ! 1);
     netS E (JoinExit st stage);
     ret st }"

definition CywJoinSelectedBand :: "'w env \<Rightarrow> bytes \<Rightarrow> ('w, NTSTATUS) fwm" where
  "CywJoinSelectedBand E ssid = do {
     started \<leftarrow> via (linkTime (hwE E));
     let deadline = started + CYW_BAND_JOIN_WAIT_100NS;
     r \<leftarrow> JoinFirst E ssid deadline;
     case r of
       Inl (initial, st) \<Rightarrow> JoinLeave E started initial st
     | Inr (initial, fallback) \<Rightarrow> do {
         st \<leftarrow> JoinRest E ssid deadline fallback;
         JoinLeave E started initial st } }"


section \<open>Connecting\<close>

definition code16 :: "u8 \<Rightarrow> u8 \<Rightarrow> u32" where
  "code16 a b = ucast a OR push_bit 8 (ucast b)"

definition ConnectReset :: "'w env \<Rightarrow> CYW_CONNECT_REQUEST \<Rightarrow> ('w, unit) fwm" where
  "ConnectReset E R = do {
     netS E ConnectBegin;
     connS (\<lambda>n. n\<lparr>JoinPreferenceAccepted := False, JoinPreferenceError := 0, JoinPreferenceStatus := STATUS_PENDING,
       BandSelection := (replicate 16 0)[0 := 1],
       CountryRequested := code16 (fst (CrCountry R)) (snd (CrCountry R)), CountryApplied := 0, CountryRevision := 0xffffffff,
       CountryBefore := 0, CountryBeforeRevision := 0xffffffff, CountrySetMode := 0, CountryExplicitError := 0,
       ClmLoadStatus := 0xffffffff, ClmQueryStatus := STATUS_PENDING, CountryListStatus := STATUS_PENDING, CountryListError := 0,
       CountryListCount := 0, CountryListMembership := 0, CountryListReplyLength := 0\<rparr>) }"

text \<open>The loaded CLM, where the firmware can tell.\<close>

definition ConnectClm :: "'w env \<Rightarrow> ('w, NTSTATUS) fwm" where
  "ConnectClm E = do {
     step 15;
     (st, clm) \<leftarrow> GetVar E ''clmload_status'' (replicate 4 0);
     connS (\<lambda>n. n\<lparr>ClmQueryStatus := st\<rparr>);
     n \<leftarrow> fasks FirmwareReplyLength;
     if NT_SUCCESS st then
       if n \<noteq> 4 then ret STATUS_DEVICE_DATA_ERROR
       else sound STATUS_UNSUCCESSFUL (CywLe32 clm 0) (\<lambda>v. do {
         connS (\<lambda>n. n\<lparr>ClmLoadStatus := v\<rparr>);
         ret (if v \<noteq> 0 then STATUS_DEVICE_DATA_ERROR else STATUS_SUCCESS) })
     else do {
       unsupported \<leftarrow> Unsupported st;
       ret (if unsupported then STATUS_SUCCESS else st) } }"

text \<open>The list of countries, as evidence only.\<close>

definition CountryListSeen :: "CYW_CONNECT_REQUEST \<Rightarrow> NTSTATUS \<times> bytes \<Rightarrow> ('w, unit) fwm" where
  "CountryListSeen R r = do {
     e \<leftarrow> fasks FirmwareError;
     n \<leftarrow> fasks FirmwareReplyLength;
     connS (\<lambda>m. m\<lparr>CountryListStatus := fst r, CountryListError := e, CountryListReplyLength := n\<rparr>);
     if NT_SUCCESS (fst r) then
       sound () (CywCountryList (snd r) n (CrCountry R)) (\<lambda>r.
         connS (\<lambda>m. case r of
           None \<Rightarrow> m\<lparr>CountryListStatus := STATUS_DEVICE_DATA_ERROR\<rparr>
         | Some (count, listed) \<Rightarrow> m\<lparr>CountryListCount := count,
             CountryListMembership := (if count \<noteq> 0 then if listed then 1 else 2 else CountryListMembership m)\<rparr>))
     else ret () }"

definition ConnectCountryList :: "'w env \<Rightarrow> CYW_CONNECT_REQUEST \<Rightarrow> ('w, unit) fwm" where
  "ConnectCountryList E R = do {
     step 17;
     fmod (\<lambda>c. c\<lparr>FirmwareError := 0, FirmwareReplyLength := 0\<rparr>);
     r \<leftarrow> Query E 261 (bytes32 1024 @ replicate 1020 0);
     CountryListSeen R r }"

text \<open>The country is set, with revision 0 and where the firmware rejects that with revision -1, and read back.\<close>

definition CountryReadback :: "'w env \<Rightarrow> CYW_CONNECT_REQUEST \<Rightarrow> ('w, NTSTATUS + bytes) fwm" where
  "CountryReadback E R = do {
     step 3;
     (st, country) \<leftarrow> GetVar E ''country'' (replicate 12 0);
     if \<not> NT_SUCCESS st then ret (Inl st) else do {
     n \<leftarrow> fasks FirmwareReplyLength;
     sound (Inl STATUS_UNSUCCESSFUL) (CywCountryMatches (CrCountry R) country n) (\<lambda>same.
     ret (if same then Inr country else Inl STATUS_DEVICE_DATA_ERROR)) } }"

definition CountrySet :: "'w env \<Rightarrow> CYW_CONNECT_REQUEST \<Rightarrow> ('w, NTSTATUS + bytes) fwm" where
  "CountrySet E R = do {
     step 2;
     connS (\<lambda>n. n\<lparr>CountrySetMode := 2\<rparr>);
     case CywCountryRequest (CrCountry R) of
       None \<Rightarrow> ret (Inl STATUS_INVALID_PARAMETER)
     | Some country \<Rightarrow> do {
         st \<leftarrow> SetVar E ''country'' country;
         if NT_SUCCESS st then CountryReadback E R
         else do {
           e \<leftarrow> fasks FirmwareError;
           connS (\<lambda>n. n\<lparr>CountryExplicitError := e\<rparr>);
           if st \<noteq> STATUS_UNSUCCESSFUL \<or> e \<noteq> 0xfffffffe then ret (Inl st)
           else sound (Inl STATUS_UNSUCCESSFUL) (CywPut32 country 4 0xffffffff) (\<lambda>country. do {
             connS (\<lambda>n. n\<lparr>CountrySetMode := 4\<rparr>);
             step 16;
             st \<leftarrow> SetVar E ''country'' country;
             if \<not> NT_SUCCESS st then ret (Inl st) else CountryReadback E R }) } } }"

definition ConnectCountry :: "'w env \<Rightarrow> CYW_CONNECT_REQUEST \<Rightarrow> ('w, NTSTATUS + bytes) fwm" where
  "ConnectCountry E R = do {
     step 14;
     (st, country) \<leftarrow> GetVar E ''country'' (replicate 12 0);
     if \<not> NT_SUCCESS st then ret (Inl st) else do {
     n \<leftarrow> fasks FirmwareReplyLength;
     if n \<noteq> 12 then ret (Inl STATUS_DEVICE_DATA_ERROR)
     else sound (Inl STATUS_UNSUCCESSFUL) (rdn country 0 2) (\<lambda>code.
       sound (Inl STATUS_UNSUCCESSFUL) (CywLe32 country 4) (\<lambda>rev. do {
       connS (\<lambda>m. m\<lparr>CountryBefore := code16 (code ! 0) (code ! 1), CountryBeforeRevision := rev\<rparr>);
       sound (Inl STATUS_UNSUCCESSFUL) (CywCountryMatches (CrCountry R) country n) (\<lambda>same.
       if same then do { connS (\<lambda>m. m\<lparr>CountrySetMode := 1\<rparr>); ret (Inr country) }
       else CountrySet E R) })) } }"

text \<open>Security settings and the key.\<close>

definition RsnElement :: bytes where
  "RsnElement = [0x30, 0x14, 1, 0, 0, 0x0f, 0xac, 4, 1, 0, 0, 0x0f, 0xac, 4, 1, 0, 0, 0x0f, 0xac, 2, 0, 0]"

definition PmkMessage :: "CYW_CONNECT_REQUEST \<Rightarrow> bytes option" where
  "PmkMessage R = do {
     pmk \<leftarrow> CywPut16 (replicate 132 0) 0 32;
     key \<leftarrow> rdn (CrPmk R) 0 32;
     wrn pmk 4 key }"

definition SsidMessage :: "CYW_CONNECT_REQUEST \<Rightarrow> bytes option" where
  "SsidMessage R = do {
     ssid \<leftarrow> CywPut32 (replicate 36 0) 0 (CrSsidLength R);
     name \<leftarrow> rdn (CrSsid R) 0 (unat (CrSsidLength R));
     wrn ssid 4 name }"

definition ConnectSecurity :: "'w env \<Rightarrow> CYW_CONNECT_REQUEST \<Rightarrow> ('w, NTSTATUS) fwm" where
  "ConnectSecurity E R = do {
     step 4; tryS (CywCmdInt E 20 1) (do {
     step 5; tryS (CywCmdInt E 22 0) (do {
     step 6; tryS (CywCmdInt E 134 4) (do {
     step 7; tryS (CywCmdInt E 165 0x80) (do {
     step 8; tryS (CywInt E ''mfp'' 0) (do {
     step 9; tryS (CywInt E ''sup_wpa'' 1) (do {
     step 10; tryS (SetVar E ''wpaie'' RsnElement) (do {
     step 11; tryS (sound STATUS_UNSUCCESSFUL (PmkMessage R) (Command E 268)) (do {
     step 12; tryS (CywCmdInt E 2 0) (do {
     step 18; CywApplyJoinPreference E }) }) }) }) }) }) }) }) }) }"

text \<open>The join itself, in the legacy way when the firmware has no join preference.\<close>

definition ConnectJoin :: "'w env \<Rightarrow> CYW_CONNECT_REQUEST \<Rightarrow> ('w, NTSTATUS) fwm" where
  "ConnectJoin E R = sound STATUS_UNSUCCESSFUL (SsidMessage R) (\<lambda>ssid. do {
     n \<leftarrow> fasks FcConn;
     if JoinPreferenceAccepted n then CywJoinSelectedBand E ssid
     else do {
       band 1 7; band 3 (JoinPreferenceStatus n); band 13 1;
       step 13;
       tryS (Command E 26 ssid) (do { netS E ConnectLegacy; ret STATUS_SUCCESS }) } })"

text \<open>From the label \<open>CountryVerified\<close> on.\<close>

definition ConnectApplied :: "'w env \<Rightarrow> CYW_CONNECT_REQUEST \<Rightarrow> bytes \<Rightarrow> ('w, NTSTATUS) fwm" where
  "ConnectApplied E R country =
     sound STATUS_UNSUCCESSFUL (rdn country 8 2) (\<lambda>code.
     sound STATUS_UNSUCCESSFUL (CywLe32 country 4) (\<lambda>rev. do {
     connS (\<lambda>n. n\<lparr>CountryApplied := code16 (code ! 0) (code ! 1), CountryRevision := rev\<rparr>);
     tryS (ConnectSecurity E R) (ConnectJoin E R) }))"

definition ConnectBody :: "'w env \<Rightarrow> CYW_CONNECT_REQUEST \<Rightarrow> ('w, NTSTATUS) fwm" where
  "ConnectBody E R = do {
     step 1;
     tryS (CywCmdInt E 3 0) (do {
     via (lmod (\<lambda>l. l\<lparr>LNet := (LNet l)\<lparr>NAssociated := False, NAuthorized := False\<rparr>\<rparr>));
     tryS (ConnectClm E) (do {
     ConnectCountryList E R;
     r \<leftarrow> ConnectCountry E R;
     case r of
       Inl st \<Rightarrow> ret st
     | Inr country \<Rightarrow> ConnectApplied E R country }) }) }"

definition CywConnect :: "'w env \<Rightarrow> CYW_CONNECT_REQUEST \<Rightarrow> ('w, NTSTATUS) fwm" where
  "CywConnect E R = do {
     ConnectReset E R;
     st \<leftarrow> ConnectBody E R;
     (if \<not> NT_SUCCESS st then do {
        band 1 (if st = STATUS_CANCELLED then 8 else 6); band 4 st;
        netS E (ConnectFailed st) }
      else ret ());
     ret st }"

section \<open>Frames of the command state\<close>

text \<open>The exchange leaves the record of the connection alone.\<close>

interpretation conn_kept: frame_relation "\<lambda>s t :: fwc \<times> 's. FcConn (fst t) = FcConn (fst s)"
  by unfold_locales simp_all

lemma conn_via [keeps_intros]: "keeps (\<lambda>s t. FcConn (fst t) = FcConn (fst s)) (via m)"
  by (simp add: keeps_def via_def split: prod.split)

lemma conn_fasks [keeps_intros]: "keeps (\<lambda>s t. FcConn (fst t) = FcConn (fst s)) (fasks f)"
  by (simp add: keeps_def fasks_def split: prod.split)

lemma conn_fmod: "(\<And>c. FcConn (f c) = FcConn c) \<Longrightarrow> keeps (\<lambda>s t. FcConn (fst t) = FcConn (fst s)) (fmod f)"
  by (simp add: keeps_def fmod_def split: prod.split)

lemma conn_CreditWait: "keeps (\<lambda>s t. FcConn (fst t) = FcConn (fst s)) (CreditWaitLoop n H D until)"
  by (induction n) (auto intro!: keeps_intros conn_kept.keeps_bind conn_kept.keeps_return conn_fmod)

lemma conn_TakeReply: "keeps (\<lambda>s t. FcConn (fst t) = FcConn (fst s)) (TakeReply command Set' rid data off len)"
  unfolding TakeReply_def by (intro keeps_intros conn_kept.keeps_bind conn_kept.keeps_return conn_fmod) simp_all

lemma conn_ReplyLoop: "keeps (\<lambda>s t. FcConn (fst t) = FcConn (fst s)) (ReplyLoop n H D until command Set' rid data)"
  by (induction n)
    (auto simp: ReplyFrame_def intro!: keeps_intros conn_kept.keeps_bind conn_kept.keeps_return conn_fmod conn_TakeReply)

lemma conn_Command: "keeps (\<lambda>s t. FcConn (fst t) = FcConn (fst s)) (CywFirmwareCommand n H D F command Set' data)"
  unfolding CywFirmwareCommand_def SendRequest_def Let_def
  by (intro keeps_intros conn_kept.keeps_bind conn_kept.keeps_return conn_fmod conn_CreditWait conn_ReplyLoop) simp_all

lemma conn_Iovar: "keeps (\<lambda>s t. FcConn (fst t) = FcConn (fst s)) (CywIovar n H D F name Set' data)"
  unfolding CywIovar_def IovarDone_def
  by (intro keeps_intros conn_kept.keeps_bind conn_kept.keeps_return conn_fmod conn_Command) simp_all

section \<open>What a sequence may rely on\<close>

definition fine :: "conn \<Rightarrow> fwc \<times> link \<times> 's \<Rightarrow> bool" where
  "fine n t \<longleftrightarrow> transport_ok (fst (snd t)) \<and> FcConn (fst t) = n"

lemma fine_Command:
  assumes "fine n s"
  shows "wp (CywFirmwareCommand k H D F command Set' data) (\<lambda>r t. fine n t \<and> length (snd r) = length data \<and>
    (NT_SUCCESS (fst r) \<longrightarrow> \<not> Set' \<longrightarrow> FirmwareReplyLength (fst t) \<le> length data)) s"
proof -
  have ok: "transport_ok (fst (snd s))" using assms by (simp add: fine_def)
  have "wp (CywFirmwareCommand k H D F command Set' data) (\<lambda>r t. commanded command Set' data (fst s) (fst (snd s)) r (fst t) (fst (snd t)) \<and>
      FcConn (fst t) = FcConn (fst s)) s"
    unfolding wp_conj using CywFirmwareCommand_wp [OF ok] wp_keeps [OF conn_Command] by blast
  then show ?thesis
    by (rule wp_mono) (use assms in \<open>auto simp: fine_def commanded_def appended_def answered_def Let_def split: if_splits\<close>)
qed

lemma fine_Iovar:
  assumes "fine n s"
  shows "wp (CywIovar k H D F name Set' data) (\<lambda>r t. fine n t \<and> length (snd r) = length data) s"
proof -
  have ok: "transport_ok (fst (snd s))" using assms by (simp add: fine_def)
  have "wp (CywIovar k H D F name Set' data) (\<lambda>r t. variable_done name Set' data (fst s) (fst (snd s)) r (fst (snd t)) \<and>
      FcConn (fst t) = FcConn (fst s)) s"
    unfolding wp_conj using CywIovar_wp [OF ok] wp_keeps [OF conn_Iovar] by blast
  then show ?thesis
    by (rule wp_mono) (use assms in \<open>auto simp: fine_def variable_done_def appended_def Let_def split: if_splits\<close>)
qed

end
