(* ===== verification/Connect_Safety.thy ===== *)
theory Connect_Safety
  imports Firmware_Sequences
begin

text \<open>
  The connection sequence is sound and fails closed: every function of the sequences keeps the transport sound, so no read or write of a
  reply leaves its buffer, and the result of \<open>CywConnect\<close> says what the host has been told.
\<close>

section \<open>What the sequences keep\<close>

text \<open>Between its steps a sequence relies on a sound transport and on the sixteen words of the band report; \<open>country\<close> and \<open>revision\<close> are
  the verified ones.\<close>

definition settled :: "u32 \<Rightarrow> u32 \<Rightarrow> fwc \<times> link \<times> 's \<Rightarrow> bool" where
  "settled country revision t \<longleftrightarrow> transport_ok (fst (snd t)) \<and> length (BandSelection (FcConn (fst t))) = 16 \<and>
     CountryApplied (FcConn (fst t)) = country \<and> CountryRevision (FcConn (fst t)) = revision"

abbreviation settledR :: "u32 \<Rightarrow> u32 \<Rightarrow> fwc \<times> link \<times> 's \<Rightarrow> fwc \<times> link \<times> 's \<Rightarrow> bool" where
  "settledR c v s t \<equiv> settled c v s \<longrightarrow> settled c v t"

interpretation settled: frame_relation "settledR c v" for c v
  by unfold_locales simp_all

lemmas settled_bind = settled.keeps_bind settled.keeps_return

lemma settled_tryS [keeps_intros]: "keeps (settledR c v) m \<Longrightarrow> keeps (settledR c v) k \<Longrightarrow> keeps (settledR c v) (tryS m k)"
  unfolding tryS_def by (intro keeps_intros settled_bind)

lemma keeps_wp: "(\<And>s. P s \<Longrightarrow> wp m (\<lambda>_. P) s) \<Longrightarrow> keeps (\<lambda>s t. P s \<longrightarrow> P t) m"
  by (simp add: keeps_def wp_def split_beta)

lemma settled_sound: "r \<noteq> None \<Longrightarrow> (\<And>x. r = Some x \<Longrightarrow> keeps (settledR c v) (k x)) \<Longrightarrow> keeps (settledR c v) (sound d r k)"
  by (cases r) (simp_all add: sound_def)

lemma wp_sound [wp_rules]:
  "wp (sound d r k) Q s = (case r of None \<Rightarrow> Q d (fst s, (fst (snd s))\<lparr>LFault := True\<rparr>, snd (snd s)) | Some x \<Rightarrow> wp (k x) Q s)"
  by (cases r) (simp_all add: sound_def wp_rules)

lemma wp_connS [wp_rules]: "wp (connS f) Q s = Q () ((fst s)\<lparr>FcConn := f (FcConn (fst s))\<rparr>, snd s)"
  by (simp add: connS_def wp_rules)

lemma settled_connS [keeps_intros]:
  "(\<And>n. length (BandSelection n) = 16 \<Longrightarrow> length (BandSelection (f n)) = 16 \<and> CountryApplied (f n) = CountryApplied n \<and>
     CountryRevision (f n) = CountryRevision n) \<Longrightarrow> keeps (settledR c v) (connS f)"
  by (rule keeps_wp) (auto simp: wp_rules settled_def)

lemma settled_fasks [keeps_intros]: "keeps (settledR c v) (fasks f)"
  by (rule keeps_wp) (simp add: wp_rules)

lemma settled_fmod: "(\<And>n. FcConn (f n) = FcConn n) \<Longrightarrow> keeps (settledR c v) (fmod f)"
  by (rule keeps_wp) (auto simp: wp_rules settled_def)

lemma settled_bus [keeps_intros]: "keeps (settledR c v) (via (bus m))"
  by (rule keeps_wp) (auto simp: wp_rules settled_def intro!: wp_any)

lemma settled_lasks [keeps_intros]: "keeps (settledR c v) (via (lasks f))"
  by (rule keeps_wp) (auto simp: wp_rules settled_def)

lemma settled_time [keeps_intros]: "keeps (settledR c v) (via (linkTime H))" "keeps (settledR c v) (via (netStop H))"
  unfolding link_defs by (intro keeps_intros)+

lemma settled_net: "keeps (settledR c v) (via (lmod (\<lambda>l. l\<lparr>LNet := f l\<rparr>)))"
  by (rule keeps_wp) (auto simp: wp_rules settled_def transport_ok_def link_base_ok_def)

lemma settled_Poll [keeps_intros]: "keeps (settledR c v) (via (CywPoll H D))"
  by (rule keeps_wp) (auto simp: wp_rules settled_def polled_def intro!: wp_mono [OF Poll_wp])

lemma settled_fine: "settled c v s \<longleftrightarrow> fine (FcConn (fst s)) s \<and> length (BandSelection (FcConn (fst s))) = 16 \<and>
     CountryApplied (FcConn (fst s)) = c \<and> CountryRevision (FcConn (fst s)) = v"
  by (auto simp: settled_def fine_def)

lemma settled_step [keeps_intros]: "keeps (settledR c v) (step k)"
  unfolding step_def by (intro keeps_intros) simp

lemma settled_band [keeps_intros]: "keeps (settledR c v) (band i x)"
  unfolding band_def by (intro keeps_intros settled_bind settled_net) simp

lemma settled_bandOr [keeps_intros]: "keeps (settledR c v) (bandOr x)"
  unfolding bandOr_def by (intro keeps_intros) simp

lemma settled_netS [keeps_intros]: "keeps (settledR c v) (netS E f)"
  unfolding netS_def by (intro keeps_intros settled_bind settled_net)

text \<open>Commands, with what a caller knows of the reply.\<close>

lemma settled_call:
  assumes "settled c v s"
    and "\<And>st d t. settled c v t \<Longrightarrow> FcConn (fst t) = FcConn (fst s) \<Longrightarrow> length d = length data \<Longrightarrow>
      (NT_SUCCESS st \<longrightarrow> \<not> Set' \<longrightarrow> FirmwareReplyLength (fst t) \<le> length data) \<Longrightarrow> Q (st, d) t"
  shows "wp (CywFirmwareCommand n H D F command Set' data) Q s"
  by (rule wp_mono [OF fine_Command [of "FcConn (fst s)"]]) (use assms in \<open>auto simp: settled_fine fine_def\<close>)

lemma settled_variable:
  assumes "settled c v s"
    and "\<And>st d t. settled c v t \<Longrightarrow> FcConn (fst t) = FcConn (fst s) \<Longrightarrow> length d = length data \<Longrightarrow> Q (st, d) t"
  shows "wp (CywIovar n H D F name Set' data) Q s"
  by (rule wp_mono [OF fine_Iovar [of "FcConn (fst s)"]]) (use assms in \<open>auto simp: settled_fine fine_def\<close>)

lemma settled_Command [keeps_intros]: "keeps (settledR c v) (Command E command data)" "keeps (settledR c v) (Query E command data)"
  by (rule keeps_wp, auto simp: Command_def Query_def wp_rules intro!: settled_call)+

lemma settled_Var [keeps_intros]: "keeps (settledR c v) (SetVar E name data)" "keeps (settledR c v) (GetVar E name data)"
  by (rule keeps_wp, auto simp: SetVar_def GetVar_def wp_rules intro!: settled_variable)+

lemma settled_Int [keeps_intros]: "keeps (settledR c v) (CywInt E name x)" "keeps (settledR c v) (CywCmdInt E command x)"
  unfolding CywInt_def CywCmdInt_def by (intro keeps_intros)+

lemma settled_Unsupported [keeps_intros]: "keeps (settledR c v) (Unsupported st)"
  unfolding Unsupported_def by (intro keeps_intros settled_bind)

lemma settled_JoinPreference [keeps_intros]: "keeps (settledR c v) (CywSetJoinPreference E x)"
  unfolding CywSetJoinPreference_def by (intro keeps_intros settled_bind settled_fmod) simp_all

lemma settled_Cancelled [keeps_intros]: "keeps (settledR c v) (CywBandCancelled E)"
  unfolding CywBandCancelled_def by (intro keeps_intros settled_bind)

section \<open>Joining keeps the state sound and succeeds only on a link that is up\<close>

lemma kept_wp:
  assumes "keeps (\<lambda>s t. P s \<longrightarrow> P t) m" "P s" "\<And>x t. P t \<Longrightarrow> Q x t"
  shows "wp m Q s"
  by (rule wp_mono [OF wp_keeps [OF assms(1)]]) (use assms(2, 3) in blast)

lemmas settled_wp = kept_wp [where P = "settled c v" for c v]

lemma settled_BandReply:
  assumes "settled c v s" "NT_SUCCESS st \<longrightarrow> (\<exists>g. good (FirmwareReplyLength (fst s)) d = Some g)" "keeps (settledR c v) (k d)"
  shows "wp (BandReply st d good k) (\<lambda>_. settled c v) s"
  using assms by (auto simp: BandReply_def wp_rules intro: settled_wp)

lemma settled_Query:
  assumes "\<And>n d. n \<le> length data \<Longrightarrow> length d = length data \<Longrightarrow> \<exists>g. good n d = Some g"
    and "\<And>d. length d = length data \<Longrightarrow> keeps (settledR c v) (k d)"
  shows "keeps (settledR c v) (do { (st, d) \<leftarrow> Query E command data; BandReply st d good k })"
  by (rule keeps_wp) (auto simp: Query_def wp_rules wp_prod intro!: settled_call settled_BandReply assms)

lemma settled_BandGet:
  assumes "\<And>n d. n \<le> length data \<Longrightarrow> length d = length data \<Longrightarrow> \<exists>g. good n d = Some g"
    and "\<And>d. length d = length data \<Longrightarrow> keeps (settledR c v) (k d)"
  shows "keeps (settledR c v) (BandGet E deadline command data good k)"
  unfolding BandGet_def by (rule settled.keeps_bind [OF settled_Cancelled])
    (intro keeps_if settled.keeps_return settled.keeps_bind [OF settled_time(1)] settled_Query assms)

lemma settled_Verify [keeps_intros]: "keeps (settledR c v) (CywBandVerify E deadline)"
  unfolding CywBandVerify_def
  by (intro settled_BandGet keeps_intros settled_bind settled_sound)
    (auto simp: cstr_def intro!: CywBandStationAuthorized_safe CywBandReadback_safe)

lemma settled_yields:
  assumes "keeps (settledR c v) m" "yields P m" "\<And>x. P x \<Longrightarrow> keeps (settledR c v) (f x)"
  shows "keeps (settledR c v) (State_Monad.bind m f)"
proof (rule keeps_wp)
  fix s :: "fwc \<times> link \<times> 'a"
  assume s: "settled c v s"
  have "wp m (\<lambda>x _. P x) s" by (rule wp_yields [OF assms(2)])
  moreover have "wp m (\<lambda>_ t. settled c v t) s" by (rule settled_wp [OF assms(1) s])
  ultimately have "wp m (\<lambda>x t. P x \<and> settled c v t) s" by (simp add: wp_conj)
  then show "wp (State_Monad.bind m f) (\<lambda>_. settled c v) s"
    unfolding wp_bind by (rule wp_mono) (auto intro: settled_wp assms(3))
qed

lemma yields_sound [yields_intros]: "P d \<Longrightarrow> (\<And>x. r = Some x \<Longrightarrow> yields P (k x)) \<Longrightarrow> yields P (sound d r k)"
  by (cases r) (auto simp: sound_def intro!: yields_intros)

lemma yields_option [yields_intros]:
  "yields P m \<Longrightarrow> (\<And>x. yields P (f x)) \<Longrightarrow> yields P (case r of None \<Rightarrow> m | Some x \<Rightarrow> f x)"
  by (cases r) simp_all

text \<open>A verification that succeeds has four words to report.\<close>

abbreviation four_words :: "NTSTATUS \<times> u32 list \<Rightarrow> bool" where
  "four_words r \<equiv> NT_SUCCESS (fst r) \<longrightarrow> length (snd r) = 4"

lemma four_BandGet: "(\<And>d. yields four_words (k d)) \<Longrightarrow> yields four_words (BandGet E deadline command data good k)"
  unfolding BandGet_def BandReply_def by (intro yields_intros) simp_all

lemma four_Verify [yields_intros]: "yields four_words (CywBandVerify E deadline)"
  unfolding CywBandVerify_def by (intro four_BandGet yields_intros) simp_all

lemma four_WaitLoop: "yields four_words (BandWaitLoop n E deadline)"
  by (induction n) (auto intro!: yields_intros split: if_splits)

lemma settled_WaitLoop: "keeps (settledR c v) (BandWaitLoop n E deadline)"
  by (induction n) (auto intro!: keeps_intros settled_bind settled_fmod)

lemma settled_Wait:
  assumes "at \<le> 12"
  shows "keeps (settledR c v) (CywBandWait E deadline at)"
  unfolding CywBandWait_def
  by (rule settled_yields [OF settled_WaitLoop four_WaitLoop])
    (use assms in \<open>auto intro!: keeps_intros settled_bind\<close>)

lemma settled_and:
  assumes "keeps (settledR c v) m" "settled c v s" "wp m Q s"
  shows "wp m (\<lambda>x t. settled c v t \<and> Q x t) s"
  unfolding wp_conj by (rule conjI [OF settled_wp [OF assms(1, 2)] assms(3)])

lemma settled_JoinFirst: "keeps (settledR c v) (JoinFirst E ssid deadline)"
  unfolding JoinFirst_def by (intro keeps_intros settled_bind settled_net settled_Wait) simp_all

lemma settled_JoinObserve: "keeps (settledR c v) (JoinObserve E deadline fallback)"
  unfolding JoinObserve_def
  by (intro keeps_if settled.keeps_return settled.keeps_bind [OF settled_bandOr] settled.keeps_bind [OF settled_Cancelled]
      settled.keeps_bind [OF settled_step] settled_yields [OF settled_Verify four_Verify])
    (auto intro!: keeps_if settled.keeps_bind [OF settled_band] settled.keeps_return settled.keeps_bind [OF settled_connS])

lemma settled_JoinRestore: "keeps (settledR c v) (JoinRestore E deadline fallback)"
  unfolding JoinRestore_def by (intro keeps_intros settled_bind settled_JoinObserve)

lemma settled_JoinAgain: "keeps (settledR c v) (JoinAgain E ssid)"
  unfolding JoinAgain_def Let_def by (intro keeps_intros settled_bind settled_net settled_Wait) simp_all

lemma settled_JoinConfirm: "keeps (settledR c v) (JoinConfirm E)"
  unfolding JoinConfirm_def by (intro keeps_intros settled_bind)

lemma settled_JoinLeave: "keeps (settledR c v) (JoinLeave E started initial st)"
  unfolding JoinLeave_def by (intro keeps_intros settled_bind)

text \<open>Only \<open>JoinConfirm\<close> ends in success.\<close>

abbreviation leaves_failing :: "NTSTATUS + 'x \<Rightarrow> bool" where
  "leaves_failing r \<equiv> (case r of Inl st \<Rightarrow> \<not> NT_SUCCESS st | Inr _ \<Rightarrow> True)"

lemma JoinFirst_fails: "yields (\<lambda>r. case r of Inl (_, st) \<Rightarrow> \<not> NT_SUCCESS st | Inr _ \<Rightarrow> True) (JoinFirst E ssid deadline)"
  unfolding JoinFirst_def by (intro yields_intros) auto

lemma JoinObserve_fails: "yields leaves_failing (JoinObserve E deadline fallback)"
  unfolding JoinObserve_def by (intro yields_intros) auto

text \<open>A preference is accepted exactly when its command succeeded.\<close>

lemma SetJoinPreference_wp:
  "wp (CywSetJoinPreference E x) (\<lambda>_ t. JoinPreferenceAccepted (FcConn (fst t)) = NT_SUCCESS (JoinPreferenceStatus (FcConn (fst t)))) s"
  unfolding CywSetJoinPreference_def Unsupported_def wp_rules by (rule wp_any) simp

lemma JoinRestore_fails: "wp (JoinRestore E deadline fallback) (\<lambda>r _. leaves_failing r) s"
  unfolding JoinRestore_def step_def wp_rules
  by (rule wp_mono [OF SetJoinPreference_wp]) (auto simp: wp_rules intro: wp_yields [OF JoinObserve_fails])

definition up_if_ok :: "NTSTATUS \<Rightarrow> fwc \<times> link \<times> 's \<Rightarrow> bool" where
  "up_if_ok st t \<longleftrightarrow> (NT_SUCCESS st \<longrightarrow> isUp (fst (snd t)))"

lemma up_if_ok_failed: "\<not> NT_SUCCESS st \<Longrightarrow> up_if_ok st t"
  by (simp add: up_if_ok_def)

lemma JoinConfirm_up: "wp (JoinConfirm E) up_if_ok s"
  unfolding JoinConfirm_def bandOr_def wp_rules
  by (rule wp_any) (auto simp: wp_rules up_if_ok_def)

lemma JoinRest_wp:
  assumes "settled c v s"
  shows "wp (JoinRest E ssid deadline fallback) (\<lambda>st t. settled c v t \<and> up_if_ok st t) s"
proof -
  have confirm: "wp (JoinConfirm E) (\<lambda>st t. settled c v t \<and> up_if_ok st t) t" if "settled c v t" for t :: "fwc \<times> link \<times> adapter \<times> 'a"
    by (rule settled_and [OF settled_JoinConfirm that JoinConfirm_up])
  have again: "wp (tryS (JoinAgain E ssid) (JoinConfirm E)) (\<lambda>st t. settled c v t \<and> up_if_ok st t) t" if "settled c v t"
    for t :: "fwc \<times> link \<times> adapter \<times> 'a"
    unfolding wp_rules by (rule settled_wp [OF settled_JoinAgain that]) (auto simp: up_if_ok_failed confirm)
  have stay: "wp (band i x) (\<lambda>_. wp (JoinConfirm E) (\<lambda>st t. settled c v t \<and> up_if_ok st t)) t" if "settled c v t"
    for i x and t :: "fwc \<times> link \<times> adapter \<times> 'a"
    by (rule settled_wp [OF settled_band that]) (rule confirm)
  show ?thesis
    unfolding JoinRest_def wp_bind
    by (rule wp_mono [OF settled_and [OF settled_JoinRestore assms JoinRestore_fails]])
      (auto simp: wp_return wp_bind wp_fasks up_if_ok_failed split: sum.split bool.split intro: again stay)
qed

text \<open>The link is released to the host, which is told what it is.\<close>

definition published :: "fwc \<times> link \<times> 's \<Rightarrow> bool" where
  "published t \<longleftrightarrow> \<not> NSelectingBand (LNet (fst (snd t))) \<and> (AMedia (LNet (fst (snd t))) = MediaConnected \<longleftrightarrow> isUp (fst (snd t))) \<and>
     (JoinPreferenceAccepted (FcConn (fst t)) \<longrightarrow> isUp (fst (snd t)))"

text \<open>A change of the control plane, whatever the stop flags are at that moment.\<close>

lemma netS_wp:
  assumes "\<And>a b x. Q () (fst s, (fst (snd s))\<lparr>LNet := f ((LNet (fst (snd s)))\<lparr>AIoStopped := a, NStop := b\<rparr>)\<rparr>, x)"
  shows "wp (netS E f) Q s"
  unfolding netS_def wp_rules link_defs
  by (rule wp_any, rule wp_any [where m = "world f" for f, unfolded wp_rules]) (simp add: assms)

lemma up_band: "keeps (\<lambda>s t. up_if_ok st s \<longrightarrow> up_if_ok st t) (band i x)"
  by (rule keeps_wp) (auto simp: band_def wp_rules up_if_ok_def isUp_def)

lemmas up_wp = kept_wp [where P = "up_if_ok st" for st]

lemma JoinLeave_wp:
  assumes "up_if_ok st s"
  shows "wp (JoinLeave E started initial st) (\<lambda>r t. r = st \<and> (NT_SUCCESS st \<longrightarrow> published t)) s"
proof -
  have leave: "wp (netS E (JoinExit st stage)) (\<lambda>_. wp (ret st) (\<lambda>r t. r = st \<and> (NT_SUCCESS st \<longrightarrow> published t))) t"
    if "up_if_ok st t" for stage and t :: "fwc \<times> link \<times> adapter \<times> 'a"
    using that by (intro netS_wp)
      (auto simp: wp_rules up_if_ok_def published_def isUp_def JoinExit_def Let_def CywLink_media)
  have time: "keeps (\<lambda>s t. up_if_ok st s \<longrightarrow> up_if_ok st t) (via (linkTime H))" for H :: "'a hw"
    by (rule keeps_wp) (auto simp: wp_rules link_defs up_if_ok_def intro!: wp_any)
  have failed: "wp (if \<not> NT_SUCCESS st then band 1 x else ret ()) Q t"
    if "up_if_ok st t" "\<And>t. up_if_ok st t \<Longrightarrow> Q () t" for x Q and t :: "fwc \<times> link \<times> adapter \<times> 'a"
    using that by (auto simp: wp_rules intro: up_wp [OF up_band])
  show ?thesis
    unfolding JoinLeave_def wp_bind wp_fasks
    by (intro up_wp [OF up_band] up_wp [OF time] failed leave) (auto intro: assms)
qed

lemma CywJoinSelectedBand_wp:
  assumes "settled c v s"
  shows "wp (CywJoinSelectedBand E ssid) (\<lambda>st t. settled c v t \<and> (NT_SUCCESS st \<longrightarrow> published t)) s"
proof -
  have leave: "wp (JoinLeave E started initial st) (\<lambda>st t. settled c v t \<and> (NT_SUCCESS st \<longrightarrow> published t)) t"
    if "settled c v t" "up_if_ok st t" for started initial st and t :: "fwc \<times> link \<times> adapter \<times> 'a"
    using settled_and [OF settled_JoinLeave that(1) JoinLeave_wp [OF that(2)]] by (rule wp_mono) auto
  have rest: "wp (JoinRest E ssid deadline fallback) (\<lambda>st. wp (JoinLeave E started initial st)
      (\<lambda>st t. settled c v t \<and> (NT_SUCCESS st \<longrightarrow> published t))) t"
    if "settled c v t" for started initial deadline fallback and t :: "fwc \<times> link \<times> adapter \<times> 'a"
    by (rule wp_mono [OF JoinRest_wp [OF that]]) (auto intro: leave)
  have first: "wp (JoinFirst E ssid deadline) (\<lambda>r t. settled c v t \<and> (case r of Inl (_, st) \<Rightarrow> \<not> NT_SUCCESS st | Inr _ \<Rightarrow> True)) t"
    if "settled c v t" for deadline and t :: "fwc \<times> link \<times> adapter \<times> 'a"
    by (rule settled_and [OF settled_JoinFirst that wp_yields [OF JoinFirst_fails]])
  show ?thesis
    unfolding CywJoinSelectedBand_def Let_def wp_bind
    by (rule settled_wp [OF settled_time(1) assms], rule wp_mono [OF first])
      (auto simp: wp_rules up_if_ok_failed split: sum.splits intro!: leave rest)
qed

section \<open>Connecting\<close>

lemma settled_GetVar:
  assumes "\<And>st d. length d = length data \<Longrightarrow> keeps (settledR c v) (k (st, d))"
  shows "keeps (settledR c v) (State_Monad.bind (GetVar E name data) k)"
  by (rule keeps_wp) (auto simp: GetVar_def wp_rules intro!: settled_variable settled_wp [OF assms])

lemma settled_ConnectClm: "keeps (settledR c v) (ConnectClm E)"
  unfolding ConnectClm_def
  by (intro settled.keeps_bind [OF settled_step] settled_GetVar)
    (auto intro!: keeps_intros settled_bind settled_sound simp: CywLe32_def rd8_def)

lemma settled_CountryListSeen:
  assumes "settled c v s" "length (snd r) = 1024" "NT_SUCCESS (fst r) \<longrightarrow> FirmwareReplyLength (fst s) \<le> 1024"
  shows "wp (CountryListSeen R r) (\<lambda>_. settled c v) s"
proof -
  have "\<exists>x. CywCountryList (snd r) (FirmwareReplyLength (fst s)) (CrCountry R) = Some x" if "NT_SUCCESS (fst r)"
    using CywCountryList_safe [of "FirmwareReplyLength (fst s)" "snd r" "CrCountry R"] assms that by simp
  then show ?thesis
    using assms(1) by (auto simp: CountryListSeen_def wp_rules settled_def split: option.split)
qed

lemma settled_CountryList: "keeps (settledR c v) (ConnectCountryList E R)"
proof -
  have "keeps (settledR c v) (do { r \<leftarrow> Query E 261 (bytes32 1024 @ replicate 1020 0); CountryListSeen R r })"
    by (rule keeps_wp)
      (auto simp: Query_def wp_rules bytes32_def intro!: settled_call settled_CountryListSeen)
  then show ?thesis
    unfolding ConnectCountryList_def by (intro settled.keeps_bind [OF settled_step] settled.keeps_bind [OF settled_fmod]) simp_all
qed

text \<open>The country that was read back is the requested one, with a revision that is not negative.\<close>

lemma CountryMatches_safe: "length d = 12 \<Longrightarrow> CywCountryMatches a d n \<noteq> None"
  by (auto simp: CywCountryMatches_def CywLe32_def rd8_def rdn_def split: prod.split)

lemma CountryMatchesD:
  assumes "CywCountryMatches (a, b) d n = Some True"
  shows "\<exists>code rev. rdn d 8 2 = Some code \<and> code ! 0 = a \<and> code ! 1 = b \<and> CywLe32 d 4 = Some rev \<and> rev AND 0x80000000 = 0"
  using assms by (auto simp: CywCountryMatches_def rdn_def sub_bytes_def bind_eq_Some_conv split: if_splits)

definition confirmed :: "CYW_CONNECT_REQUEST \<Rightarrow> NTSTATUS + bytes \<Rightarrow> bool" where
  "confirmed R r \<longleftrightarrow> (case r of Inl st \<Rightarrow> \<not> NT_SUCCESS st | Inr d \<Rightarrow> \<exists>n. CywCountryMatches (CrCountry R) d n = Some True)"

lemma confirmed_Readback: "yields (confirmed R) (CountryReadback E R)"
  unfolding CountryReadback_def by (intro yields_intros) (auto simp: confirmed_def)

lemma confirmed_Set: "yields (confirmed R) (CountrySet E R)"
  unfolding CountrySet_def
  by (intro yields_intros confirmed_Readback) (auto simp: confirmed_def)

lemma confirmed_Country: "yields (confirmed R) (ConnectCountry E R)"
  unfolding ConnectCountry_def by (intro yields_intros confirmed_Set) (auto simp: confirmed_def)

lemma settled_Readback: "keeps (settledR c v) (CountryReadback E R)"
  unfolding CountryReadback_def
  by (intro settled.keeps_bind [OF settled_step] settled_GetVar)
    (auto intro!: keeps_intros settled_bind settled_sound CountryMatches_safe)

lemma CountryRequest_room: "CywCountryRequest a = Some d \<Longrightarrow> CywPut32 d 4 x \<noteq> None"
  by (auto simp: CywCountryRequest_def CywPut32_def wr8_def split: prod.splits if_splits)

lemma settled_CountrySet: "keeps (settledR c v) (CountrySet E R)"
proof (cases "CywCountryRequest (CrCountry R)")
  case None
  then show ?thesis unfolding CountrySet_def by (simp, intro keeps_intros settled_bind) simp
next
  case (Some country)
  have room: "CywPut32 country 4 x \<noteq> None" for x by (rule CountryRequest_room [OF Some])
  show ?thesis
    unfolding CountrySet_def Some option.case
    by (intro keeps_intros settled_bind settled_sound room settled_Readback) simp_all
qed

lemma settled_Country: "keeps (settledR c v) (ConnectCountry E R)"
  unfolding ConnectCountry_def
  by (intro settled.keeps_bind [OF settled_step] settled_GetVar)
    (auto intro!: keeps_intros settled_bind settled_sound CountryMatches_safe settled_CountrySet simp: rdn_def CywLe32_def rd8_def)

text \<open>A validated request fits the messages.\<close>

definition request_ok :: "CYW_CONNECT_REQUEST \<Rightarrow> bool" where
  "request_ok R \<longleftrightarrow> CywValidConnect R \<and> length (CrSsid R) = 32 \<and> length (CrPmk R) = 32"

lemma PmkMessage_fits: "request_ok R \<Longrightarrow> PmkMessage R \<noteq> None"
  by (auto simp: request_ok_def PmkMessage_def CywPut16_def wr8_def rdn_def wrn_def)

lemma SsidMessage_fits:
  assumes "request_ok R"
  shows "\<exists>m. SsidMessage R = Some m"
proof -
  have "unat (CrSsidLength R) \<le> 32" using assms by (simp add: request_ok_def CywValidConnect_def not_less word_le_nat_alt)
  then show ?thesis using assms by (auto simp: request_ok_def SsidMessage_def CywPut32_def wr8_def rdn_def wrn_def sub_bytes_def)
qed

lemma settled_Security:
  assumes "request_ok R"
  shows "keeps (settledR c v) (ConnectSecurity E R)"
  unfolding ConnectSecurity_def CywApplyJoinPreference_def
  by (intro keeps_intros settled_bind settled_sound PmkMessage_fits assms)

text \<open>The legacy join leaves the preference unaccepted and publishes the state of the flags.\<close>

definition legacy :: "fwc \<times> link \<times> 's \<Rightarrow> bool" where
  "legacy t \<longleftrightarrow> \<not> JoinPreferenceAccepted (FcConn (fst t))"

lemma settled_legacy_Command:
  assumes "settled c v s" "legacy s" "\<And>st t. settled c v t \<Longrightarrow> legacy t \<Longrightarrow> Q st t"
  shows "wp (Command E command data) Q s"
  unfolding Command_def wp_rules by (rule settled_call [OF assms(1)]) (use assms(2, 3) in \<open>auto simp: wp_rules legacy_def\<close>)

lemma legacy_keeps: "keeps (\<lambda>s t. legacy s \<longrightarrow> legacy t) (band i x)" "keeps (\<lambda>s t. legacy s \<longrightarrow> legacy t) (step k)"
  by (rule keeps_wp, auto simp: band_def step_def wp_rules legacy_def)+

lemma keeps_both:
  "keeps (\<lambda>s t. P s \<longrightarrow> P t) m \<Longrightarrow> keeps (\<lambda>s t. Q s \<longrightarrow> Q t) m \<Longrightarrow> keeps (\<lambda>s t. P s \<and> Q s \<longrightarrow> P t \<and> Q t) m"
  by (simp add: keeps_def)

lemma legacy_published: "legacy s \<Longrightarrow> wp (netS E ConnectLegacy) (\<lambda>_. published) s"
  by (intro netS_wp) (auto simp: legacy_def published_def isUp_def ConnectLegacy_def Let_def CywLink_media)

lemma ConnectJoin_wp:
  assumes "settled c v s" "request_ok R"
  shows "wp (ConnectJoin E R) (\<lambda>st t. settled c v t \<and> (NT_SUCCESS st \<longrightarrow> published t)) s"
proof -
  let ?Q = "\<lambda>st t. settled c v t \<and> (NT_SUCCESS st \<longrightarrow> published t)"
  obtain ssid where m: "SsidMessage R = Some ssid" using SsidMessage_fits [OF assms(2)] by blast
  note both = kept_wp [where P = "\<lambda>s. settled c v s \<and> legacy s", OF keeps_both]
  have publish: "wp (netS E ConnectLegacy) (\<lambda>_. wp (ret STATUS_SUCCESS) ?Q) t" if "settled c v t" "legacy t" for t
    unfolding wp_return by (rule wp_mono [OF settled_and [OF settled_netS that(1) legacy_published [OF that(2)]]]) auto
  have join: "wp (tryS (Command E 26 ssid) (do { netS E ConnectLegacy; ret STATUS_SUCCESS })) ?Q t" if "settled c v t \<and> legacy t" for t
    unfolding wp_tryS wp_bind by (rule settled_legacy_Command) (use that publish in auto)
  show ?thesis
    unfolding ConnectJoin_def m wp_sound option.case wp_bind wp_fasks wp_if
    by (intro conjI if_both CywJoinSelectedBand_wp assms(1) both [OF settled_band legacy_keeps(1)] both [OF settled_step legacy_keeps(2)] join)
      (use assms in \<open>auto simp: legacy_def\<close>)
qed

text \<open>The country in the report is the requested one.\<close>

definition country_ok :: "CYW_CONNECT_REQUEST \<Rightarrow> u32 \<Rightarrow> u32 \<Rightarrow> bool" where
  "country_ok R c v \<longleftrightarrow> c = code16 (fst (CrCountry R)) (snd (CrCountry R)) \<and> v AND 0x80000000 = 0"

definition connected :: "CYW_CONNECT_REQUEST \<Rightarrow> NTSTATUS \<Rightarrow> fwc \<times> link \<times> 's \<Rightarrow> bool" where
  "connected R st t \<longleftrightarrow> transport_ok (fst (snd t)) \<and>
     (NT_SUCCESS st \<longrightarrow> published t \<and> country_ok R (CountryApplied (FcConn (fst t))) (CountryRevision (FcConn (fst t))))"

lemma settled_connected: "settled c v t \<Longrightarrow> \<not> NT_SUCCESS st \<Longrightarrow> connected R st t"
  by (simp add: settled_def connected_def)

lemma ConnectApplied_wp:
  assumes s: "settled c v s" and R: "request_ok R" and n: "CywCountryMatches (CrCountry R) d n = Some True"
  shows "wp (ConnectApplied E R d) (connected R) s"
proof -
  obtain code rev where m: "rdn d 8 2 = Some code" "CywLe32 d 4 = Some rev"
    and ok: "country_ok R (code16 (code ! 0) (code ! 1)) rev"
    using n CountryMatchesD [of "fst (CrCountry R)" "snd (CrCountry R)" d n] by (auto simp: country_ok_def)
  let ?c = "code16 (code ! 0) (code ! 1)"
  have join: "wp (ConnectJoin E R) (connected R) t" if "settled ?c rev t" for t
    by (rule wp_mono [OF ConnectJoin_wp [OF that R]]) (use ok in \<open>auto simp: settled_def connected_def\<close>)
  have "wp (tryS (ConnectSecurity E R) (ConnectJoin E R)) (connected R) t" if "settled ?c rev t" for t
    unfolding wp_tryS by (rule settled_wp [OF settled_Security [OF R] that]) (auto intro: join settled_connected)
  then show ?thesis using s by (simp add: ConnectApplied_def m wp_rules settled_def)
qed

lemma ConnectBody_wp:
  assumes s: "settled c v s" and R: "request_ok R"
  shows "wp (ConnectBody E R) (connected R) s"
proof -
  have country: "wp (ConnectCountry E R) (\<lambda>r t. settled c v t \<and> confirmed R r) t" if "settled c v t" for t
    by (rule settled_and [OF settled_Country that wp_yields [OF confirmed_Country]])
  show ?thesis
    unfolding ConnectBody_def wp_bind wp_tryS
    by (intro settled_wp [OF settled_step s] settled_wp [OF settled_Int(2)] if_both settled_wp [OF settled_net] settled_wp [OF settled_ConnectClm]
        settled_wp [OF settled_CountryList] wp_mono [OF country])
      (auto simp: confirmed_def wp_return split: sum.splits intro: settled_connected ConnectApplied_wp R)
qed

text \<open>On a failure nothing is left up: no association, no authorization, the hold kept and the host told that the medium is gone.\<close>

definition closed :: "link \<Rightarrow> bool" where
  "closed l \<longleftrightarrow> \<not> NAssociated (LNet l) \<and> \<not> NAuthorized (LNet l) \<and> NSelectingBand (LNet l) \<and> AMedia (LNet l) = MediaDisconnected"

lemma ConnectFailed_closed: "wp (netS E (ConnectFailed st)) (\<lambda>_ t. closed (fst (snd t))) s"
  by (intro netS_wp) (simp add: closed_def ConnectFailed_def CywLink_media)

lemma ConnectReset_settled:
  assumes "transport_ok (fst (snd s))"
  shows "wp (ConnectReset E R) (\<lambda>_. settled 0 0xffffffff) s"
  unfolding ConnectReset_def wp_bind
  by (rule netS_wp) (use assms in \<open>simp add: wp_rules settled_def transport_ok_def link_base_ok_def\<close>)

lemma transport_band: "keeps (\<lambda>s t. transport_ok (fst (snd s)) \<longrightarrow> transport_ok (fst (snd t))) (band i x)"
  by (rule keeps_wp) (auto simp: band_def wp_rules transport_ok_def link_base_ok_def)

lemma transport_netS: "keeps (\<lambda>s t. transport_ok (fst (snd s)) \<longrightarrow> transport_ok (fst (snd t))) (netS E f)"
  by (rule keeps_wp) (auto simp: transport_ok_def link_base_ok_def intro!: netS_wp)

lemmas transport_wp = kept_wp [where P = "\<lambda>t. transport_ok (fst (snd t))"]

lemma connected_transport: "connected R st t \<Longrightarrow> transport_ok (fst (snd t))"
  by (simp add: connected_def)

lemma CywConnect_wp:
  assumes ok: "transport_ok (fst (snd s))" and R: "request_ok R"
  shows "wp (CywConnect E R) (\<lambda>st t. connected R st t \<and> (NT_SUCCESS st \<or> closed (fst (snd t)))) s"
proof -
  have final: "wp (netS E (ConnectFailed st)) (\<lambda>_. wp (ret st) (\<lambda>st t. connected R st t \<and> (NT_SUCCESS st \<or> closed (fst (snd t))))) t"
    if "transport_ok (fst (snd t))" "\<not> NT_SUCCESS st" for st t
  proof -
    have "wp (netS E (ConnectFailed st)) (\<lambda>_ t. transport_ok (fst (snd t)) \<and> closed (fst (snd t))) t"
      unfolding wp_conj by (rule conjI [OF transport_wp [OF transport_netS that(1)] ConnectFailed_closed])
    then show ?thesis by (rule wp_mono) (use that(2) in \<open>auto simp: wp_return connected_def\<close>)
  qed
  note failed = transport_wp [OF transport_band] final
  have body: "wp (ConnectBody E R) (connected R) t" if "settled 0 0xffffffff t" for t
    by (rule ConnectBody_wp [OF that R])
  show ?thesis
    unfolding CywConnect_def wp_bind wp_if
    by (rule wp_mono [OF ConnectReset_settled [OF ok]], rule wp_mono [OF body], assumption, intro if_both failed)
      (auto simp: wp_return intro: connected_transport)
qed

section \<open>Connecting fails closed\<close>

definition sample_connect :: CYW_CONNECT_REQUEST where
  "sample_connect = \<lparr>CrVersion = 1, CrSsidLength = 4, CrCountry = (68, 69), CrReserved = (0, 0), CrSsid = [72, 79, 77, 69] @ replicate 28 0,
     CrPmk = replicate 32 7\<rparr>"

definition sample_env :: "nat env" where
  "sample_env = \<lparr>fuel = 1000, hwE = ticking_hw, ndisE = ticking_ndis, filesE = ticking_files, asked = \<lambda>n. (False, n), txGlom2 = True\<rparr>"

text \<open>
  C4 (safety). Connecting fails closed.  For every validated request and whatever the firmware answers, every read of a reply and every write of a
  message stays inside of its buffer.  If \<open>CywConnect\<close> succeeds, the country it applied is the requested one with a revision that is not negative,
  the band-selection hold is released, the host was told that the medium is connected exactly if the link is associated and authorized, and a join
  with an accepted preference is one whose link is up.  If it fails, the link is neither associated nor authorized, the hold stays, and the medium is
  reported as disconnected.
\<close>

theorem CywConnect_fails_closed:
  assumes "transport_ok l" "CywValidConnect R" "length (CrSsid R) = 32" "length (CrPmk R) = 32"
  shows "case run_state (CywConnect E R) (c, l, s) of (st, c', l', t) \<Rightarrow> transport_ok l' \<and>
    (if NT_SUCCESS st then country_ok R (CountryApplied (FcConn c')) (CountryRevision (FcConn c')) \<and> published (c', l', t) else closed l')"
  using CywConnect_wp [of "(c, l, s)" R E] assms by (auto simp: request_ok_def wp_def connected_def split: prod.splits)

theorem CywConnect_fails_closed_witness:
  "case run_state (CywConnect sample_env sample_connect) (zero_fwc, sample_link, zero_adapter, 0) of (st, c', l', t) \<Rightarrow> transport_ok l' \<and>
    (if NT_SUCCESS st then country_ok sample_connect (CountryApplied (FcConn c')) (CountryRevision (FcConn c')) \<and> published (c', l', t) else closed l')"
  by (rule CywConnect_fails_closed)
    (simp_all add: sample_link_ok sample_connect_def CywValidConnect_def)

end
