(* ===== verification/Configure_Safety.thy ===== *)
theory Configure_Safety
  imports Connect_Safety
begin

text \<open>
  The configuration after a firmware start: the loop that loads the regulatory blob sends the whole file, in order and once, and
  no step of \<open>CywConfigure\<close> leaves a buffer.
\<close>
section \<open>The chunks\<close>

definition clm_chunk :: "bool \<Rightarrow> bool \<Rightarrow> bytes \<Rightarrow> bytes" where
  "clm_chunk first final d = [if first \<and> final then 6 else if first then 2 else if final then 4 else 0, 0x10, 2, 0] @
     bytes32 (word_of_nat (length d)) @ replicate 4 0 @ d"

fun blob_chunks :: "bool \<Rightarrow> bytes list \<Rightarrow> bytes list" where
  "blob_chunks first [] = []"
| "blob_chunks first (d # ds) = clm_chunk first (ds = []) d # blob_chunks False ds"

definition clm_frames :: "bytes list \<Rightarrow> (u8 \<times> bytes) list \<Rightarrow> bool" where
  "clm_frames chunks fs \<longleftrightarrow> list_all2 (\<lambda>c f. \<exists>rid. f = (0, request 263 True rid (cstr ''clmload'' @ 0 # c))) chunks fs"

text \<open>The pieces of the blob from \<open>off\<close> on.\<close>

definition pieces :: "bytes \<Rightarrow> nat \<Rightarrow> nat \<Rightarrow> bytes list \<Rightarrow> bool" where
  "pieces clm len off ds \<longleftrightarrow> concat ds = drop off (take len clm) \<and> (\<forall>d\<in>set ds. d \<noteq> [] \<and> length d \<le> 448)"

lemma chunk_header:
  "do { b \<leftarrow> CywPut16 (replicate 12 0 @ z) 0 f; b \<leftarrow> CywPut16 b 2 g; CywPut32 b 4 n } =
     Some ([byte_of 0 f, byte_of 1 f, byte_of 0 g, byte_of 1 g] @ bytes32 n @ replicate 4 0 @ z)"
  by (simp add: CywPut32_def CywPut16_def wr8_def bytes32_def numeral_eq_Suc)

lemma chunk_flags:
  "[byte_of 0 (0x1000 OR (if a then 2 else 0) OR (if b then 4 else 0) :: u16), byte_of 1 (0x1000 OR (if a then 2 else 0) OR (if b then 4 else 0) :: u16)] =
     [if a \<and> b then 6 else if a then 2 else if b then 4 else 0, 0x10]"
  by (simp add: byte_of_def)

lemma chunk_wrn: "length h = k \<Longrightarrow> length d \<le> length z \<Longrightarrow> wrn (h @ z) k d = Some (h @ d @ drop (length d) z)"
  by (auto simp: wrn_def)

lemma ClmChunk_eq:
  assumes "off + n \<le> len" "len \<le> length clm" "n \<le> 448"
  shows "ClmChunk clm len off n = Some (clm_chunk (off = 0) (off + n = len) (sub_bytes clm off n))"
proof -
  define z :: bytes where "z = replicate 448 0"
  let ?d = "sub_bytes clm off n"
  let ?f = "0x1000 OR (if off = 0 then 2 else 0) OR (if off + n = len then 4 else 0) :: u16"
  let ?h = "[byte_of 0 ?f, byte_of 1 ?f, byte_of 0 (2 :: u16), byte_of 1 (2 :: u16)] @ bytes32 (word_of_nat n) @ replicate 4 0"
  have r: "replicate 460 0 = replicate 12 0 @ z" by (simp add: z_def flip: replicate_add)
  have d: "length ?d = n" "rdn clm off n = Some ?d" using assms by (simp_all add: rdn_def)
  have h: "length ?h = 12" by (simp add: bytes32_def)
  have cut: "take (n + 12) (h @ ?d @ x) = h @ ?d" if "length h = 12" for h x using d that by simp
  have w: "wrn (?h @ z) 12 ?d = Some (?h @ ?d @ drop n z)"
    using chunk_wrn [OF h, of ?d z] assms(3) d by (simp only: z_def length_replicate)
  have "ClmChunk clm len off n = do { b \<leftarrow> do { b \<leftarrow> CywPut16 (replicate 12 0 @ z) 0 ?f; b \<leftarrow> CywPut16 b 2 2; CywPut32 b 4 (word_of_nat n) };
      b \<leftarrow> wrn b 12 ?d; Some (take (n + 12) b) }"
    unfolding ClmChunk_def Let_def r d(2) bind.bind_lunit by (simp only: Option.bind_assoc)
  also have "\<dots> = Some (take (n + 12) (?h @ ?d @ drop n z))"
    unfolding chunk_header bind.bind_lunit using w by (simp only: append_assoc bind.bind_lunit)
  also have "take (n + 12) (?h @ ?d @ drop n z) = ?h @ ?d" by (rule cut [OF h])
  also have "?h @ ?d = clm_chunk (off = 0) (off + n = len) ?d"
    using chunk_flags [of "off = 0" "off + n = len"] d by (simp add: clm_chunk_def byte_of_def)
  finally show ?thesis .
qed

lemma SetVar_sent:
  assumes "transport_ok (fst (snd s))"
  shows "wp (SetVar E name data) (\<lambda>st t. transport_ok (fst (snd t)) \<and> (NT_SUCCESS st \<longrightarrow>
    (\<exists>rid. appended [(0, request 263 True rid (cstr name @ 0 # data))] (fst (snd s)) (fst (snd t))))) s"
  unfolding SetVar_def wp_bind
  by (rule wp_mono [OF CywIovar_wp [OF assms]])
    (auto simp: variable_done_def wp_rules Let_def appended_def split: if_splits)

definition loaded :: "bytes \<Rightarrow> nat \<Rightarrow> nat \<Rightarrow> link \<Rightarrow> NTSTATUS \<Rightarrow> link \<Rightarrow> bool" where
  "loaded clm len off l st l' \<longleftrightarrow> transport_ok l' \<and> (NT_SUCCESS st \<longrightarrow>
     (\<exists>ds fs. pieces clm len off ds \<and> clm_frames (blob_chunks (off = 0) ds) fs \<and> appended fs l l'))"

lemma loaded_failed: "transport_ok m \<Longrightarrow> \<not> NT_SUCCESS st \<Longrightarrow> loaded clm len off l st m"
  by (simp add: loaded_def)

lemma loaded_end: "len \<le> length clm \<Longrightarrow> transport_ok l \<Longrightarrow> loaded clm len len l st l"
  unfolding loaded_def
  by (auto intro!: exI [of _ "[]"] simp: pieces_def clm_frames_def appended_refl)

lemma pieces_Cons:
  assumes "pieces clm len (off + n) ds" "0 < n" "n \<le> 448" "off + n \<le> len" "len \<le> length clm"
  shows "pieces clm len off (sub_bytes clm off n # ds) \<and> (ds = [] \<longleftrightarrow> off + n = len)"
proof -
  have "drop off (take len clm) = take n (drop off (take len clm)) @ drop n (drop off (take len clm))"
    by (rule append_take_drop_id [symmetric])
  also have "take n (drop off (take len clm)) = sub_bytes clm off n"
    using assms by (simp add: sub_bytes_def take_drop min_def add.commute)
  finally have "concat (sub_bytes clm off n # ds) = drop off (take len clm)"
    using assms(1) by (simp add: pieces_def add.commute)
  moreover have "ds = [] \<longleftrightarrow> concat ds = []" using assms(1) by (cases ds) (auto simp: pieces_def)
  moreover have "sub_bytes clm off n \<noteq> []" "length (sub_bytes clm off n) \<le> 448" using assms by (simp_all add: sub_bytes_def)
  ultimately show ?thesis using assms by (auto simp: pieces_def)
qed

lemma loaded_step:
  assumes "loaded clm len (off + n) k st m" "appended [(0, request 263 True rid (cstr ''clmload'' @ 0 # clm_chunk (off = 0) (off + n = len) (sub_bytes clm off n)))] l k"
    and "0 < n" "n \<le> 448" "off + n \<le> len" "len \<le> length clm"
  shows "loaded clm len off l st m"
proof -
  have "\<exists>ds fs. pieces clm len off ds \<and> clm_frames (blob_chunks (off = 0) ds) fs \<and> appended fs l m" if st: "NT_SUCCESS st"
  proof -
    obtain ds fs where d: "pieces clm len (off + n) ds" "clm_frames (blob_chunks False ds) fs" "appended fs k m"
      using assms(1, 3) st by (auto simp: loaded_def)
    have p: "pieces clm len off (sub_bytes clm off n # ds)" "ds = [] \<longleftrightarrow> off + n = len"
      using pieces_Cons [OF d(1) assms(3-6)] by auto
    show ?thesis
      using appended_trans [OF assms(2) d(3)] p d(2)
      by (intro exI [of _ "sub_bytes clm off n # ds"] exI [of _ "[(0, request 263 True rid (cstr ''clmload'' @ 0 #
          clm_chunk (off = 0) (off + n = len) (sub_bytes clm off n)))] @ fs"]) (auto simp: clm_frames_def)
  qed
  then show ?thesis using assms(1) by (simp add: loaded_def)
qed

lemma ClmLoop_wp:
  assumes "transport_ok (fst (snd s))" "off \<le> len" "len \<le> length clm"
  shows "wp (ClmLoop E clm len off) (\<lambda>st t. loaded clm len off (fst (snd s)) st (fst (snd t))) s"
  using assms
proof (induction E clm len off arbitrary: s rule: ClmLoop.induct)
  case (1 E clm len off)
  let ?n = "min (len - off) 448"
  show ?case
  proof (cases "off < len")
    case True
    then have n: "0 < ?n" "?n \<le> 448" "off + ?n \<le> len" by auto
    have c: "ClmChunk clm len off ?n = Some (clm_chunk (off = 0) (off + ?n = len) (sub_bytes clm off ?n))"
      by (rule ClmChunk_eq [OF n(3) 1(4) n(2)])
    have go: "wp (ClmLoop E clm len (off + ?n)) (\<lambda>st t. loaded clm len off l st (fst (snd t))) t"
      if "transport_ok (fst (snd t))" "appended [(0, request 263 True rid (cstr ''clmload'' @ 0 #
        clm_chunk (off = 0) (off + ?n = len) (sub_bytes clm off ?n)))] l (fst (snd t))" for rid l and t :: "fwc \<times> link \<times> adapter \<times> 'a"
      by (rule wp_mono [OF 1(1) [OF True that(1) n(3) 1(4)]]) (rule loaded_step [OF _ that(2) n 1(4)])
    show ?thesis
      unfolding ClmLoop.simps [of E clm len off] if_P [OF True] c wp_sound option.case wp_tryS
      by (rule wp_mono [OF SetVar_sent [OF 1(2)]]) (auto intro: go loaded_failed)
  next
    case False
    then have "off = len" using 1(3) by simp
    then show ?thesis using 1 by (simp add: ClmLoop.simps [of E clm len len] wp_return loaded_end)
  qed
qed

text \<open>The configuration as a whole keeps the state sound: every chunk is inside of the file and of its buffer.\<close>

lemma file_whole: "yields (\<lambda>(st, n, d). NT_SUCCESS st \<longrightarrow> n \<le> length d) (CywReadFirmwareFile F name limit)"
  unfolding CywReadFirmwareFile_def Let_def by (intro yields_intros) (auto simp: pad4_def)

lemma settled_ClmLoop: "off \<le> len \<Longrightarrow> len \<le> length clm \<Longrightarrow> keeps (settledR c v) (ClmLoop E clm len off)"
proof (induction E clm len off rule: ClmLoop.induct)
  case (1 E clm len off)
  let ?n = "min (len - off) 448"
  have some: "ClmChunk clm len off ?n \<noteq> None" if "off < len"
    using ClmChunk_eq [of off ?n len clm] 1(3) that by simp
  show ?case
    unfolding ClmLoop.simps [of E clm len off]
    by (intro keeps_intros settled.keeps_return settled_sound some 1(1) 1(3)) auto
qed

lemma settled_mods:
  "keeps (settledR c v) (via (rxS (\<lambda>r. r\<lparr>RxGlomEnabled := b\<rparr>)))"
  "keeps (settledR c v) (via (txS (\<lambda>T. T\<lparr>TdGlomEnabled := b\<rparr>)))"
  by (rule keeps_wp, auto simp: wp_rules link_defs settled_def transport_ok_def link_base_ok_def rx_base_ok_def)+

lemma settled_RxAggregation: "keeps (settledR c v) (CywConfigureRxAggregation E)"
  unfolding CywConfigureRxAggregation_def by (intro keeps_intros settled_bind settled_mods)

lemma settled_TxGlom2: "keeps (settledR c v) (CywConfigureTxGlom2 E)"
  unfolding CywConfigureTxGlom2_def by (intro keeps_intros settled_bind settled_mods) simp_all

lemma settled_Reset: "keeps (settledR c v) CywTxGlom2ResetProtocol"
  unfolding CywTxGlom2ResetProtocol_def by (intro keeps_intros settled_bind settled_mods) simp_all

lemma settled_MacReadback: "keeps (settledR c v) (MacReadback E)"
  unfolding MacReadback_def by (intro keeps_intros settled_bind) simp_all

lemma settled_file:
  assumes "\<And>st n d. (NT_SUCCESS st \<longrightarrow> n \<le> length d) \<Longrightarrow> keeps (settledR c v) (k (st, n, d))"
  shows "keeps (settledR c v) (State_Monad.bind (via (bus (CywReadFirmwareFile F name limit))) k)"
proof (rule settled_yields [OF settled_bus])
  show "yields (\<lambda>(st, n, d). NT_SUCCESS st \<longrightarrow> n \<le> length d) (via (bus (CywReadFirmwareFile F name limit)))"
    using file_whole [of F name limit] by (auto simp: yields_def via_def bus_def split: prod.splits) (metis fst_conv snd_conv)+
qed (use assms in auto)

lemma settled_Configure: "keeps (settledR c v) (CywConfigure E)"
  unfolding CywConfigure_def
  by (intro settled.keeps_bind [OF settled_Reset] settled_file, simp only: prod.case,
    intro keeps_if settled_tryS settled_ClmLoop settled_RxAggregation settled_TxGlom2 settled_Int settled_Var settled_lasks settled_MacReadback
      settled_net settled_bind) auto

section \<open>The blob arrives whole\<close>

text \<open>
  C6 (roundtrip). The regulatory blob arrives whole.  If the loading loop of \<open>CywConfigure\<close> succeeds, the frames it sent are
  \<open>clmload\<close> requests whose pieces, put together in the order of sending, are the bytes of the file; no piece is empty or longer than
  448 bytes, exactly the first is marked as the beginning and exactly the last as the end, and nothing else was sent in between.
\<close>

theorem ClmLoop_sends_blob:
  assumes "transport_ok l" "len \<le> length clm"
  shows "case run_state (ClmLoop E clm len 0) (c, l, s) of (st, c', l', t) \<Rightarrow> loaded clm len 0 l st l'"
  using ClmLoop_wp [of "(c, l, s)" 0 len clm E] assms by (auto simp: wp_def split: prod.splits)

theorem ClmLoop_sends_blob_witness:
  "case run_state (ClmLoop sample_env (replicate 900 1) 900 0) (zero_fwc, sample_link, zero_adapter, 0) of
    (st, c', l', t) \<Rightarrow> loaded (replicate 900 1) 900 0 sample_link st l'"
  by (rule ClmLoop_sends_blob) (simp_all add: sample_link_ok)

end
