(* ===== verification/Tx_Queue.thy ===== *)
theory Tx_Queue
  imports Cyw_Prelude "HOL-Library.Multiset" "HOL-Library.Sublist"
begin

text \<open>
  The transmit queue (\<open>cyw43455/tx_types.h\<close>, \<open>tx_queue.h\<close>): ownership of the net buffer lists
  (NBLs) that NDIS hands to the driver, from admission to completion.

  A region between \<open>KeAcquireSpinLock\<close> and \<open>KeReleaseSpinLock\<close> is one function on the record
  \<open>txq\<close>.  Other processors submit, cancel and close the gate whenever the lock is free, and NDIS may
  submit from inside of the completion callback: \<open>interfere\<close> runs the next batch of such events of the
  schedule \<open>QScript\<close>, and every theorem holds for all schedules.  \<open>KeQueryInterruptTime\<close> reads the
  next value of \<open>QClock\<close>.

  The arrays \<open>Entries[0..Count)\<close> and \<open>Backlog[0..BacklogCount)\<close> are lists, so \<open>Count\<close> and
  \<open>BacklogCount\<close> are their lengths; the counters with arithmetic of their own keep their 32-bit width.
  A pointer into a chain of net buffers is the rest of the chain.  \<open>QHeld\<close>, \<open>QReturning\<close>,
  \<open>QAccepted\<close> and \<open>QReturned\<close> record which NBLs are between removal and completion, in the completion
  callback, ever accepted and ever given back.

  The functions of the bus owner that the pump calls (\<open>CywTxCanTransfer\<close>,
  \<open>CywTxTransferBurstStart\<close>, \dots) are the argument \<open>tx_port\<close>, over a bus state of any type.  The
  build option \<open>RPI5CYW_TX_GLOM2\<close> is covered by the port's flag \<open>TxGlomEnabled\<close>, which is never set without
  it; \<open>RPI5CYW_TX_SERVICE_BURST4\<close> and \<open>RPI5CYW_TX_ADAPTIVE_HYBRID\<close> have their default value 1.
\<close>

abbreviation (input) "CYW_TX_LIMIT \<equiv> (64 :: u32)"
abbreviation (input) "CYW_TX_BACKLOG_LIMIT \<equiv> (128 :: u32)"
abbreviation (input) "CYW_TX_MAX_AGE \<equiv> (300000000 :: u64)"

record net_buffer =
  NbData :: bytes
  NbMapped :: bool

record nbl =
  NblId :: nat
  NblCancelId :: nat
  NblBuffers :: "net_buffer list"

record CYW_PENDING_SEND =
  PsNbl :: nbl
  PsNext :: "net_buffer list"
  PsCancelId :: nat
  PsFrames :: u32
  PsHeldFrames :: u32
  PsBytes :: u32
  PsMaxFrameLength :: u32
  PsSubmitted :: u64
  PsCancelled :: bool

record txctr =
  TxQueueFrames :: u32
  TxQueueHighWater :: u32
  TxNblAccepted :: u32
  TxNblCompleted :: u32
  TxOversizedNbl :: u32
  TxQueueFull :: u32
  TxQueueMaxDelayMs :: u32
  TxErrors :: u64
  TxCancelled :: u32
  TxExpired :: u32
  TxCreditWaits :: u32
  TxPackets :: u64
  TxBacklogCurrent :: u32
  TxBacklogNblCurrent :: u32
  TxBacklogHighWater :: u32
  TxBacklogAccepted :: u32
  TxBacklogPromoted :: u32
  TxBacklogFull :: u32
  TxBacklogExpired :: u32
  TxBacklogCancelled :: u32
  TxBacklogMaxDelayMs :: u32
  TxAdaptiveSmallFrames :: u32
  TxAdaptiveBulkFrames :: u32
  TxAdaptiveSmallBacklogAccepted :: u32
  TxAdaptiveBulkBackpressure :: u32
  TxAdaptiveSmallGlomChains :: u32
  TxAdaptiveSmallBurstStarts :: u32
  TxAdaptiveBulkFreshF1Attempts :: u32
  TrDiscards :: u64
  TrErrors :: u64

datatype tx_event = EvSubmit nbl | EvCancel nat | EvGate ndis_status

record txq =
  QGate :: ndis_status
  QEntries :: "CYW_PENDING_SEND list"
  QFrames :: u32
  QBytes :: u32
  QOutstanding :: u32
  QCompleting :: u32
  QBacklog :: "CYW_PENDING_SEND list"
  QBacklogFrames :: u32
  QBacklogBytes :: u32
  QCtr :: txctr
  QClock :: "nat \<Rightarrow> u64"
  QTick :: nat
  QScript :: "nat \<Rightarrow> tx_event list"
  QAt :: nat
  QHeld :: "nbl list"
  QReturning :: "nbl list"
  QAccepted :: "nbl list"
  QReturned :: "(nbl \<times> ndis_status) list"

definition ctr :: "(txctr \<Rightarrow> txctr) \<Rightarrow> txq \<Rightarrow> txq" where
  "ctr f Q = Q\<lparr>QCtr := f (QCtr Q)\<rparr>"

definition QueryTime :: "txq \<Rightarrow> u64 \<times> txq" where
  "QueryTime Q = (QClock Q (QTick Q), Q\<lparr>QTick := QTick Q + 1\<rparr>)"

definition nb_length :: "net_buffer \<Rightarrow> u32" where
  "nb_length nb = word_of_nat (length (NbData nb))"

section \<open>Admission\<close>

definition Rpi5CywTrafficDrop :: "u32 \<Rightarrow> bool \<Rightarrow> txq \<Rightarrow> txq" where
  "Rpi5CywTrafficDrop frames error Q =
     ctr (\<lambda>c. if error then c\<lparr>TrErrors := TrErrors c + ucast frames\<rparr>
              else c\<lparr>TrDiscards := TrDiscards c + ucast frames\<rparr>) Q"

definition CywTxSetGate :: "ndis_status \<Rightarrow> txq \<Rightarrow> txq" where
  "CywTxSetGate st Q = Q\<lparr>QGate := st\<rparr>"

definition CywTxOutstanding :: "txq \<Rightarrow> u32" where
  "CywTxOutstanding Q = QOutstanding Q + word_of_nat (length (QBacklog Q)) + QCompleting Q"

text \<open>The loop of \<open>CywTxPrepare\<close>: the status and the frames, bytes and largest frame counted.\<close>

fun PrepareLoop :: "net_buffer list \<Rightarrow> u32 \<Rightarrow> u32 \<Rightarrow> u32 \<Rightarrow> ndis_status \<times> u32 \<times> u32 \<times> u32" where
  "PrepareLoop [] frames bytes maxLength =
     (if frames = 0 then NDIS_STATUS_INVALID_LENGTH else NDIS_STATUS_SUCCESS, frames, bytes, maxLength)"
| "PrepareLoop (nb # nbs) frames bytes maxLength =
    (let len = nb_length nb in
     if len < 14 \<or> len > 1514 then (NDIS_STATUS_INVALID_LENGTH, frames, bytes, maxLength)
     else if frames + 1 > CYW_TX_LIMIT then (NDIS_STATUS_RESOURCES, frames + 1, bytes, maxLength)
     else PrepareLoop nbs (frames + 1) (bytes + len) (if len > maxLength then len else maxLength))"

definition CywTxPrepare :: "nbl \<Rightarrow> txq \<Rightarrow> (ndis_status \<times> CYW_PENDING_SEND option) \<times> txq" where
  "CywTxPrepare N Q =
    (case PrepareLoop (NblBuffers N) 0 0 0 of (st, frames, bytes, maxLength) \<Rightarrow>
     if st = NDIS_STATUS_RESOURCES then ((st, None), ctr (\<lambda>c. c\<lparr>TxOversizedNbl := TxOversizedNbl c + 1\<rparr>) Q)
     else if st \<noteq> NDIS_STATUS_SUCCESS then ((st, None), Q)
     else case QueryTime Q of (now, Q) \<Rightarrow>
       ((NDIS_STATUS_SUCCESS, Some \<lparr>PsNbl = N, PsNext = NblBuffers N, PsCancelId = NblCancelId N, PsFrames = frames,
          PsHeldFrames = frames, PsBytes = bytes, PsMaxFrameLength = maxLength, PsSubmitted = now,
          PsCancelled = False\<rparr>), Q))"

definition CywTxActiveFits :: "txq \<Rightarrow> u32 \<Rightarrow> bool" where
  "CywTxActiveFits Q frames \<longleftrightarrow> QOutstanding Q < CYW_TX_LIMIT \<and> length (QEntries Q) < 64 \<and>
     QFrames Q \<le> CYW_TX_LIMIT - frames"

definition CywTxBacklogFits :: "txq \<Rightarrow> u32 \<Rightarrow> bool" where
  "CywTxBacklogFits Q frames \<longleftrightarrow> length (QBacklog Q) < 128 \<and> QBacklogFrames Q \<le> CYW_TX_BACKLOG_LIMIT - frames"

definition CywTxAdaptiveSmallLength :: "u32 \<Rightarrow> bool" where
  "CywTxAdaptiveSmallLength len \<longleftrightarrow> len \<le> 512"

definition CywTxAdaptiveSmallItem :: "CYW_PENDING_SEND \<Rightarrow> bool" where
  "CywTxAdaptiveSmallItem item = CywTxAdaptiveSmallLength (PsMaxFrameLength item)"

definition CywTxAdaptiveSmallNb :: "net_buffer \<Rightarrow> bool" where
  "CywTxAdaptiveSmallNb nb = CywTxAdaptiveSmallLength (nb_length nb)"

definition CywTxActivateLocked :: "CYW_PENDING_SEND \<Rightarrow> bool \<Rightarrow> txq \<Rightarrow> txq" where
  "CywTxActivateLocked item countAccepted Q =
    (let Q = Q\<lparr>QEntries := QEntries Q @ [item], QFrames := QFrames Q + PsHeldFrames item,
               QBytes := QBytes Q + PsBytes item, QOutstanding := QOutstanding Q + 1\<rparr>
     in ctr (\<lambda>c. c\<lparr>TxQueueFrames := QFrames Q,
          TxQueueHighWater := (if QFrames Q > TxQueueHighWater c then QFrames Q else TxQueueHighWater c),
          TxNblAccepted := (if countAccepted then TxNblAccepted c + 1 else TxNblAccepted c)\<rparr>) Q)"

definition CywTxBacklogLocked :: "CYW_PENDING_SEND \<Rightarrow> txq \<Rightarrow> txq" where
  "CywTxBacklogLocked item Q =
    (let Q = Q\<lparr>QBacklog := QBacklog Q @ [item], QBacklogFrames := QBacklogFrames Q + PsHeldFrames item,
               QBacklogBytes := QBacklogBytes Q + PsBytes item\<rparr>
     in ctr (\<lambda>c. c\<lparr>TxBacklogCurrent := QBacklogFrames Q, TxBacklogNblCurrent := word_of_nat (length (QBacklog Q)),
          TxBacklogHighWater := (if QBacklogFrames Q > TxBacklogHighWater c then QBacklogFrames Q else TxBacklogHighWater c),
          TxBacklogAccepted := TxBacklogAccepted c + 1, TxNblAccepted := TxNblAccepted c + 1\<rparr>) Q)"

text \<open>The second lock region of a submission, and the whole of it.\<close>

definition SubmitLocked :: "CYW_PENDING_SEND \<Rightarrow> txq \<Rightarrow> ndis_status \<times> txq" where
  "SubmitLocked item Q =
    (if QGate Q \<noteq> NDIS_STATUS_SUCCESS then (QGate Q, Q)
     else
       let small = CywTxAdaptiveSmallItem item in
       if QBacklog Q = [] \<and> CywTxActiveFits Q (PsHeldFrames item)
       then (NDIS_STATUS_PENDING, CywTxActivateLocked item True (Q\<lparr>QAccepted := QAccepted Q @ [PsNbl item]\<rparr>))
       else if small \<and> CywTxBacklogFits Q (PsHeldFrames item)
       then (NDIS_STATUS_PENDING,
         ctr (\<lambda>c. c\<lparr>TxAdaptiveSmallBacklogAccepted := TxAdaptiveSmallBacklogAccepted c + 1\<rparr>)
           (CywTxBacklogLocked item (Q\<lparr>QAccepted := QAccepted Q @ [PsNbl item]\<rparr>)))
       else (NDIS_STATUS_RESOURCES,
         ctr (\<lambda>c. c\<lparr>TxQueueFull := TxQueueFull c + 1,
           TxBacklogFull := (if small then TxBacklogFull c + 1 else TxBacklogFull c),
           TxAdaptiveBulkBackpressure :=
             (if small then TxAdaptiveBulkBackpressure c else TxAdaptiveBulkBackpressure c + 1)\<rparr>) Q))"

text \<open>
  The first region only reads the gate.  A change of the gate between the two regions is the same as the
  change followed by the submission, so a submission is one event.
\<close>

definition CywTxSubmitWithBacklog :: "nbl \<Rightarrow> txq \<Rightarrow> ndis_status \<times> txq" where
  "CywTxSubmitWithBacklog N Q =
    (if QGate Q \<noteq> NDIS_STATUS_SUCCESS then (QGate Q, Q)
     else case CywTxPrepare N Q of ((st, item), Q) \<Rightarrow>
       (case item of None \<Rightarrow> (st, Q) | Some item \<Rightarrow> SubmitLocked item Q))"

definition CywNetworkSend :: "bool \<Rightarrow> nbl \<Rightarrow> txq \<Rightarrow> ndis_status \<times> txq" where
  "CywNetworkSend ioStopped N Q =
    (if ioStopped then (NDIS_STATUS_LOW_POWER_STATE, Q) else CywTxSubmitWithBacklog N Q)"

text \<open>
  \<open>CywDispatchSendChain\<close> on a chain of NBLs; the second component lists the NBLs it completes itself,
  with their status, most recent last.
\<close>

fun CywDispatchSendChain :: "bool \<Rightarrow> nbl list \<Rightarrow> txq \<Rightarrow> (nbl \<times> ndis_status) list \<Rightarrow> txq \<times> (nbl \<times> ndis_status) list" where
  "CywDispatchSendChain ioStopped [] Q done' = (Q, done')"
| "CywDispatchSendChain ioStopped (N # chain) Q done' =
    (case CywNetworkSend ioStopped N Q of (st, Q) \<Rightarrow>
     if st \<noteq> NDIS_STATUS_PENDING then
       let frames = word_of_nat (length (NblBuffers N));
           Q = Rpi5CywTrafficDrop frames (st = NDIS_STATUS_INVALID_LENGTH \<or> st = NDIS_STATUS_FAILURE) Q;
           Q = ctr (\<lambda>c. c\<lparr>TxErrors := TxErrors c + 1\<rparr>) Q
       in CywDispatchSendChain ioStopped chain Q (done' @ [(N, st)])
     else CywDispatchSendChain ioStopped chain Q done')"

definition CancelMatch :: "nat \<Rightarrow> CYW_PENDING_SEND \<Rightarrow> CYW_PENDING_SEND" where
  "CancelMatch cid e = (if PsCancelId e = cid then e\<lparr>PsCancelled := True\<rparr> else e)"

definition CywTxCancel :: "nat \<Rightarrow> txq \<Rightarrow> txq" where
  "CywTxCancel cid Q =
     Q\<lparr>QEntries := map (CancelMatch cid) (QEntries Q), QBacklog := map (CancelMatch cid) (QBacklog Q)\<rparr>"

section \<open>What other processors do while the lock is free\<close>

fun run_event :: "tx_event \<Rightarrow> txq \<Rightarrow> txq" where
  "run_event (EvSubmit N) Q = snd (CywTxSubmitWithBacklog N Q)"
| "run_event (EvCancel cid) Q = CywTxCancel cid Q"
| "run_event (EvGate st) Q = CywTxSetGate st Q"

definition interfere :: "txq \<Rightarrow> txq" where
  "interfere Q = fold run_event (QScript Q (QAt Q)) (Q\<lparr>QAt := QAt Q + 1\<rparr>)"

section \<open>Removal, promotion and completion\<close>

definition remove_nth :: "nat \<Rightarrow> 'a list \<Rightarrow> 'a list" where
  "remove_nth i xs = take i xs @ drop (Suc i) xs"

text \<open>\<open>None\<close> is an access beyond \<open>Count\<close>.\<close>

definition CywTxRemove :: "nat \<Rightarrow> ndis_status \<Rightarrow> txq \<Rightarrow> (nbl \<times> txq) option" where
  "CywTxRemove index st Q =
    (if index < length (QEntries Q) then
       let e = QEntries Q ! index;
           Q = (if st \<noteq> NDIS_STATUS_SUCCESS
                then Rpi5CywTrafficDrop (PsFrames e) (st = NDIS_STATUS_FAILURE) Q else Q);
           Q = Q\<lparr>QFrames := QFrames Q - PsHeldFrames e, QBytes := QBytes Q - PsBytes e\<rparr>;
           Q = ctr (\<lambda>c. c\<lparr>TxQueueFrames := QFrames Q\<rparr>) Q
       in Some (PsNbl e, Q\<lparr>QEntries := remove_nth index (QEntries Q), QHeld := QHeld Q @ [PsNbl e]\<rparr>)
     else None)"

definition CywTxPromoteOneLocked :: "txq \<Rightarrow> bool \<times> txq" where
  "CywTxPromoteOneLocked Q =
    (case QBacklog Q of
       [] \<Rightarrow> (False, Q)
     | item # rest \<Rightarrow>
       if QGate Q \<noteq> NDIS_STATUS_SUCCESS \<or> \<not> CywTxActiveFits Q (PsHeldFrames item) then (False, Q)
       else
         let Q = Q\<lparr>QBacklogFrames := QBacklogFrames Q - PsHeldFrames item,
                   QBacklogBytes := QBacklogBytes Q - PsBytes item, QBacklog := rest\<rparr>;
             Q = ctr (\<lambda>c. c\<lparr>TxBacklogCurrent := QBacklogFrames Q,
                   TxBacklogNblCurrent := word_of_nat (length rest)\<rparr>) Q
         in case QueryTime Q of (now, Q) \<Rightarrow>
           let delay = (if now \<ge> PsSubmitted item then (now - PsSubmitted item) div 10000 else 0);
               Q = ctr (\<lambda>c. if delay > ucast (TxBacklogMaxDelayMs c)
                     then c\<lparr>TxBacklogMaxDelayMs := (if delay > 0xffffffff then 0xffffffff else ucast delay)\<rparr> else c) Q;
               Q = CywTxActivateLocked item False Q
           in (True, ctr (\<lambda>c. c\<lparr>TxBacklogPromoted := TxBacklogPromoted c + 1\<rparr>) Q))"

lemma CywTxPromoteOneLocked_shrinks:
  "CywTxPromoteOneLocked Q = (True, Q') \<Longrightarrow> length (QBacklog Q') < length (QBacklog Q)"
  by (auto simp: CywTxPromoteOneLocked_def QueryTime_def CywTxActivateLocked_def ctr_def Let_def
      split: list.splits if_splits)

function PromoteAll :: "txq \<Rightarrow> txq" where
  "PromoteAll Q = (case CywTxPromoteOneLocked Q of (again, Q') \<Rightarrow> if again then PromoteAll Q' else Q')"
  by auto
termination
  by (relation "measure (\<lambda>Q. length (QBacklog Q))") (auto intro!: CywTxPromoteOneLocked_shrinks)

declare PromoteAll.simps [simp del]

definition CywTxBacklogRemove :: "nat \<Rightarrow> ndis_status \<Rightarrow> txq \<Rightarrow> (nbl \<times> txq) option" where
  "CywTxBacklogRemove index st Q =
    (if index < length (QBacklog Q) then
       let e = QBacklog Q ! index;
           Q = (if st \<noteq> NDIS_STATUS_SUCCESS
                then Rpi5CywTrafficDrop (PsFrames e) (st = NDIS_STATUS_FAILURE) Q else Q);
           Q = Q\<lparr>QBacklogFrames := QBacklogFrames Q - PsHeldFrames e, QBacklogBytes := QBacklogBytes Q - PsBytes e,
                 QBacklog := remove_nth index (QBacklog Q)\<rparr>;
           Q = ctr (\<lambda>c. c\<lparr>TxBacklogCurrent := QBacklogFrames Q,
                 TxBacklogNblCurrent := word_of_nat (length (QBacklog Q))\<rparr>) Q;
           Q = Q\<lparr>QCompleting := QCompleting Q + 1, QReturning := QReturning Q @ [PsNbl e]\<rparr>
       in Some (PsNbl e, PromoteAll Q)
     else None)"

definition CompletionStatus :: "ndis_status \<Rightarrow> txq \<Rightarrow> txq" where
  "CompletionStatus st Q = ctr (\<lambda>c. c\<lparr>
     TxErrors := (if st \<noteq> NDIS_STATUS_SUCCESS then TxErrors c + 1 else TxErrors c),
     TxCancelled := (if st = NDIS_STATUS_SEND_ABORTED then TxCancelled c + 1 else TxCancelled c)\<rparr>) Q"

text \<open>The callback \<open>NdisMSendNetBufferListsComplete\<close> runs between the two regions of a completion.\<close>

definition CompleteEnd :: "nbl \<Rightarrow> ndis_status \<Rightarrow> txq \<Rightarrow> txq" where
  "CompleteEnd N st Q = ctr (\<lambda>c. c\<lparr>TxNblCompleted := TxNblCompleted c + 1\<rparr>)
     (Q\<lparr>QCompleting := QCompleting Q - 1, QReturning := remove1 N (QReturning Q), QReturned := QReturned Q @ [(N, st)]\<rparr>)"

definition CompleteCallback :: "nbl \<Rightarrow> ndis_status \<Rightarrow> txq \<Rightarrow> txq" where
  "CompleteCallback N st Q = interfere (CompleteEnd N st (interfere Q))"

definition CompleteBegin :: "nbl \<Rightarrow> ndis_status \<Rightarrow> txq \<Rightarrow> txq" where
  "CompleteBegin N st Q =
    (let Q = CompletionStatus st Q;
         Q = PromoteAll (Q\<lparr>QOutstanding := QOutstanding Q - 1, QHeld := remove1 N (QHeld Q),
               QReturning := QReturning Q @ [N]\<rparr>)
     in Q\<lparr>QCompleting := QCompleting Q + 1\<rparr>)"

definition CywTxComplete :: "nbl \<Rightarrow> ndis_status \<Rightarrow> txq \<Rightarrow> txq" where
  "CywTxComplete N st Q = CompleteCallback N st (CompleteBegin N st Q)"

definition CywTxCompleteBacklog :: "nbl \<Rightarrow> ndis_status \<Rightarrow> txq \<Rightarrow> txq" where
  "CywTxCompleteBacklog N st Q = CompleteCallback N st (CompletionStatus st Q)"

definition CywTxAbortStatus :: "txq \<Rightarrow> CYW_PENDING_SEND \<Rightarrow> u64 \<Rightarrow> ndis_status" where
  "CywTxAbortStatus Q e now =
    (if QGate Q \<noteq> NDIS_STATUS_SUCCESS then QGate Q
     else if PsCancelled e then NDIS_STATUS_SEND_ABORTED
     else if now - PsSubmitted e \<ge> CYW_TX_MAX_AGE then NDIS_STATUS_FAILURE
     else NDIS_STATUS_SUCCESS)"

section \<open>Flush\<close>

definition FlushTake :: "ndis_status \<Rightarrow> txq \<Rightarrow> ((nbl \<times> bool) option \<times> txq) option" where
  "FlushTake st Q =
    (if QEntries Q \<noteq> [] then map_option (\<lambda>(N, Q). (Some (N, True), Q)) (CywTxRemove 0 st Q)
     else if QBacklog Q \<noteq> [] then map_option (\<lambda>(N, Q). (Some (N, False), Q)) (CywTxBacklogRemove 0 st Q)
     else Some (None, Q))"

text \<open>
  The loop ends when both queues are empty.  It runs as long as others refill them, hence the fuel;
  \<open>Inl ()\<close> is an empty tank.
\<close>

fun FlushLoop :: "nat \<Rightarrow> ndis_status \<Rightarrow> txq \<Rightarrow> (unit + txq) option" where
  "FlushLoop 0 st Q = Some (Inl ())"
| "FlushLoop (Suc fuel) st Q = do {
     (taken, Q) \<leftarrow> FlushTake st Q;
     let Q = interfere Q;
     case taken of
       None \<Rightarrow> Some (Inr Q)
     | Some (N, active) \<Rightarrow>
         FlushLoop fuel st (if active then CywTxComplete N st Q else CywTxCompleteBacklog N st Q) }"

definition CywTxFlush :: "nat \<Rightarrow> ndis_status \<Rightarrow> txq \<Rightarrow> (unit + txq) option" where
  "CywTxFlush fuel st Q = FlushLoop fuel st (interfere (CywTxSetGate st Q))"

section \<open>The pump\<close>

text \<open>One pass over both queues for a cancelled or expired item.\<close>

fun first_abort :: "(CYW_PENDING_SEND \<Rightarrow> ndis_status) \<Rightarrow> CYW_PENDING_SEND list \<Rightarrow> nat \<Rightarrow> (nat \<times> ndis_status) option" where
  "first_abort f [] i = None"
| "first_abort f (e # es) i = (if f e \<noteq> NDIS_STATUS_SUCCESS then Some (i, f e) else first_abort f es (Suc i))"

definition CleanupTake :: "txq \<Rightarrow> ((nbl \<times> ndis_status \<times> bool) option \<times> txq) option" where
  "CleanupTake Q =
    (case QueryTime Q of (now, Q) \<Rightarrow>
     case first_abort (\<lambda>e. CywTxAbortStatus Q e now) (QEntries Q) 0 of
       Some (i, completion) \<Rightarrow>
         let Q = (if QGate Q = NDIS_STATUS_SUCCESS \<and> \<not> PsCancelled (QEntries Q ! i)
                  then ctr (\<lambda>c. c\<lparr>TxExpired := TxExpired c + 1\<rparr>) Q else Q)
         in map_option (\<lambda>(N, Q). (Some (N, completion, True), Q)) (CywTxRemove i completion Q)
     | None \<Rightarrow>
       (case first_abort (\<lambda>e. CywTxAbortStatus Q e now) (QBacklog Q) 0 of
          Some (i, completion) \<Rightarrow>
            let Q = (if QGate Q = NDIS_STATUS_SUCCESS
                     then if PsCancelled (QBacklog Q ! i)
                          then ctr (\<lambda>c. c\<lparr>TxBacklogCancelled := TxBacklogCancelled c + 1\<rparr>) Q
                          else ctr (\<lambda>c. c\<lparr>TxExpired := TxExpired c + 1, TxBacklogExpired := TxBacklogExpired c + 1\<rparr>) Q
                     else Q)
            in map_option (\<lambda>(N, Q). (Some (N, completion, False), Q)) (CywTxBacklogRemove i completion Q)
        | None \<Rightarrow> Some (None, Q)))"

fun CleanupLoop :: "nat \<Rightarrow> txq \<Rightarrow> txq option" where
  "CleanupLoop 0 Q = Some Q"
| "CleanupLoop (Suc n) Q = do {
     (taken, Q) \<leftarrow> CleanupTake Q;
     let Q = interfere Q;
     case taken of
       None \<Rightarrow> Some Q
     | Some (N, completion, active) \<Rightarrow>
         CleanupLoop n (if active then CywTxComplete N completion Q else CywTxCompleteBacklog N completion Q) }"

text \<open>The functions of the bus owner.\<close>

record 'w tx_port =
  TxGlomEnabled :: "'w \<Rightarrow> bool"
  CywTxCanTransfer :: "'w \<Rightarrow> bool \<times> 'w"
  CywTxCanTransferPair :: "'w \<Rightarrow> bool \<times> 'w"
  CywTxTransferBurstStart :: "bytes \<Rightarrow> nat \<Rightarrow> 'w \<Rightarrow> NTSTATUS \<times> nat \<times> 'w"
  CywTxTransferBurstReuse :: "bytes \<Rightarrow> nat \<Rightarrow> 'w \<Rightarrow> NTSTATUS \<times> 'w"
  CywTxTransferPair :: "bytes \<Rightarrow> bytes \<Rightarrow> 'w \<Rightarrow> NTSTATUS \<times> 'w"

fun BurstChain :: "nat \<Rightarrow> net_buffer list \<Rightarrow> nat \<Rightarrow> bool \<times> nat" where
  "BurstChain cap [] pending = (True, pending)"
| "BurstChain cap (nb # nbs) pending =
    (if pending < cap then if \<not> CywTxAdaptiveSmallNb nb then (False, pending) else BurstChain cap nbs (Suc pending)
     else (True, pending))"

fun BurstEntries :: "nat \<Rightarrow> CYW_PENDING_SEND list \<Rightarrow> nat \<Rightarrow> nat" where
  "BurstEntries cap [] pending = pending"
| "BurstEntries cap (e # es) pending =
    (if pending < cap then
       case BurstChain cap (PsNext e) pending of (go, pending) \<Rightarrow> if go then BurstEntries cap es pending else pending
     else pending)"

definition CywTxBurstPendingFrames :: "nat \<Rightarrow> txq \<Rightarrow> nat" where
  "CywTxBurstPendingFrames remaining Q =
    (let cap = (if remaining > 4 then 4 else remaining) in
     if cap = 0 then 0
     else if QGate Q = NDIS_STATUS_SUCCESS then BurstEntries cap (QEntries Q) 0 else 0)"

definition PairEntry :: "CYW_PENDING_SEND \<Rightarrow> bool" where
  "PairEntry e \<longleftrightarrow> PsFrames e = 1 \<and> PsHeldFrames e = 1 \<and>
     (case PsNext e of [nb] \<Rightarrow> CywTxAdaptiveSmallNb nb | _ \<Rightarrow> False)"

definition CywTxPairCandidate :: "'w tx_port \<Rightarrow> nat \<Rightarrow> txq \<times> 'w \<Rightarrow>
    (net_buffer list \<times> net_buffer list) option \<times> txq \<times> 'w" where
  "CywTxPairCandidate P remaining = (\<lambda>(Q, w).
     if remaining < 2 \<or> \<not> TxGlomEnabled P w then (None, Q, w)
     else case CywTxCanTransferPair P w of (ok, w) \<Rightarrow>
       if \<not> ok then (None, Q, w)
       else case QueryTime Q of (now, Q) \<Rightarrow>
         (case QEntries Q of
            e0 # e1 # _ \<Rightarrow>
              if QGate Q = NDIS_STATUS_SUCCESS \<and> (QBacklog Q \<noteq> [] \<or> QFrames Q \<ge> 32) \<and>
                 PairEntry e0 \<and> PairEntry e1 \<and>
                 CywTxAbortStatus Q e0 now = NDIS_STATUS_SUCCESS \<and> CywTxAbortStatus Q e1 now = NDIS_STATUS_SUCCESS
              then (Some (PsNext e0, PsNext e1), interfere Q, w)
              else (None, interfere Q, w)
          | _ \<Rightarrow> (None, interfere Q, w)))"

text \<open>The frame as the staging buffer holds it: the 4-byte BDC header and the data.\<close>

definition StageFrame :: "net_buffer \<Rightarrow> bytes" where
  "StageFrame nb = [0x20, 0, 0, 0] @ NbData nb"

text \<open>The first lock region of a round of the pump.\<close>

datatype 'a pump_head = HeadEmpty | HeadAbort nbl ndis_status | HeadSend 'a

definition PumpHead :: "txq \<Rightarrow> (net_buffer list pump_head \<times> txq) option" where
  "PumpHead Q =
    (let Q = (if QEntries Q = [] then snd (CywTxPromoteOneLocked Q) else Q) in
     case QEntries Q of
       [] \<Rightarrow> Some (HeadEmpty, Q)
     | e # _ \<Rightarrow>
       (case QueryTime Q of (now, Q) \<Rightarrow>
        let completion = CywTxAbortStatus Q e now in
        if completion \<noteq> NDIS_STATUS_SUCCESS
        then map_option (\<lambda>(N, Q). (HeadAbort N completion, Q)) (CywTxRemove 0 completion Q)
        else case QueryTime Q of (now, Q) \<Rightarrow>
          let delay = (now - PsSubmitted e) div 10000;
              Q = ctr (\<lambda>c. if delay > ucast (TxQueueMaxDelayMs c)
                    then c\<lparr>TxQueueMaxDelayMs := (if delay > 0xffffffff then 0xffffffff else ucast delay)\<rparr> else c) Q
          in Some (HeadSend (PsNext e), Q)))"

text \<open>
  The last lock region: account for the frame that was transferred with the status \<open>st\<close>, and
  take the head off when it is done or has failed.
\<close>

definition PumpSettle :: "NTSTATUS \<Rightarrow> bool \<Rightarrow> net_buffer list \<Rightarrow> txq \<Rightarrow> ((nbl option \<times> ndis_status) \<times> txq) option" where
  "PumpSettle st small nb Q =
    (case QEntries Q of
       [] \<Rightarrow> None
     | e # es \<Rightarrow>
       (case QueryTime Q of (now, Q) \<Rightarrow>
        let completion = CywTxAbortStatus Q e now;
            Q = (if NT_SUCCESS st
                 then ctr (\<lambda>c. c\<lparr>TxPackets := TxPackets c + 1,
                        TxAdaptiveSmallFrames := (if small then TxAdaptiveSmallFrames c + 1 else TxAdaptiveSmallFrames c),
                        TxAdaptiveBulkFrames := (if small then TxAdaptiveBulkFrames c else TxAdaptiveBulkFrames c + 1)\<rparr>)
                      (Q\<lparr>QEntries := e\<lparr>PsNext := tl nb, PsFrames := PsFrames e - 1\<rparr> # es\<rparr>)
                 else Q);
            completion = (if \<not> NT_SUCCESS st \<and> completion = NDIS_STATUS_SUCCESS then NDIS_STATUS_FAILURE else completion);
            frames = (if NT_SUCCESS st then PsFrames e - 1 else PsFrames e)
        in if completion \<noteq> NDIS_STATUS_SUCCESS \<or> frames = 0
           then map_option (\<lambda>(N, Q). ((Some N, completion), Q)) (CywTxRemove 0 completion Q)
           else Some ((None, completion), Q)))"

text \<open>The same for a pair of frames, which always takes both heads off.\<close>

definition PairSettle :: "NTSTATUS \<Rightarrow> net_buffer list \<Rightarrow> net_buffer list \<Rightarrow> txq \<Rightarrow>
    ((nbl \<times> ndis_status) \<times> (nbl \<times> ndis_status) \<times> txq) option" where
  "PairSettle st nb nb2 Q =
    (case QEntries Q of
       e0 # e1 # es \<Rightarrow>
       (case QueryTime Q of (now, Q) \<Rightarrow>
        case QueryTime Q of (now2, Q) \<Rightarrow>
        let c0 = CywTxAbortStatus Q e0 now;
            c1 = CywTxAbortStatus Q e1 now2;
            Q = (if NT_SUCCESS st
                 then ctr (\<lambda>c. c\<lparr>TxPackets := TxPackets c + 2, TxAdaptiveSmallFrames := TxAdaptiveSmallFrames c + 2,
                        TxAdaptiveSmallGlomChains := TxAdaptiveSmallGlomChains c + 1\<rparr>)
                      (Q\<lparr>QEntries := e0\<lparr>PsNext := tl nb, PsFrames := PsFrames e0 - 1\<rparr> #
                           e1\<lparr>PsNext := tl nb2, PsFrames := PsFrames e1 - 1\<rparr> # es\<rparr>)
                 else Q);
            c0 = (if \<not> NT_SUCCESS st \<and> c0 = NDIS_STATUS_SUCCESS then NDIS_STATUS_FAILURE else c0);
            c1 = (if \<not> NT_SUCCESS st \<and> c1 = NDIS_STATUS_SUCCESS then NDIS_STATUS_FAILURE else c1)
        in do {
          (N, Q) \<leftarrow> CywTxRemove 0 c0 Q;
          (N2, Q) \<leftarrow> CywTxRemove 0 c1 Q;
          Some ((N, c0), (N2, c1), Q) })
     | _ \<Rightarrow> None)"

text \<open>The locals of the pump that live across rounds, and how a round ends.\<close>

record pump_locals =
  PlSent :: nat
  PlService :: nat
  PlReuse :: nat

datatype pump_exit = PumpAgain | PumpBreak | PumpReturn NTSTATUS

type_synonym 'w pump = "pump_locals \<times> txq \<times> 'w"

text \<open>The attempt to send the two heads as one chain; \<open>None\<close> inside is the fall-through to a single frame.\<close>

definition PumpPair :: "'w tx_port \<Rightarrow> nat \<Rightarrow> 'w pump \<Rightarrow> ((pump_exit option \<times> net_buffer list option) \<times> 'w pump) option" where
  "PumpPair P budget = (\<lambda>(l, Q, w).
    (case (if PlService l \<noteq> 0 then (None, Q, w) else CywTxPairCandidate P (budget - PlSent l) (Q, w)) of
       (None, Q, w) \<Rightarrow> Some ((None, None), l, Q, w)
     | (Some (nb, nb2), Q, w) \<Rightarrow>
       (case (nb, nb2) of
          (b # _, b2 # _) \<Rightarrow>
            if NbMapped b \<and> NbMapped b2 then
              (case CywTxTransferPair P (StageFrame b) (StageFrame b2) w of (st, w) \<Rightarrow>
               if st = STATUS_DEVICE_BUSY then Some ((None, Some nb), l, interfere Q, w)
               else do {
                 ((N, c), (N2, c2), Q) \<leftarrow> PairSettle st nb nb2 (interfere Q);
                 let Q = CywTxComplete N2 c2 (CywTxComplete N c (interfere Q));
                 let l = l\<lparr>PlService := 0, PlSent := (if NT_SUCCESS st then PlSent l + 2 else PlSent l)\<rparr>;
                 Some ((Some (if NT_SUCCESS st then PumpAgain else PumpReturn st), None), l, Q, w) })
            else Some ((None, Some nb), l, Q, w)
        | _ \<Rightarrow> None)))"

text \<open>One frame: transfer it with or without a fresh status check.\<close>

definition PumpTransfer :: "'w tx_port \<Rightarrow> nat \<Rightarrow> net_buffer \<Rightarrow> 'w pump \<Rightarrow> NTSTATUS \<times> 'w pump" where
  "PumpTransfer P budget b = (\<lambda>(l, Q, w).
    (let small = CywTxAdaptiveSmallLength (nb_length b);
         l = (if small then l else l\<lparr>PlService := 0\<rparr>)
     in
     if \<not> NbMapped b then (STATUS_INSUFFICIENT_RESOURCES, l, Q, w)
     else if small \<and> PlService l \<noteq> 0 then
       (case CywTxTransferBurstReuse P (StageFrame b) (PlReuse l) w of (st, w) \<Rightarrow>
          (st, if NT_SUCCESS st then l\<lparr>PlService := PlService l - 1, PlReuse := PlReuse l + 1\<rparr> else l, interfere Q, w))
     else
       let want = (if small then CywTxBurstPendingFrames (budget - PlSent l) Q else 1);
           Q = ctr (\<lambda>c. if small then c\<lparr>TxAdaptiveSmallBurstStarts := TxAdaptiveSmallBurstStarts c + 1\<rparr>
                 else c\<lparr>TxAdaptiveBulkFreshF1Attempts := TxAdaptiveBulkFreshF1Attempts c + 1\<rparr>) (interfere Q)
       in case CywTxTransferBurstStart P (StageFrame b) want w of (st, permit, w) \<Rightarrow>
          (st, l\<lparr>PlService := permit, PlReuse := (if permit \<noteq> 0 then 2 else PlReuse l)\<rparr>, interfere Q, w)))"

definition CreditWait :: "txq \<Rightarrow> txq" where
  "CreditWait Q = ctr (\<lambda>c. c\<lparr>TxCreditWaits := TxCreditWaits c + 1\<rparr>) Q"

text \<open>The rest of a round for the single frame at the head of \<open>nb\<close>.\<close>

definition PumpSingle :: "'w tx_port \<Rightarrow> nat \<Rightarrow> net_buffer list \<Rightarrow> 'w pump \<Rightarrow> (pump_exit \<times> 'w pump) option" where
  "PumpSingle P budget nb = (\<lambda>(l, Q, w).
    (case CywTxCanTransfer P w of (ok, w) \<Rightarrow>
     if \<not> ok then Some (PumpBreak, l\<lparr>PlService := 0\<rparr>, CreditWait Q, w)
     else case nb of
       [] \<Rightarrow> None
     | b # _ \<Rightarrow>
       (case PumpTransfer P budget b (l, Q, w) of (st, l, Q, w) \<Rightarrow>
        if st = STATUS_DEVICE_BUSY then Some (PumpBreak, l\<lparr>PlService := 0\<rparr>, CreditWait Q, w)
        else do {
          ((done', completion), Q) \<leftarrow> PumpSettle st (CywTxAdaptiveSmallLength (nb_length b)) nb Q;
          let l = (if NT_SUCCESS st then l\<lparr>PlSent := PlSent l + 1\<rparr> else l);
          let l = (if completion \<noteq> NDIS_STATUS_SUCCESS then l\<lparr>PlService := 0\<rparr> else l);
          let Q = interfere Q;
          let Q = (case done' of None \<Rightarrow> Q | Some N \<Rightarrow> CywTxComplete N completion Q);
          if \<not> NT_SUCCESS st \<and> NbMapped b then Some (PumpReturn st, l\<lparr>PlService := 0\<rparr>, Q, w)
          else if \<not> NbMapped b then Some (PumpBreak, l\<lparr>PlService := 0\<rparr>, Q, w)
          else Some (PumpAgain, l, Q, w) })))"

definition PumpRound :: "'w tx_port \<Rightarrow> nat \<Rightarrow> 'w pump \<Rightarrow> (pump_exit \<times> 'w pump) option" where
  "PumpRound P budget = (\<lambda>(l, Q, w). do {
     (head, Q) \<leftarrow> PumpHead Q;
     let Q = interfere Q;
     case head of
       HeadEmpty \<Rightarrow> Some (PumpBreak, l, Q, w)
     | HeadAbort N completion \<Rightarrow> Some (PumpBreak, l, CywTxComplete N completion Q, w)
     | HeadSend nb \<Rightarrow> do {
         ((exit, nb'), l, Q, w) \<leftarrow> PumpPair P budget (l, Q, w);
         case exit of
           Some x \<Rightarrow> Some (x, l, Q, w)
         | None \<Rightarrow> PumpSingle P budget (case nb' of None \<Rightarrow> nb | Some c \<Rightarrow> c) (l, Q, w) } })"

text \<open>
  The loop \<open>while(*Sent<Budget)\<close>.  A round that goes on has sent a frame, so \<open>budget\<close> rounds
  are enough fuel; \<open>None\<close> inside of the result is an empty tank.
\<close>

fun PumpLoop :: "nat \<Rightarrow> 'w tx_port \<Rightarrow> nat \<Rightarrow> 'w pump \<Rightarrow> (NTSTATUS option \<times> 'w pump) option" where
  "PumpLoop fuel P budget (l, Q, w) =
    (if \<not> PlSent l < budget then Some (Some STATUS_SUCCESS, l, Q, w)
     else case fuel of
       0 \<Rightarrow> Some (None, l, Q, w)
     | Suc fuel \<Rightarrow> do {
         (exit, s) \<leftarrow> PumpRound P budget (l, Q, w);
         case exit of
           PumpAgain \<Rightarrow> PumpLoop fuel P budget s
         | PumpBreak \<Rightarrow> Some (Some STATUS_SUCCESS, s)
         | PumpReturn st \<Rightarrow> Some (Some st, s) })"

definition CywTxPump :: "'w tx_port \<Rightarrow> nat \<Rightarrow> txq \<times> 'w \<Rightarrow> (NTSTATUS option \<times> 'w pump) option" where
  "CywTxPump P budget = (\<lambda>(Q, w). do {
     Q \<leftarrow> CleanupLoop 192 Q;
     PumpLoop budget P budget (\<lparr>PlSent = 0, PlService = 0, PlReuse = 2\<rparr>, Q, w) })"

section \<open>The ownership invariant\<close>

definition item_wf :: "CYW_PENDING_SEND \<Rightarrow> bool" where
  "item_wf e \<longleftrightarrow> unat (PsHeldFrames e) = length (NblBuffers (PsNbl e)) \<and> PsHeldFrames e \<le> 64 \<and>
     suffix (PsNext e) (NblBuffers (PsNbl e)) \<and> PsNext e \<noteq> [] \<and> unat (PsFrames e) = length (PsNext e)"

definition held :: "CYW_PENDING_SEND list \<Rightarrow> nat" where
  "held es = (\<Sum>e\<leftarrow>es. unat (PsHeldFrames e))"

definition account :: "nat \<Rightarrow> CYW_PENDING_SEND list \<Rightarrow> u32 \<Rightarrow> u32 \<Rightarrow> bool" where
  "account limit es frames bytes \<longleftrightarrow> list_all item_wf es \<and> held es \<le> limit \<and> frames = word_of_nat (held es) \<and>
     bytes = (\<Sum>e\<leftarrow>es. PsBytes e)"

text \<open>Every NBL ever accepted is in exactly one place, and the two queues hold them in their order of submission.\<close>

definition owners :: "nbl list \<Rightarrow> nbl list \<Rightarrow> nbl list \<Rightarrow> nbl list \<Rightarrow> nbl list \<Rightarrow> bool" where
  "owners accepted queued hs rs returned \<longleftrightarrow>
     mset accepted = mset queued + mset hs + mset rs + mset returned \<and> subseq queued accepted"

definition txq_inv :: "txq \<Rightarrow> bool" where
  "txq_inv Q \<longleftrightarrow> account 64 (QEntries Q) (QFrames Q) (QBytes Q) \<and> account 128 (QBacklog Q) (QBacklogFrames Q) (QBacklogBytes Q) \<and>
     QOutstanding Q = word_of_nat (length (QEntries Q) + length (QHeld Q)) \<and> length (QEntries Q) + length (QHeld Q) \<le> 64 \<and>
     QCompleting Q = word_of_nat (length (QReturning Q)) \<and>
     owners (QAccepted Q) (map PsNbl (QEntries Q @ QBacklog Q)) (QHeld Q) (QReturning Q) (map fst (QReturned Q))"

definition txq_own :: "nbl list \<Rightarrow> nbl list \<Rightarrow> txq \<Rightarrow> bool" where
  "txq_own hs rs Q \<longleftrightarrow> txq_inv Q \<and> QHeld Q = hs \<and> QReturning Q = rs"

lemma txq_own_iff: "txq_own hs rs Q \<longleftrightarrow> QHeld Q = hs \<and> QReturning Q = rs \<and>
    account 64 (QEntries Q) (QFrames Q) (QBytes Q) \<and> account 128 (QBacklog Q) (QBacklogFrames Q) (QBacklogBytes Q) \<and>
    QOutstanding Q = word_of_nat (length (QEntries Q) + length hs) \<and> length (QEntries Q) + length hs \<le> 64 \<and>
    QCompleting Q = word_of_nat (length rs) \<and>
    owners (QAccepted Q) (map PsNbl (QEntries Q @ QBacklog Q)) hs rs (map fst (QReturned Q))"
  unfolding txq_own_def txq_inv_def by metis

subsection \<open>Frames of the helpers\<close>

lemma ctr_fields [simp]:
  "QGate (ctr f Q) = QGate Q" "QEntries (ctr f Q) = QEntries Q" "QFrames (ctr f Q) = QFrames Q" "QBytes (ctr f Q) = QBytes Q"
  "QOutstanding (ctr f Q) = QOutstanding Q" "QCompleting (ctr f Q) = QCompleting Q" "QBacklog (ctr f Q) = QBacklog Q"
  "QBacklogFrames (ctr f Q) = QBacklogFrames Q" "QBacklogBytes (ctr f Q) = QBacklogBytes Q" "QHeld (ctr f Q) = QHeld Q"
  "QReturning (ctr f Q) = QReturning Q" "QAccepted (ctr f Q) = QAccepted Q" "QReturned (ctr f Q) = QReturned Q"
  "QScript (ctr f Q) = QScript Q" "QAt (ctr f Q) = QAt Q" "QClock (ctr f Q) = QClock Q" "QTick (ctr f Q) = QTick Q"
  by (simp_all add: ctr_def)

lemma drop_fields [simp]:
  "QGate (Rpi5CywTrafficDrop n b Q) = QGate Q" "QEntries (Rpi5CywTrafficDrop n b Q) = QEntries Q"
  "QFrames (Rpi5CywTrafficDrop n b Q) = QFrames Q" "QBytes (Rpi5CywTrafficDrop n b Q) = QBytes Q"
  "QOutstanding (Rpi5CywTrafficDrop n b Q) = QOutstanding Q" "QCompleting (Rpi5CywTrafficDrop n b Q) = QCompleting Q"
  "QBacklog (Rpi5CywTrafficDrop n b Q) = QBacklog Q" "QBacklogFrames (Rpi5CywTrafficDrop n b Q) = QBacklogFrames Q"
  "QBacklogBytes (Rpi5CywTrafficDrop n b Q) = QBacklogBytes Q" "QHeld (Rpi5CywTrafficDrop n b Q) = QHeld Q"
  "QReturning (Rpi5CywTrafficDrop n b Q) = QReturning Q" "QAccepted (Rpi5CywTrafficDrop n b Q) = QAccepted Q"
  "QReturned (Rpi5CywTrafficDrop n b Q) = QReturned Q" "QScript (Rpi5CywTrafficDrop n b Q) = QScript Q"
  by (simp_all add: Rpi5CywTrafficDrop_def)

lemma QueryTime_eq: "QueryTime Q = (QClock Q (QTick Q), Q\<lparr>QTick := QTick Q + 1\<rparr>)"
  by (rule QueryTime_def)

lemma txq_own_frame [simp]:
  "txq_own hs rs (ctr f Q) = txq_own hs rs Q" "txq_own hs rs (Q\<lparr>QTick := t\<rparr>) = txq_own hs rs Q"
  "txq_own hs rs (Q\<lparr>QAt := a\<rparr>) = txq_own hs rs Q" "txq_own hs rs (Q\<lparr>QGate := g\<rparr>) = txq_own hs rs Q"
  "txq_own hs rs (Rpi5CywTrafficDrop n b Q) = txq_own hs rs Q"
  by (simp_all add: txq_own_def txq_inv_def)

subsection \<open>Accounting\<close>

lemma held_simps [simp]: "held [] = 0" "held (e # es) = unat (PsHeldFrames e) + held es" "held (es @ fs) = held es + held fs"
  by (simp_all add: held_def)

lemma item_wf_held: "item_wf e \<Longrightarrow> 1 \<le> unat (PsHeldFrames e)" "item_wf e \<Longrightarrow> unat (PsHeldFrames e) \<le> 64"
  by (auto simp: item_wf_def suffix_def Suc_le_eq word_le_nat_alt)

lemma length_le_held: "list_all item_wf es \<Longrightarrow> length es \<le> held es"
  by (induction es) (use item_wf_held(1) in fastforce)+

lemma account_length: "account n es f b \<Longrightarrow> length es \<le> n"
  using length_le_held by (fastforce simp: account_def)

lemma account_append:
  assumes "account n es f b" "item_wf e" "held es + unat (PsHeldFrames e) \<le> n"
  shows "account n (es @ [e]) (f + PsHeldFrames e) (b + PsBytes e)"
  using assms by (simp add: account_def)

lemma fits_held:
  assumes "account n es f b" "n \<le> 1000" "f \<le> word_of_nat n - h" "unat h \<le> n"
  shows "held es + unat h \<le> n"
proof -
  have n: "unat (word_of_nat n :: u32) = n" using assms(2) by (simp add: unat_of_nat take_bit_nat_eq_self)
  have "unat (word_of_nat n - h) = n - unat h" using assms(4) n by (simp add: unat_sub word_le_nat_alt)
  moreover have "unat f = held es"
    using assms(1,2) by (simp add: account_def unat_of_nat take_bit_nat_eq_self)
  ultimately show ?thesis using assms(3,4) by (simp add: word_le_nat_alt)
qed

lemma remove_nth_split: "i < length xs \<Longrightarrow> \<exists>ys zs. xs = ys @ xs ! i # zs \<and> remove_nth i xs = ys @ zs \<and> length ys = i"
  by (metis id_take_nth_drop length_take min.absorb4 remove_nth_def)

lemma account_remove_aux:
  assumes "account n (ys @ e # zs) f b"
  shows "account n (ys @ zs) (f - PsHeldFrames e) (b - PsBytes e)"
  using assms by (simp add: account_def)

lemma account_remove:
  assumes "account n es f b" "i < length es"
  shows "account n (remove_nth i es) (f - PsHeldFrames (es ! i)) (b - PsBytes (es ! i))"
proof -
  obtain ys zs where "es = ys @ es ! i # zs" "remove_nth i es = ys @ zs"
    using remove_nth_split [OF assms(2)] by blast
  then show ?thesis using assms(1) by (metis (no_types, lifting) account_remove_aux)
qed

lemma CancelMatch_fields [simp]:
  "PsNbl (CancelMatch c e) = PsNbl e" "PsNext (CancelMatch c e) = PsNext e" "PsHeldFrames (CancelMatch c e) = PsHeldFrames e"
  "PsBytes (CancelMatch c e) = PsBytes e" "PsFrames (CancelMatch c e) = PsFrames e"
  by (simp_all add: CancelMatch_def)

lemma account_cancel: "account n (map (CancelMatch c) es) f b = account n es f b"
proof -
  have "item_wf (CancelMatch c e) = item_wf e" for e by (simp add: item_wf_def)
  then show ?thesis by (simp add: account_def held_def list_all_iff comp_def)
qed

subsection \<open>Admission\<close>

lemma PrepareLoop_spec:
  assumes "PrepareLoop nbs f b m = (st, f', b', m')" "st = NDIS_STATUS_SUCCESS" "f \<le> 64"
  shows "unat f' = unat f + length nbs \<and> f' \<le> 64 \<and> f' \<noteq> 0"
  using assms
proof (induction nbs arbitrary: f b m)
  case (Cons nb nbs)
  have "f < - 1" using Cons.prems(3) by (rule le_less_trans) simp
  then have "f \<noteq> - 1" by simp
  then have s: "unat (f + 1) = Suc (unat f)" by (rule unat_Suc_no_wrap)
  show ?case
    using Cons.IH [of "f + 1" "b + nb_length nb" "if nb_length nb > m then nb_length nb else m"] Cons.prems s
    by (auto simp: Let_def not_less split: if_splits)
qed (auto split: if_splits)

lemma CywTxPrepare_item:
  assumes "CywTxPrepare N Q = ((st, Some item), Q')"
  shows "item_wf item \<and> PsNbl item = N \<and> (\<exists>t. Q' = Q\<lparr>QTick := t\<rparr>)"
proof -
  obtain st' f b m where p: "PrepareLoop (NblBuffers N) 0 0 0 = (st', f, b, m)" by (metis surj_pair)
  have "st' = NDIS_STATUS_SUCCESS" using assms p by (auto simp: CywTxPrepare_def split: if_splits)
  then have "unat f = length (NblBuffers N) \<and> f \<le> 64 \<and> f \<noteq> 0" using PrepareLoop_spec [OF p] by simp
  then show ?thesis using assms p \<open>st' = _\<close>
    by (auto simp: CywTxPrepare_def QueryTime_def item_wf_def unat_eq_zero)
qed

lemma CywTxPrepare_state:
  assumes "CywTxPrepare N Q = (r, Q')"
  shows "\<exists>g t. Q' = (ctr g Q)\<lparr>QTick := t\<rparr>"
proof -
  have id: "K = (ctr id K)\<lparr>QTick := QTick K\<rparr>" "K\<lparr>QTick := t\<rparr> = (ctr id K)\<lparr>QTick := t\<rparr>" "ctr g K = (ctr g K)\<lparr>QTick := QTick K\<rparr>" for K t g
    by (simp_all add: ctr_def)
  consider "Q' = Q" | g where "Q' = ctr g Q" | t where "Q' = Q\<lparr>QTick := t\<rparr>"
    using assms unfolding CywTxPrepare_def QueryTime_def by (auto split: prod.splits if_splits)
  then show ?thesis by cases (use id in blast)+
qed

lemma owners_accept:
  "owners acc q hs rs ret \<Longrightarrow> owners (acc @ [N]) (q @ [N]) hs rs ret"
  by (simp add: owners_def ac_simps)

text \<open>The invariant without the owners, for the states in the middle of a region.\<close>

definition books :: "nbl list \<Rightarrow> nbl list \<Rightarrow> txq \<Rightarrow> bool" where
  "books hs rs Q \<longleftrightarrow> QHeld Q = hs \<and> QReturning Q = rs \<and>
    account 64 (QEntries Q) (QFrames Q) (QBytes Q) \<and> account 128 (QBacklog Q) (QBacklogFrames Q) (QBacklogBytes Q) \<and>
    QOutstanding Q = word_of_nat (length (QEntries Q) + length hs) \<and> length (QEntries Q) + length hs \<le> 64 \<and>
    QCompleting Q = word_of_nat (length rs)"

lemma own_books: "txq_own hs rs Q \<longleftrightarrow> books hs rs Q \<and>
    owners (QAccepted Q) (map PsNbl (QEntries Q @ QBacklog Q)) hs rs (map fst (QReturned Q))"
  by (simp add: txq_own_iff books_def)

lemma activate_own:
  assumes "books hs rs Q" "item_wf item" "CywTxActiveFits Q (PsHeldFrames item)"
    and "owners acc (map PsNbl (QEntries Q @ [item] @ QBacklog Q)) hs rs (map fst (QReturned Q))"
  shows "txq_own hs rs (CywTxActivateLocked item b (Q\<lparr>QAccepted := acc\<rparr>))"
proof -
  have a: "account 64 (QEntries Q) (QFrames Q) (QBytes Q)"
    and o: "QOutstanding Q = word_of_nat (length (QEntries Q) + length hs)" "length (QEntries Q) + length hs \<le> 64"
    using assms(1) by (simp_all add: books_def)
  have "held (QEntries Q) + unat (PsHeldFrames item) \<le> 64"
    using fits_held [OF a] assms(3) item_wf_held(2) [OF assms(2)] by (simp add: CywTxActiveFits_def)
  then have a': "account 64 (QEntries Q @ [item]) (QFrames Q + PsHeldFrames item) (QBytes Q + PsBytes item)"
    by (rule account_append [OF a assms(2)])
  have "unat (QOutstanding Q) = length (QEntries Q) + length hs"
    using o(2) unfolding o(1) by (intro unat_word_of_nat_u32) simp
  then have "length (QEntries Q) + length hs < 64" using assms(3) by (simp add: CywTxActiveFits_def word_less_nat_alt)
  then show ?thesis using assms(1,4) a' by (simp add: CywTxActivateLocked_def Let_def txq_own_iff books_def)
qed

lemma backlog_own:
  assumes "txq_own hs rs Q" "item_wf item" "CywTxBacklogFits Q (PsHeldFrames item)"
    and "owners acc (map PsNbl (QEntries Q @ QBacklog Q @ [item])) hs rs (map fst (QReturned Q))"
  shows "txq_own hs rs (CywTxBacklogLocked item (Q\<lparr>QAccepted := acc\<rparr>))"
proof -
  have b: "account 128 (QBacklog Q) (QBacklogFrames Q) (QBacklogBytes Q)"
    using assms(1) by (simp add: txq_own_iff)
  have "held (QBacklog Q) + unat (PsHeldFrames item) \<le> 128"
    using fits_held [OF b] assms(3) item_wf_held(2) [OF assms(2)] by (simp add: CywTxBacklogFits_def)
  then have b': "account 128 (QBacklog Q @ [item]) (QBacklogFrames Q + PsHeldFrames item) (QBacklogBytes Q + PsBytes item)"
    by (rule account_append [OF b assms(2)])
  show ?thesis using assms(1,4) b' by (simp add: CywTxBacklogLocked_def Let_def txq_own_iff)
qed

lemma SubmitLocked_own:
  assumes "txq_own hs rs Q" "item_wf item" "SubmitLocked item Q = (st, Q')"
  shows "txq_own hs rs Q'"
proof -
  have o: "owners (QAccepted Q) (map PsNbl (QEntries Q @ QBacklog Q)) hs rs (map fst (QReturned Q))"
    using assms(1) by (simp add: txq_own_iff)
  have o': "owners (QAccepted Q @ [PsNbl item]) (map PsNbl (QEntries Q @ QBacklog Q @ [item])) hs rs (map fst (QReturned Q))"
    using owners_accept [OF o] by simp
  show ?thesis
    using assms(3) assms(1) activate_own [OF assms(1) [unfolded own_books, THEN conjunct1] assms(2)] backlog_own [OF assms(1,2) _ o'] o'
    by (auto simp: SubmitLocked_def Let_def split: if_splits)
qed

lemma submit_own:
  assumes "txq_own hs rs Q"
  shows "txq_own hs rs (snd (CywTxSubmitWithBacklog N Q))"
proof -
  obtain st io Q1 where p: "CywTxPrepare N Q = ((st, io), Q1)" by (metis surj_pair)
  have own: "txq_own hs rs Q1" using CywTxPrepare_state [OF p] assms by auto
  show ?thesis
  proof (cases io)
    case (Some item)
    obtain s2 Q2 where "SubmitLocked item Q1 = (s2, Q2)" by (metis surj_pair)
    then show ?thesis
      using SubmitLocked_own [OF own] CywTxPrepare_item [of N Q st item Q1] p Some assms
      by (auto simp: CywTxSubmitWithBacklog_def)
  qed (use p own assms in \<open>auto simp: CywTxSubmitWithBacklog_def\<close>)
qed

lemma cancel_own: "txq_own hs rs Q \<Longrightarrow> txq_own hs rs (CywTxCancel c Q)"
  by (simp add: txq_own_iff CywTxCancel_def account_cancel comp_def)

lemma run_event_own: "txq_own hs rs Q \<Longrightarrow> txq_own hs rs (run_event ev Q)"
  by (cases ev) (simp_all add: submit_own cancel_own CywTxSetGate_def)

lemma interfere_own: "txq_own hs rs Q \<Longrightarrow> txq_own hs rs (interfere Q)"
proof -
  have "txq_own hs rs Q \<Longrightarrow> txq_own hs rs (fold run_event evs Q)" for evs Q
    by (induction evs arbitrary: Q) (simp_all add: run_event_own)
  then show "txq_own hs rs Q \<Longrightarrow> ?thesis" by (simp add: interfere_def)
qed

subsection \<open>Promotion, removal and completion\<close>

lemma promote_own:
  assumes "txq_own hs rs Q" "CywTxPromoteOneLocked Q = (b, Q')"
  shows "txq_own hs rs Q'"
proof (cases "QBacklog Q")
  case Nil
  then show ?thesis using assms by (simp add: CywTxPromoteOneLocked_def)
next
  case (Cons item rest)
  show ?thesis
  proof (cases "QGate Q \<noteq> NDIS_STATUS_SUCCESS \<or> \<not> CywTxActiveFits Q (PsHeldFrames item)")
    case True
    then show ?thesis using assms Cons by (auto simp: CywTxPromoteOneLocked_def)
  next
    case False
    let ?K = "Q\<lparr>QBacklogFrames := QBacklogFrames Q - PsHeldFrames item, QBacklogBytes := QBacklogBytes Q - PsBytes item, QBacklog := rest\<rparr>"
    have acc: "account 128 (item # rest) (QBacklogFrames Q) (QBacklogBytes Q)"
      and own: "owners (QAccepted Q) (map PsNbl (QEntries Q @ [item] @ rest)) hs rs (map fst (QReturned Q))"
      using assms(1) Cons by (simp_all add: txq_own_iff)
    have wf: "item_wf item" and "account 128 rest (QBacklogFrames Q - PsHeldFrames item) (QBacklogBytes Q - PsBytes item)"
      using acc by (simp_all add: account_def)
    then have K: "books hs rs (ctr f (?K\<lparr>QTick := t\<rparr>))" for f t
      using assms(1) by (simp add: txq_own_iff books_def)
    have fits: "CywTxActiveFits (ctr f (?K\<lparr>QTick := t\<rparr>)) (PsHeldFrames item)" for f t
      using False by (simp add: CywTxActiveFits_def)
    have "txq_own hs rs (CywTxActivateLocked item False ((ctr f (?K\<lparr>QTick := t\<rparr>))\<lparr>QAccepted := QAccepted Q\<rparr>))" for f t
      by (rule activate_own [OF K wf fits]) (use own in simp)
    moreover have "(ctr f (?K\<lparr>QTick := t\<rparr>))\<lparr>QAccepted := QAccepted Q\<rparr> = ctr f (?K\<lparr>QTick := t\<rparr>)" for f t
      by (simp add: ctr_def)
    moreover have "ctr g ((ctr f ?K)\<lparr>QTick := t\<rparr>) = ctr (\<lambda>c. g (f c)) (?K\<lparr>QTick := t\<rparr>)" for f g t
      by (simp add: ctr_def)
    ultimately show ?thesis
      using assms(2) Cons False by (auto simp: CywTxPromoteOneLocked_def QueryTime_def Let_def)
  qed
qed

lemma PromoteAll_own: "txq_own hs rs Q \<Longrightarrow> txq_own hs rs (PromoteAll Q)"
proof (induction Q rule: PromoteAll.induct)
  case (1 Q)
  obtain b Q' where p: "CywTxPromoteOneLocked Q = (b, Q')" by (metis surj_pair)
  have "txq_own hs rs Q'" by (rule promote_own [OF 1(2) p])
  with 1(1) p show ?case by (subst PromoteAll.simps) simp
qed

lemma owners_remove:
  assumes "owners acc (ys @ N # zs) hs rs ret"
  shows "owners acc (ys @ zs) (hs @ [N]) rs ret" "owners acc (ys @ zs) hs (rs @ [N]) ret"
proof -
  have "subseq (ys @ zs) (ys @ N # zs)" by (intro list_emb_append_mono) auto
  then have "subseq (ys @ zs) acc" using assms by (metis owners_def subseq_order.trans)
  then show "owners acc (ys @ zs) (hs @ [N]) rs ret" "owners acc (ys @ zs) hs (rs @ [N]) ret"
    using assms by (simp_all add: owners_def)
qed

text \<open>
  Removal of the head, also when its remaining frames were just counted down: \<open>e\<close> and
  \<open>fs\<close> are the head and the others before.
\<close>

lemma remove_head_own:
  assumes "txq_own hs rs (Q\<lparr>QEntries := e # fs\<rparr>)" "QEntries Q = e' # es"
    and "PsNbl e' = PsNbl e" "PsHeldFrames e' = PsHeldFrames e" "PsBytes e' = PsBytes e"
  shows "\<exists>Q'. CywTxRemove 0 st Q = Some (PsNbl e, Q') \<and> QEntries Q' = es \<and> txq_own (hs @ [PsNbl e]) rs (Q'\<lparr>QEntries := fs\<rparr>)"
proof -
  have "owners (QAccepted Q) (map PsNbl (fs @ QBacklog Q)) (hs @ [PsNbl e]) rs (map fst (QReturned Q))"
    using assms(1) owners_remove(1) [of _ "[]"] by (simp add: txq_own_iff)
  moreover have "account 64 fs (QFrames Q - PsHeldFrames e) (QBytes Q - PsBytes e)"
    using assms(1) account_remove_aux [of _ "[]"] by (simp add: txq_own_iff)
  ultimately show ?thesis
    using assms by (simp add: CywTxRemove_def Let_def remove_nth_def txq_own_iff)
qed

lemma remove_own:
  assumes "txq_own hs rs Q" "i < length (QEntries Q)"
  shows "\<exists>N Q'. CywTxRemove i st Q = Some (N, Q') \<and> txq_own (hs @ [N]) rs Q'"
proof -
  let ?e = "QEntries Q ! i"
  obtain ys zs where z: "QEntries Q = ys @ ?e # zs" "remove_nth i (QEntries Q) = ys @ zs"
    using remove_nth_split [OF assms(2)] by blast
  have "owners (QAccepted Q) (map PsNbl (remove_nth i (QEntries Q) @ QBacklog Q)) (hs @ [PsNbl ?e]) rs (map fst (QReturned Q))"
    unfolding z(2) using assms(1) owners_remove(1) [of _ "map PsNbl ys"] z(1)
    by (metis (no_types, lifting) append.assoc append_Cons list.map(2) map_append txq_own_iff)
  moreover have "length (QEntries Q) = Suc (length (remove_nth i (QEntries Q)))"
    using arg_cong [OF z(1), of length] z(2) by simp
  ultimately show ?thesis
    using assms account_remove [of 64 "QEntries Q" "QFrames Q" "QBytes Q" i]
    by (simp add: CywTxRemove_def Let_def txq_own_iff)
qed

lemma backlog_remove_own:
  assumes "txq_own hs [] Q" "i < length (QBacklog Q)"
  shows "\<exists>N Q'. CywTxBacklogRemove i st Q = Some (N, Q') \<and> txq_own hs [N] Q'"
proof -
  let ?e = "QBacklog Q ! i"
  obtain ys zs where z: "QBacklog Q = ys @ ?e # zs" "remove_nth i (QBacklog Q) = ys @ zs"
    using remove_nth_split [OF assms(2)] by blast
  have "owners (QAccepted Q) (map PsNbl (QEntries Q @ remove_nth i (QBacklog Q))) hs ([] @ [PsNbl ?e]) (map fst (QReturned Q))"
    unfolding z(2) using assms(1) owners_remove(2) [of _ "map PsNbl (QEntries Q @ ys)"] z(1)
    by (metis (no_types, lifting) append.assoc append_Cons list.map(2) map_append txq_own_iff)
  note facts = this account_remove [of 128 "QBacklog Q" "QBacklogFrames Q" "QBacklogBytes Q" i, OF _ assms(2)] assms
  show ?thesis
  proof (intro exI conjI)
    show "CywTxBacklogRemove i st Q = Some (PsNbl ?e, snd (the (CywTxBacklogRemove i st Q)))"
      using assms(2) by (simp add: CywTxBacklogRemove_def Let_def)
    show "txq_own hs [PsNbl ?e] (snd (the (CywTxBacklogRemove i st Q)))"
      unfolding CywTxBacklogRemove_def Let_def if_P [OF assms(2)] option.sel snd_conv
      by (rule PromoteAll_own, cases "st = NDIS_STATUS_SUCCESS") (use facts in \<open>simp_all add: txq_own_iff\<close>)
  qed
qed

lemma complete_end_own:
  assumes "txq_own hs rs Q" "N \<in> set rs"
  shows "txq_own hs (remove1 N rs) (CompleteEnd N st Q)"
proof -
  obtain k where "length rs = Suc k" using assms(2) by (cases rs) auto
  then show ?thesis using assms by (simp add: CompleteEnd_def txq_own_iff owners_def length_remove1)
qed

lemma callback_own: "txq_own hs [N] Q \<Longrightarrow> txq_own hs [] (CompleteCallback N st Q)"
  using complete_end_own [of hs "[N]" "interfere Q" N st] by (simp add: CompleteCallback_def interfere_own)

lemma complete_backlog_own: "txq_own hs [N] Q \<Longrightarrow> txq_own hs [] (CywTxCompleteBacklog N st Q)"
  by (simp add: CywTxCompleteBacklog_def CompletionStatus_def callback_own)

lemma activate_completing:
  "CywTxActivateLocked item b (Q\<lparr>QCompleting := c\<rparr>) = (CywTxActivateLocked item b Q)\<lparr>QCompleting := c\<rparr>"
  by (simp add: CywTxActivateLocked_def Let_def ctr_def)

lemma promote_completing:
  "CywTxPromoteOneLocked (Q\<lparr>QCompleting := c\<rparr>) = map_prod id (\<lambda>Q. Q\<lparr>QCompleting := c\<rparr>) (CywTxPromoteOneLocked Q)"
proof (cases "QBacklog Q")
  case (Cons item rest)
  have c: "ctr f (Q\<lparr>QCompleting := c\<rparr>) = (ctr f Q)\<lparr>QCompleting := c\<rparr>" for f Q by (simp add: ctr_def)
  have u: "Q\<lparr>QCompleting := c, QBacklogFrames := a, QBacklogBytes := b, QBacklog := d\<rparr> =
      Q\<lparr>QBacklogFrames := a, QBacklogBytes := b, QBacklog := d, QCompleting := c\<rparr>"
    "Q\<lparr>QCompleting := c, QTick := t\<rparr> = Q\<lparr>QTick := t, QCompleting := c\<rparr>" for Q :: txq and a b d t by simp_all
  show ?thesis
    unfolding CywTxPromoteOneLocked_def QueryTime_def Let_def
    by (simp add: Cons CywTxActiveFits_def c u activate_completing del: txq.fold_congs txq.unfold_congs)
qed (simp add: CywTxPromoteOneLocked_def)

lemma promote_keeps_completing: "CywTxPromoteOneLocked Q = (b, Q') \<Longrightarrow> QCompleting Q' = QCompleting Q"
  using arg_cong [OF promote_completing [where Q = Q and c = "QCompleting Q"], of "\<lambda>p. QCompleting (snd p)"] by simp

lemma PromoteAll_completing: "PromoteAll (Q\<lparr>QCompleting := c\<rparr>) = (PromoteAll Q)\<lparr>QCompleting := c\<rparr>"
  "QCompleting (PromoteAll Q) = QCompleting Q"
proof (induction Q rule: PromoteAll.induct)
  case (1 Q)
  obtain b Q' where p: "CywTxPromoteOneLocked Q = (b, Q')" by (metis surj_pair)
  {
    case 1
    then show ?case using "1.IH"(1) p promote_completing [where Q = Q and c = c]
      by (subst (1 2) PromoteAll.simps) simp
  next
    case 2
    then show ?case using "1.IH"(2) p promote_keeps_completing [OF p] by (subst PromoteAll.simps) simp
  }
qed

lemma complete_begin_own:
  assumes "txq_own hs [] Q" "N \<in> set hs"
  shows "txq_own (remove1 N hs) [N] (CompleteBegin N st Q)"
proof -
  let ?C = "CompletionStatus st Q"
  let ?M = "?C\<lparr>QOutstanding := QOutstanding ?C - 1, QHeld := remove1 N (QHeld ?C), QReturning := QReturning ?C @ [N]\<rparr>"
  have c: "txq_own hs [] ?C" using assms by (simp add: CompletionStatus_def)
  obtain k where "length hs = Suc k" using assms(2) by (cases hs) auto
  then have "txq_own (remove1 N hs) [N] (?M\<lparr>QCompleting := 1\<rparr>)"
    using c assms(2) by (simp add: txq_own_iff owners_def length_remove1)
  then have "txq_own (remove1 N hs) [N] (PromoteAll (?M\<lparr>QCompleting := 1\<rparr>))" by (rule PromoteAll_own)
  moreover have "QCompleting (PromoteAll ?M) = 0" using c by (simp add: PromoteAll_completing(2) txq_own_iff)
  ultimately show ?thesis unfolding CompleteBegin_def Let_def by (simp add: PromoteAll_completing(1))
qed

lemma complete_own: "txq_own (N # hs) [] Q \<Longrightarrow> txq_own hs [] (CywTxComplete N st Q)"
  using complete_begin_own [of "N # hs" Q N st] by (simp add: CywTxComplete_def callback_own)

subsection \<open>What interference leaves alone\<close>

text \<open>Others append to the active queue and mark entries as cancelled, nothing else.\<close>

definition nexts :: "txq \<Rightarrow> net_buffer list list" where
  "nexts Q = map PsNext (QEntries Q)"

lemma submit_fields:
  "prefix (nexts Q) (nexts (snd (CywTxSubmitWithBacklog N Q)))"
  "QScript (snd (CywTxSubmitWithBacklog N Q)) = QScript Q" "QGate (snd (CywTxSubmitWithBacklog N Q)) = QGate Q"
  "QGate Q \<noteq> NDIS_STATUS_SUCCESS \<Longrightarrow> CywTxSubmitWithBacklog N Q = (QGate Q, Q)"
proof -
  obtain st io Q1 where p: "CywTxPrepare N Q = ((st, io), Q1)" by (metis surj_pair)
  then obtain g t where q: "Q1 = (ctr g Q)\<lparr>QTick := t\<rparr>" using CywTxPrepare_state by blast
  show "prefix (nexts Q) (nexts (snd (CywTxSubmitWithBacklog N Q)))"
    "QScript (snd (CywTxSubmitWithBacklog N Q)) = QScript Q" "QGate (snd (CywTxSubmitWithBacklog N Q)) = QGate Q"
    using p q by (cases io; simp add: CywTxSubmitWithBacklog_def SubmitLocked_def Let_def CywTxActivateLocked_def
        CywTxBacklogLocked_def nexts_def)+
qed (simp add: CywTxSubmitWithBacklog_def)

lemma run_event_nexts: "prefix (nexts Q) (nexts (run_event ev Q))"
proof (cases ev)
  case (EvSubmit N)
  then show ?thesis by (simp add: submit_fields)
qed (simp_all add: CywTxCancel_def CywTxSetGate_def nexts_def comp_def)

lemma run_event_script: "QScript (run_event ev Q) = QScript Q"
  by (cases ev) (simp_all add: submit_fields CywTxCancel_def CywTxSetGate_def)

lemma interfere_nexts: "prefix (nexts Q) (nexts (interfere Q))"
proof -
  have "prefix (nexts Q) (nexts (fold run_event evs Q))" for evs Q
    by (induction evs arbitrary: Q) (auto intro: prefix_order.trans [OF run_event_nexts])
  from this [of "Q\<lparr>QAt := QAt Q + 1\<rparr>"] show ?thesis by (simp add: interfere_def nexts_def)
qed

text \<open>With the gate closed for good, the queues do not grow.\<close>

definition closed :: "txq \<Rightarrow> bool" where
  "closed Q \<longleftrightarrow> QGate Q \<noteq> NDIS_STATUS_SUCCESS \<and> (\<forall>n. EvGate NDIS_STATUS_SUCCESS \<notin> set (QScript Q n))"

definition waiting :: "txq \<Rightarrow> nat" where
  "waiting Q = length (QEntries Q) + length (QBacklog Q)"

lemma run_event_closed:
  assumes "closed Q" "ev \<noteq> EvGate NDIS_STATUS_SUCCESS"
  shows "closed (run_event ev Q) \<and> waiting (run_event ev Q) = waiting Q"
  using assms by (cases ev) (auto simp: closed_def submit_fields CywTxCancel_def CywTxSetGate_def waiting_def)

lemma interfere_closed:
  assumes "closed Q"
  shows "closed (interfere Q) \<and> waiting (interfere Q) = waiting Q"
proof -
  have "closed Q \<Longrightarrow> set evs \<subseteq> - {EvGate NDIS_STATUS_SUCCESS} \<Longrightarrow>
      closed (fold run_event evs Q) \<and> waiting (fold run_event evs Q) = waiting Q" for evs Q
    by (induction evs arbitrary: Q) (auto simp: run_event_closed)
  from this [of "Q\<lparr>QAt := QAt Q + 1\<rparr>"] show ?thesis
    using assms by (auto simp: interfere_def closed_def waiting_def)
qed

lemma PromoteAll_closed: "QGate Q \<noteq> NDIS_STATUS_SUCCESS \<Longrightarrow> PromoteAll Q = Q"
  by (subst PromoteAll.simps) (simp add: CywTxPromoteOneLocked_def split: list.split)

lemma complete_closed:
  assumes "closed Q"
  shows "closed (CywTxComplete N st Q) \<and> waiting (CywTxComplete N st Q) = waiting Q"
    "closed (CywTxCompleteBacklog N st Q) \<and> waiting (CywTxCompleteBacklog N st Q) = waiting Q"
proof -
  have cb: "closed (CompleteCallback N st K) \<and> waiting (CompleteCallback N st K) = waiting K" if "closed K" for K
  proof -
    have "closed (CompleteEnd N st (interfere K)) \<and> waiting (CompleteEnd N st (interfere K)) = waiting K"
      using interfere_closed [OF that] by (simp add: CompleteEnd_def closed_def waiting_def)
    then show ?thesis using interfere_closed by (simp add: CompleteCallback_def)
  qed
  moreover have "closed (CompleteBegin N st Q)" "waiting (CompleteBegin N st Q) = waiting Q"
    using assms by (simp_all add: CompleteBegin_def CompletionStatus_def Let_def PromoteAll_closed closed_def waiting_def)
  ultimately show "closed (CywTxComplete N st Q) \<and> waiting (CywTxComplete N st Q) = waiting Q"
    "closed (CywTxCompleteBacklog N st Q) \<and> waiting (CywTxCompleteBacklog N st Q) = waiting Q"
    using assms by (simp_all add: CywTxComplete_def CywTxCompleteBacklog_def CompletionStatus_def closed_def waiting_def)
qed

subsection \<open>Flush\<close>

lemma length_remove_nth: "i < length xs \<Longrightarrow> Suc (length (remove_nth i xs)) = length xs"
  by (simp add: remove_nth_def)

lemma FlushTake_own:
  assumes "txq_own [] [] Q" "closed Q"
  shows "\<exists>t Q'. FlushTake st Q = Some (t, Q') \<and> closed Q' \<and>
    (case t of None \<Rightarrow> Q' = Q \<and> waiting Q = 0
     | Some (N, active) \<Rightarrow> Suc (waiting Q') = waiting Q \<and> (if active then txq_own [N] [] Q' else txq_own [] [N] Q'))"
proof -
  consider "QEntries Q \<noteq> []" | "QEntries Q = []" "QBacklog Q \<noteq> []" | "QEntries Q = []" "QBacklog Q = []" by blast
  then show ?thesis
  proof cases
    case 1
    then have i: "0 < length (QEntries Q)" by simp
    obtain N Q' where r: "CywTxRemove 0 st Q = Some (N, Q')" "txq_own [N] [] Q'"
      using remove_own [OF assms(1) i, of st] by auto
    then have "closed Q'" "Suc (waiting Q') = waiting Q"
      using i assms(2) length_remove_nth [OF i] by (auto simp: CywTxRemove_def Let_def closed_def waiting_def split: if_splits)
    then show ?thesis using 1 r by (simp add: FlushTake_def)
  next
    case 2
    then have i: "0 < length (QBacklog Q)" by simp
    obtain N Q' where r: "CywTxBacklogRemove 0 st Q = Some (N, Q')" "txq_own [] [N] Q'"
      using backlog_remove_own [OF assms(1) i, of st] by auto
    then have "closed Q'" "Suc (waiting Q') = waiting Q"
      using i assms(2) length_remove_nth [OF i]
      by (auto simp: CywTxBacklogRemove_def Let_def closed_def waiting_def PromoteAll_closed split: if_splits)
    then show ?thesis using 2 r by (simp add: FlushTake_def)
  next
    case 3
    then show ?thesis using assms by (simp add: FlushTake_def waiting_def)
  qed
qed

lemma FlushLoop_own:
  assumes "txq_own [] [] Q" "closed Q" "waiting Q < fuel"
  shows "\<exists>Q'. FlushLoop fuel st Q = Some (Inr Q') \<and> txq_own [] [] Q' \<and> closed Q' \<and> waiting Q' = 0"
  using assms
proof (induction fuel arbitrary: Q)
  case (Suc fuel)
  obtain t K where t: "FlushTake st Q = Some (t, K)" "closed K"
    "case t of None \<Rightarrow> K = Q \<and> waiting Q = 0
     | Some (N, active) \<Rightarrow> Suc (waiting K) = waiting Q \<and> (if active then txq_own [N] [] K else txq_own [] [N] K)"
    using FlushTake_own [OF Suc.prems(1,2)] by blast
  show ?case
  proof (cases t)
    case None
    then show ?thesis using t interfere_closed interfere_own Suc.prems by auto
  next
    case (Some p)
    obtain N active where p: "p = (N, active)" by force
    let ?K = "if active then CywTxComplete N st (interfere K) else CywTxCompleteBacklog N st (interfere K)"
    have "txq_own [] [] ?K" "closed ?K" "waiting ?K < fuel"
      using t Some p Suc.prems(3) interfere_closed [OF t(2)] complete_closed [of "interfere K" N st]
      by (auto intro!: complete_own complete_backlog_own interfere_own)
    then show ?thesis using Suc.IH [of ?K] t(1) Some p by (simp add: Let_def)
  qed
qed simp

end
