(* ===== verification/Tx_Pump.thy ===== *)
theory Tx_Pump
  imports Tx_Queue
begin

text \<open>
  Correctness of the transmit pump of the theory \<open>Tx_Queue\<close>, for every bus and every schedule of
  concurrent submissions, cancellations and gate changes: it never touches a slot that is not
  there, it ends, and the books and the ownership of all NBLs are in order when it does.
\<close>

abbreviation idle :: "txq \<Rightarrow> bool" where
  "idle \<equiv> txq_own [] []"

section \<open>The regions\<close>

lemma first_abort_Some:
  "first_abort f es i = Some (k, st) \<Longrightarrow> i \<le> k \<and> k < i + length es \<and> st \<noteq> NDIS_STATUS_SUCCESS"
  by (induction es arbitrary: i) (fastforce split: if_splits)+

lemma CleanupTake_own:
  assumes "idle Q"
  shows "\<exists>t Q'. CleanupTake Q = Some (t, Q') \<and> (case t of None \<Rightarrow> idle Q'
    | Some (N, c, active) \<Rightarrow> if active then txq_own [N] [] Q' else txq_own [] [N] Q')"
proof -
  define now K where "now = QClock Q (QTick Q)" and "K = Q\<lparr>QTick := QTick Q + 1\<rparr>"
  have q: "QueryTime Q = (now, K)" by (simp add: QueryTime_def now_def K_def)
  have k: "idle K" using assms by (simp add: K_def)
  let ?a = "first_abort (\<lambda>e. CywTxAbortStatus K e now) (QEntries K) 0"
  let ?b = "first_abort (\<lambda>e. CywTxAbortStatus K e now) (QBacklog K) 0"
  consider "?a = None" "?b = None" | i c where "?a = Some (i, c)" | i c where "?a = None" "?b = Some (i, c)"
    by (metis not_None_eq surj_pair)
  then show ?thesis
  proof cases
    case 1
    then show ?thesis using k by (simp add: CleanupTake_def q)
  next
    case (2 i c)
    let ?K = "if QGate K = NDIS_STATUS_SUCCESS \<and> \<not> PsCancelled (QEntries K ! i)
      then ctr (\<lambda>c. c\<lparr>TxExpired := TxExpired c + 1\<rparr>) K else K"
    have "idle ?K" "i < length (QEntries ?K)" using k first_abort_Some [OF 2] by auto
    then obtain N Q' where "CywTxRemove i c ?K = Some (N, Q')" "txq_own [N] [] Q'" using remove_own [of "[]" "[]" ?K i c] by auto
    then show ?thesis using 2 by (simp add: CleanupTake_def q Let_def)
  next
    case (3 i c)
    let ?K = "if QGate K = NDIS_STATUS_SUCCESS
      then if PsCancelled (QBacklog K ! i)
           then ctr (\<lambda>c. c\<lparr>TxBacklogCancelled := TxBacklogCancelled c + 1\<rparr>) K
           else ctr (\<lambda>c. c\<lparr>TxExpired := TxExpired c + 1, TxBacklogExpired := TxBacklogExpired c + 1\<rparr>) K
      else K"
    have "idle ?K" "i < length (QBacklog ?K)" using k first_abort_Some [OF 3(2)] by auto
    then obtain N Q' where "CywTxBacklogRemove i c ?K = Some (N, Q')" "txq_own [] [N] Q'"
      using backlog_remove_own [of "[]" ?K i c] by auto
    then show ?thesis using 3 by (simp add: CleanupTake_def q Let_def)
  qed
qed

lemma CleanupLoop_own: "idle Q \<Longrightarrow> \<exists>Q'. CleanupLoop n Q = Some Q' \<and> idle Q'"
proof (induction n arbitrary: Q)
  case (Suc n)
  obtain t K where t: "CleanupTake Q = Some (t, K)" "case t of None \<Rightarrow> idle K
    | Some (N, c, active) \<Rightarrow> if active then txq_own [N] [] K else txq_own [] [N] K"
    using CleanupTake_own [OF Suc.prems] by blast
  show ?case
  proof (cases t)
    case None
    then show ?thesis using t interfere_own by (simp add: Let_def)
  next
    case (Some p)
    obtain N c active where p: "p = (N, c, active)" by (metis surj_pair)
    let ?K = "if active then CywTxComplete N c (interfere K) else CywTxCompleteBacklog N c (interfere K)"
    have "idle ?K" using t Some p by (auto intro!: complete_own complete_backlog_own interfere_own)
    then show ?thesis using Suc.IH [of ?K] t(1) Some p by (simp add: Let_def)
  qed
qed simp

lemma nexts_fields [simp]: "nexts (ctr f Q) = nexts Q" "nexts (Q\<lparr>QTick := t\<rparr>) = nexts Q"
  by (simp_all add: nexts_def)

lemma PumpHead_own:
  assumes "idle Q"
  shows "\<exists>h Q'. PumpHead Q = Some (h, Q') \<and> (case h of HeadEmpty \<Rightarrow> idle Q' | HeadAbort N c \<Rightarrow> txq_own [N] [] Q'
    | HeadSend nb \<Rightarrow> idle Q' \<and> prefix [nb] (nexts Q'))"
proof -
  define K where "K = (if QEntries Q = [] then snd (CywTxPromoteOneLocked Q) else Q)"
  have k: "idle K" using assms promote_own [OF assms] by (metis K_def prod.collapse)
  show ?thesis
  proof (cases "QEntries K")
    case Nil
    then show ?thesis using k by (simp add: PumpHead_def K_def [symmetric])
  next
    case (Cons e es)
    define c where "c = CywTxAbortStatus (K\<lparr>QTick := QTick K + 1\<rparr>) e (QClock K (QTick K))"
    show ?thesis
    proof (cases "c = NDIS_STATUS_SUCCESS")
      case True
      then show ?thesis using k Cons
        by (simp add: PumpHead_def K_def [symmetric] QueryTime_def Let_def c_def nexts_def)
    next
      case False
      have "idle (K\<lparr>QTick := QTick K + 1\<rparr>)" "0 < length (QEntries (K\<lparr>QTick := QTick K + 1\<rparr>))" using k Cons by simp_all
      then obtain N Q' where "CywTxRemove 0 c (K\<lparr>QTick := QTick K + 1\<rparr>) = Some (N, Q')" "txq_own [N] [] Q'"
        using remove_own [of "[]" "[]" "K\<lparr>QTick := QTick K + 1\<rparr>" 0 c] by auto
      then show ?thesis using Cons False
        by (simp add: PumpHead_def K_def [symmetric] QueryTime_def Let_def c_def)
    qed
  qed
qed

text \<open>An entry with one frame less.\<close>

lemma sent_item_wf:
  assumes "item_wf e" "PsFrames e - 1 \<noteq> 0"
  shows "item_wf (e\<lparr>PsNext := tl (PsNext e), PsFrames := PsFrames e - 1\<rparr>)"
proof -
  have f: "unat (PsFrames e) = length (PsNext e)" "PsNext e \<noteq> []" using assms(1) by (simp_all add: item_wf_def)
  then have "PsFrames e \<noteq> 0" by auto
  then have u: "unat (PsFrames e - 1) = length (PsNext e) - 1" using f by (simp add: unat_minus_one)
  then have "tl (PsNext e) \<noteq> []" using assms(2) by (metis Nitpick.size_list_simp(2) diff_Suc_1 f(2) unat_eq_zero length_tl list.size(3))
  moreover have "suffix (tl (PsNext e)) (NblBuffers (PsNbl e))"
    using assms(1) unfolding item_wf_def by (blast intro: suffix_order.trans [OF suffix_tl])
  ultimately show ?thesis using assms(1) u by (simp add: item_wf_def)
qed

lemma update_head_own:
  assumes "txq_own hs rs Q" "QEntries Q = e # es" "item_wf e'"
    and "PsNbl e' = PsNbl e" "PsHeldFrames e' = PsHeldFrames e" "PsBytes e' = PsBytes e"
  shows "txq_own hs rs (Q\<lparr>QEntries := e' # es\<rparr>)"
  using assms by (simp add: txq_own_iff account_def)

lemma last_frame:
  assumes "item_wf e" "PsFrames e - 1 = 0"
  shows "length (PsNext e) = 1"
proof -
  have "PsFrames e = 1" using assms(2) by simp
  then show ?thesis using assms(1) by (simp add: item_wf_def)
qed

lemma PumpSettle_own:
  assumes "idle Q" "prefix [nb] (nexts Q)"
  shows "\<exists>d c Q'. PumpSettle st small nb Q = Some ((d, c), Q') \<and>
    (case d of None \<Rightarrow> idle Q' | Some N \<Rightarrow> txq_own [N] [] Q') \<and>
    (d \<noteq> None \<and> c = NDIS_STATUS_SUCCESS \<longrightarrow> NT_SUCCESS st \<and> length nb = 1) \<and> (NT_SUCCESS st \<or> d \<noteq> None)"
proof -
  obtain e es where q: "QEntries Q = e # es" "PsNext e = nb"
    using assms(2) by (cases "QEntries Q") (auto simp: nexts_def)
  have wf: "item_wf e" using assms(1) q by (simp add: txq_own_iff account_def)
  define K where "K = Q\<lparr>QTick := Suc (QTick Q)\<rparr>"
  define c0 where "c0 = CywTxAbortStatus K e (QClock Q (QTick Q))"
  have k: "idle K" "QEntries K = e # es" using assms(1) q by (simp_all add: K_def)
  let ?e = "e\<lparr>PsNext := tl nb, PsFrames := PsFrames e - 1\<rparr>"
  let ?U = "\<lambda>g. ctr g (K\<lparr>QEntries := ?e # es\<rparr>)"
  have rem: "\<exists>Q'. CywTxRemove 0 c (?U g) = Some (PsNbl e, Q') \<and> txq_own [PsNbl e] [] Q'" for c g
  proof -
    have "idle ((?U g)\<lparr>QEntries := e # es\<rparr>)" using k by (simp add: txq_own_iff)
    from remove_head_own [OF this, of ?e es c]
    obtain Q' where "CywTxRemove 0 c (?U g) = Some (PsNbl e, Q')" "QEntries Q' = es"
      "txq_own [PsNbl e] [] (Q'\<lparr>QEntries := es\<rparr>)" by auto
    moreover from this(2) have "Q'\<lparr>QEntries := es\<rparr> = Q'" by auto
    ultimately show ?thesis by auto
  qed
  have rem0: "\<exists>N Q'. CywTxRemove 0 c K = Some (N, Q') \<and> txq_own [N] [] Q'" for c
    using remove_own [OF k(1), of 0 c] k(2) by simp
  consider (fail) "\<not> NT_SUCCESS st" | (last) "NT_SUCCESS st" "c0 \<noteq> NDIS_STATUS_SUCCESS \<or> PsFrames e - 1 = 0"
    | (more) "NT_SUCCESS st" "c0 = NDIS_STATUS_SUCCESS" "PsFrames e - 1 \<noteq> 0" by blast
  then show ?thesis
  proof cases
    case fail
    obtain N Q' where "CywTxRemove 0 (if c0 = NDIS_STATUS_SUCCESS then NDIS_STATUS_FAILURE else c0) K = Some (N, Q')"
      "txq_own [N] [] Q'" using rem0 by blast
    then show ?thesis using fail q
      by (auto simp: PumpSettle_def QueryTime_def K_def [symmetric] Let_def c0_def [symmetric])
  next
    case last
    let ?g = "\<lambda>c. c\<lparr>TxPackets := TxPackets c + 1,
      TxAdaptiveSmallFrames := (if small then TxAdaptiveSmallFrames c + 1 else TxAdaptiveSmallFrames c),
      TxAdaptiveBulkFrames := (if small then TxAdaptiveBulkFrames c else TxAdaptiveBulkFrames c + 1)\<rparr>"
    have "PumpSettle st small nb Q = map_option (\<lambda>(N, Q). ((Some N, c0), Q)) (CywTxRemove 0 c0 (?U ?g))"
      using last q by (auto simp: PumpSettle_def QueryTime_def K_def [symmetric] Let_def c0_def [symmetric])
    moreover obtain Q' where "CywTxRemove 0 c0 (?U ?g) = Some (PsNbl e, Q')" "txq_own [PsNbl e] [] Q'"
      using rem by blast
    ultimately show ?thesis using last last_frame [OF wf] q(2) by auto
  next
    case more
    have "item_wf ?e" using sent_item_wf [OF wf more(3)] q(2) by simp
    then have "idle (K\<lparr>QEntries := ?e # es\<rparr>)" by (intro update_head_own [OF k]) simp_all
    then show ?thesis using more q
      by (simp add: PumpSettle_def QueryTime_def K_def [symmetric] Let_def c0_def [symmetric])
  qed
qed

lemma PairSettle_own:
  assumes "idle Q" "prefix [nb, nb2] (nexts Q)"
  shows "\<exists>N c N2 c2 Q'. PairSettle st nb nb2 Q = Some ((N, c), (N2, c2), Q') \<and> txq_own [N, N2] [] Q'"
proof -
  obtain e0 e1 es where q: "QEntries Q = e0 # e1 # es" "PsNext e0 = nb" "PsNext e1 = nb2"
    using assms(2) by (cases "QEntries Q" rule: list.exhaust [OF _ list.exhaust [of "tl (QEntries Q)"]])
      (auto simp: nexts_def Cons_prefix_Cons neq_Nil_conv prefix_def)
  define K where "K = Q\<lparr>QTick := QTick Q + 2\<rparr>"
  have k: "idle (M\<lparr>QEntries := e0 # e1 # es\<rparr>)" if "\<exists>g f0 f1. M = ctr g (K\<lparr>QEntries := f0 # f1 # es\<rparr>)" for M
    using assms(1) q that by (auto simp: K_def txq_own_iff)
  have two: "\<exists>N N2 Q1 Q2. CywTxRemove 0 c M = Some (N, Q1) \<and> CywTxRemove 0 c2 Q1 = Some (N2, Q2) \<and> txq_own [N, N2] [] Q2"
    if M: "M = ctr g (K\<lparr>QEntries := f0 # f1 # es\<rparr>)" and
      f: "PsNbl f0 = PsNbl e0" "PsHeldFrames f0 = PsHeldFrames e0" "PsBytes f0 = PsBytes e0"
         "PsNbl f1 = PsNbl e1" "PsHeldFrames f1 = PsHeldFrames e1" "PsBytes f1 = PsBytes e1" for M g f0 f1 c c2
  proof -
    have "QEntries M = f0 # f1 # es" using M by simp
    from remove_head_own [OF k this f(1-3), of c]
    obtain Q1 where r: "CywTxRemove 0 c M = Some (PsNbl e0, Q1)" "QEntries Q1 = f1 # es"
      "txq_own ([] @ [PsNbl e0]) [] (Q1\<lparr>QEntries := e1 # es\<rparr>)" using M by blast
    from remove_head_own [OF r(3,2) f(4-6), of c2]
    obtain Q2 where "CywTxRemove 0 c2 Q1 = Some (PsNbl e1, Q2)" "QEntries Q2 = es"
      "txq_own ([] @ [PsNbl e0] @ [PsNbl e1]) [] (Q2\<lparr>QEntries := es\<rparr>)" by auto
    moreover from this(2) have "Q2\<lparr>QEntries := es\<rparr> = Q2" by auto
    ultimately show ?thesis using r(1) by auto
  qed
  let ?c0 = "CywTxAbortStatus K e0 (QClock Q (QTick Q))" and ?c1 = "CywTxAbortStatus K e1 (QClock Q (QTick Q + 1))"
  show ?thesis
  proof (cases "NT_SUCCESS st")
    case True
    then show ?thesis
      using two [OF refl, of "e0\<lparr>PsNext := tl nb, PsFrames := PsFrames e0 - 1\<rparr>" "e1\<lparr>PsNext := tl nb2, PsFrames := PsFrames e1 - 1\<rparr>"
          ?c0 "\<lambda>c. c\<lparr>TxPackets := TxPackets c + 2, TxAdaptiveSmallFrames := TxAdaptiveSmallFrames c + 2,
                        TxAdaptiveSmallGlomChains := TxAdaptiveSmallGlomChains c + 1\<rparr>" ?c1] q
      by (auto simp: PairSettle_def QueryTime_def K_def Let_def)
  next
    case False
    have id: "K = ctr id (K\<lparr>QEntries := e0 # e1 # es\<rparr>)" using q by (simp add: ctr_def K_def)
    show ?thesis
      using two [OF id refl refl refl refl refl refl, of "if ?c0 = NDIS_STATUS_SUCCESS then NDIS_STATUS_FAILURE else ?c0"
          "if ?c1 = NDIS_STATUS_SUCCESS then NDIS_STATUS_FAILURE else ?c1"] q False
      by (auto simp: PairSettle_def QueryTime_def K_def Let_def)
  qed
qed

section \<open>A round of the pump\<close>

lemma interfere_head: "prefix ns (nexts Q) \<Longrightarrow> prefix ns (nexts (interfere Q))"
  by (rule prefix_order.trans [OF _ interfere_nexts])

lemma PairCandidate_own:
  assumes "idle Q" "CywTxPairCandidate P r (Q, w) = (c, Q', w')"
  shows "idle Q' \<and> (\<forall>ns. prefix ns (nexts Q) \<longrightarrow> prefix ns (nexts Q')) \<and>
    (c \<noteq> None \<longrightarrow> 2 \<le> r \<and> (\<exists>b b2. c = Some ([b], [b2]) \<and> prefix [[b], [b2]] (nexts Q')))"
proof -
  have i: "idle (interfere (Q\<lparr>QTick := t\<rparr>))" "prefix ns (nexts Q) \<Longrightarrow> prefix ns (nexts (interfere (Q\<lparr>QTick := t\<rparr>)))" for t ns
    using assms(1) by (auto intro: interfere_own interfere_head)
  have pe: "PairEntry e \<Longrightarrow> \<exists>b. PsNext e = [b]" for e
    by (auto simp: PairEntry_def split: list.splits)
  show ?thesis
  proof (cases "c = None")
    case True
    then have "Q' = Q \<or> (\<exists>t. Q' = interfere (Q\<lparr>QTick := t\<rparr>))"
      using assms(2) by (auto simp: CywTxPairCandidate_def QueryTime_def split: if_splits prod.splits list.splits)
    then show ?thesis using True assms(1) i by auto
  next
    case False
    then obtain e0 e1 es where q: "QEntries Q = e0 # e1 # es" "PairEntry e0" "PairEntry e1" "c = Some (PsNext e0, PsNext e1)"
      "2 \<le> r" "Q' = interfere (Q\<lparr>QTick := Suc (QTick Q)\<rparr>)"
      using assms(2) by (auto simp: CywTxPairCandidate_def QueryTime_def split: if_splits prod.splits list.splits)
    obtain b b2 where "PsNext e0 = [b]" "PsNext e1 = [b2]" using pe q(2,3) by metis
    then show ?thesis using q i by (auto simp: nexts_def)
  qed
qed

lemma PumpPair_own:
  assumes "idle Q" "PlSent l \<le> budget"
  shows "\<exists>x nb' l' Q' w'. PumpPair P budget (l, Q, w) = Some ((x, nb'), l', Q', w') \<and> idle Q' \<and> PlSent l' \<le> budget \<and>
    (case x of None \<Rightarrow> PlSent l' = PlSent l \<and> (\<forall>ns. prefix ns (nexts Q) \<longrightarrow> prefix ns (nexts Q')) \<and>
        (case nb' of None \<Rightarrow> True | Some nb \<Rightarrow> prefix [nb] (nexts Q'))
     | Some x \<Rightarrow> x \<noteq> PumpBreak \<and> (x = PumpAgain \<longrightarrow> PlSent l < PlSent l'))"
proof -
  obtain c K v where c: "(if PlService l \<noteq> 0 then (None, Q, w) else CywTxPairCandidate P (budget - PlSent l) (Q, w)) = (c, K, v)"
    by (metis surj_pair)
  have k: "idle K \<and> (\<forall>ns. prefix ns (nexts Q) \<longrightarrow> prefix ns (nexts K)) \<and>
    (c \<noteq> None \<longrightarrow> 2 \<le> budget - PlSent l \<and> (\<exists>b b2. c = Some ([b], [b2]) \<and> prefix [[b], [b2]] (nexts K)))"
    using PairCandidate_own [OF assms(1), of P "budget - PlSent l" w c K v] c assms(1)
    by (cases "PlService l = 0") auto
  show ?thesis
  proof (cases c)
    case None
    then show ?thesis using c k assms(2) by (simp add: PumpPair_def)
  next
    case (Some p)
    then obtain b b2 where p: "p = ([b], [b2])" "prefix [[b], [b2]] (nexts K)" "PlSent l + 2 \<le> budget" using k by auto
    have one: "prefix [[b]] (nexts K)" using p(2) by (auto simp: prefix_def)
    obtain st u where t: "CywTxTransferPair P (StageFrame b) (StageFrame b2) v = (st, u)" by force
    consider "\<not> (NbMapped b \<and> NbMapped b2)" | "NbMapped b" "NbMapped b2" "st = STATUS_DEVICE_BUSY"
      | "NbMapped b" "NbMapped b2" "st \<noteq> STATUS_DEVICE_BUSY" by blast
    then show ?thesis
    proof cases
      case 1
      then show ?thesis using c k Some p one assms(2) by (auto simp: PumpPair_def)
    next
      case 2
      then show ?thesis using c k Some p one t assms(2) by (auto simp: PumpPair_def intro: interfere_own interfere_head)
    next
      case 3
      have "idle (interfere K)" "prefix [[b], [b2]] (nexts (interfere K))" using k p(2) interfere_own interfere_head by blast+
      from PairSettle_own [OF this, of st]
      obtain N d N2 d2 M where m: "PairSettle st [b] [b2] (interfere K) = Some ((N, d), (N2, d2), M)" "txq_own [N, N2] [] M"
        by blast
      have "idle (CywTxComplete N2 d2 (CywTxComplete N d (interfere M)))"
        using m(2) by (auto intro!: complete_own interfere_own)
      then show ?thesis using 3 c Some p t m(1) assms(2) by (simp add: PumpPair_def Let_def)
    qed
  qed
qed

lemma PumpTransfer_own:
  assumes "idle Q" "PumpTransfer P budget b (l, Q, w) = (st, l', Q', w')"
  shows "idle Q' \<and> PlSent l' = PlSent l \<and> (\<forall>ns. prefix ns (nexts Q) \<longrightarrow> prefix ns (nexts Q')) \<and>
    (\<not> NbMapped b \<longrightarrow> st = STATUS_INSUFFICIENT_RESOURCES)"
  using assms by (auto simp: PumpTransfer_def Let_def split: if_splits prod.splits intro!: interfere_own interfere_head)

lemma PumpSingle_own:
  assumes "idle Q" "prefix [nb] (nexts Q)" "PlSent l < budget"
  shows "\<exists>x l' Q' w'. PumpSingle P budget nb (l, Q, w) = Some (x, l', Q', w') \<and> idle Q' \<and> PlSent l' \<le> budget \<and>
    (x = PumpAgain \<longrightarrow> PlSent l < PlSent l')"
proof -
  obtain ok v where ok: "CywTxCanTransfer P w = (ok, v)" by force
  obtain e es where q: "QEntries Q = e # es" "PsNext e = nb"
    using assms(2) by (cases "QEntries Q") (auto simp: nexts_def)
  then obtain b bs where nb: "nb = b # bs" using assms(1) by (cases nb) (auto simp: txq_own_iff account_def item_wf_def)
  obtain st l1 K u where t: "PumpTransfer P budget b (l, Q, v) = (st, l1, K, u)" by (metis surj_pair)
  note k = PumpTransfer_own [OF assms(1) t]
  obtain d c M where m: "PumpSettle st (CywTxAdaptiveSmallLength (nb_length b)) nb K = Some ((d, c), M)"
    "case d of None \<Rightarrow> idle M | Some N \<Rightarrow> txq_own [N] [] M" "NT_SUCCESS st \<or> d \<noteq> None"
    using PumpSettle_own [of K nb st "CywTxAdaptiveSmallLength (nb_length b)"] k assms(2) by blast
  have own: "idle (case d of None \<Rightarrow> interfere M | Some N \<Rightarrow> CywTxComplete N c (interfere M))"
    using m(2) by (cases d) (auto intro: complete_own interfere_own)
  show ?thesis
  proof (cases "ok \<and> st \<noteq> STATUS_DEVICE_BUSY")
    case True
    then show ?thesis using ok nb t m(1) own assms(3) k
      by (simp add: PumpSingle_def Let_def split del: if_split) (auto split: if_splits)
  next
    case False
    then show ?thesis using ok nb t assms(1,3) k by (auto simp: PumpSingle_def CreditWait_def)
  qed
qed

lemma PumpRound_own:
  assumes "idle Q" "PlSent l < budget"
  shows "\<exists>x l' Q' w'. PumpRound P budget (l, Q, w) = Some (x, l', Q', w') \<and> idle Q' \<and> PlSent l' \<le> budget \<and>
    (x = PumpAgain \<longrightarrow> PlSent l < PlSent l')"
proof -
  obtain h K where h: "PumpHead Q = Some (h, K)" "case h of HeadEmpty \<Rightarrow> idle K | HeadAbort N c \<Rightarrow> txq_own [N] [] K
    | HeadSend nb \<Rightarrow> idle K \<and> prefix [nb] (nexts K)" using PumpHead_own [OF assms(1)] by blast
  show ?thesis
  proof (cases h)
    case (HeadSend nb)
    then have k: "idle (interfere K)" "prefix [nb] (nexts (interfere K))" using h by (auto intro: interfere_own interfere_head)
    from PumpPair_own [OF this(1), of l budget P w] assms(2)
    obtain x nb' l1 M v where x: "PumpPair P budget (l, interfere K, w) = Some ((x, nb'), l1, M, v)" "idle M" "PlSent l1 \<le> budget"
      "case x of None \<Rightarrow> PlSent l1 = PlSent l \<and> (\<forall>ns. prefix ns (nexts (interfere K)) \<longrightarrow> prefix ns (nexts M)) \<and>
        (case nb' of None \<Rightarrow> True | Some nb \<Rightarrow> prefix [nb] (nexts M))
       | Some x \<Rightarrow> x \<noteq> PumpBreak \<and> (x = PumpAgain \<longrightarrow> PlSent l < PlSent l1)" by auto
    show ?thesis
    proof (cases x)
      case None
      then have "prefix [case nb' of None \<Rightarrow> nb | Some c \<Rightarrow> c] (nexts M)" "PlSent l1 < budget" "PlSent l1 = PlSent l"
        using x k assms(2) by (auto split: option.splits)
      from PumpSingle_own [OF x(2) this(1,2), of P v] this(3) show ?thesis
        using h HeadSend x(1) None by (simp add: PumpRound_def Let_def)
    next
      case (Some y)
      then show ?thesis using h HeadSend x by (auto simp: PumpRound_def Let_def)
    qed
  qed (use h assms(2) in \<open>auto simp: PumpRound_def Let_def intro: interfere_own complete_own\<close>)
qed

lemma PumpLoop_own:
  assumes "idle Q" "PlSent l \<le> budget" "budget - PlSent l \<le> fuel"
  shows "\<exists>st l' Q' w'. PumpLoop fuel P budget (l, Q, w) = Some (Some st, l', Q', w') \<and> idle Q' \<and> PlSent l' \<le> budget"
  using assms
proof (induction fuel arbitrary: l Q w)
  case (Suc fuel)
  show ?case
  proof (cases "PlSent l < budget")
    case True
    from PumpRound_own [OF Suc.prems(1) True, of P w]
    obtain x l' Q' w' where r: "PumpRound P budget (l, Q, w) = Some (x, l', Q', w')" "idle Q'" "PlSent l' \<le> budget"
      "x = PumpAgain \<longrightarrow> PlSent l < PlSent l'" by blast
    show ?thesis
    proof (cases x)
      case PumpAgain
      then show ?thesis using Suc.IH [of Q' l' w'] Suc.prems(3) r True by simp
    qed (use r True in simp_all)
  qed (use Suc.prems in simp)
qed simp

section \<open>The queue as a transition system\<close>

text \<open>
  The lock regions in any order: events of other processors, and the regions of the single bus
  worker, which has at most one NBL in the completion callback.
\<close>

inductive tx_step :: "txq \<Rightarrow> txq \<Rightarrow> bool" where
  event: "tx_step Q (run_event ev Q)"
| remove: "CywTxRemove i st Q = Some (N, Q') \<Longrightarrow> tx_step Q Q'"
| backlog_remove: "QReturning Q = [] \<Longrightarrow> CywTxBacklogRemove i st Q = Some (N, Q') \<Longrightarrow> tx_step Q Q'"
| promote: "tx_step Q (snd (CywTxPromoteOneLocked Q))"
| complete_begin: "QReturning Q = [] \<Longrightarrow> N \<in> set (QHeld Q) \<Longrightarrow> tx_step Q (CompleteBegin N st Q)"
| complete_end: "N \<in> set (QReturning Q) \<Longrightarrow> tx_step Q (CompleteEnd N st Q)"
| settle: "PumpSettle st small nb Q = Some ((d, c), Q') \<Longrightarrow> prefix [nb] (nexts Q) \<Longrightarrow> QHeld Q = [] \<Longrightarrow> QReturning Q = [] \<Longrightarrow> tx_step Q Q'"

definition tx_start :: "txq \<Rightarrow> bool" where
  "tx_start Q \<longleftrightarrow> QEntries Q = [] \<and> QFrames Q = 0 \<and> QBytes Q = 0 \<and> QOutstanding Q = 0 \<and> QCompleting Q = 0 \<and>
     QBacklog Q = [] \<and> QBacklogFrames Q = 0 \<and> QBacklogBytes Q = 0 \<and> QHeld Q = [] \<and> QReturning Q = [] \<and>
     QAccepted Q = [] \<and> QReturned Q = []"

definition tx_good :: "txq \<Rightarrow> bool" where
  "tx_good Q \<longleftrightarrow> txq_own (QHeld Q) (QReturning Q) Q \<and> length (QReturning Q) \<le> 1"

lemma tx_good_own: "txq_own hs rs Q \<Longrightarrow> length rs \<le> 1 \<Longrightarrow> tx_good Q"
  by (simp add: tx_good_def txq_own_def)

lemma tx_start_own: "tx_start Q \<Longrightarrow> idle Q"
  by (simp add: tx_start_def txq_own_iff account_def owners_def)

interpretation tx: invariant_system tx_start tx_step tx_good
proof
  show "tx_good Q" if "tx_start Q" for Q using tx_good_own [OF tx_start_own [OF that]] by simp
next
  fix Q Q' assume "tx_step Q Q'" "tx_good Q"
  then have own: "txq_own (QHeld Q) (QReturning Q) Q" and len: "length (QReturning Q) \<le> 1" by (simp_all add: tx_good_def)
  from \<open>tx_step Q Q'\<close> show "tx_good Q'"
  proof cases
    case (event ev)
    then show ?thesis using tx_good_own [OF run_event_own [OF own] len] by simp
  next
    case (remove i st N)
    then have "i < length (QEntries Q)" by (auto simp: CywTxRemove_def split: if_splits)
    from remove_own [OF own this, of st] remove show ?thesis using tx_good_own len by auto
  next
    case (backlog_remove i st N)
    then have "i < length (QBacklog Q)" by (auto simp: CywTxBacklogRemove_def split: if_splits)
    from backlog_remove_own [OF _ this, of "QHeld Q" st] backlog_remove show ?thesis using own tx_good_own by auto
  next
    case promote
    then show ?thesis using tx_good_own [OF promote_own [OF own] len] by (metis prod.collapse)
  next
    case (complete_begin N st)
    then show ?thesis using complete_begin_own [of "QHeld Q" Q N st] own tx_good_own by simp
  next
    case (complete_end N st)
    have "length (remove1 N (QReturning Q)) \<le> 1" using len by (simp add: length_remove1)
    then show ?thesis using tx_good_own [OF complete_end_own [OF own complete_end(2)]] complete_end(1) by simp
  next
    case (settle st small nb d c)
    then show ?thesis using PumpSettle_own [of Q nb st small] own tx_good_own by (auto split: option.splits)
  qed
qed

lemma outstanding_owned:
  assumes "tx_good Q"
  shows "unat (CywTxOutstanding Q) + length (QReturned Q) = length (QAccepted Q)"
proof -
  have own: "txq_own (QHeld Q) (QReturning Q) Q" and len: "length (QReturning Q) \<le> 1" using assms by (simp_all add: tx_good_def)
  then have b: "length (QBacklog Q) \<le> 128" "length (QEntries Q) + length (QHeld Q) \<le> 64"
    using account_length by (auto simp: txq_own_iff)
  have "CywTxOutstanding Q = word_of_nat (length (QEntries Q) + length (QHeld Q) + length (QBacklog Q) + length (QReturning Q))"
    using own by (simp add: CywTxOutstanding_def txq_own_iff)
  then have "unat (CywTxOutstanding Q) = length (QEntries Q) + length (QHeld Q) + length (QBacklog Q) + length (QReturning Q)"
    using b len by (simp only: ) (rule unat_word_of_nat_u32, linarith)
  moreover have "mset (QAccepted Q) = mset (map PsNbl (QEntries Q @ QBacklog Q)) + mset (QHeld Q) + mset (QReturning Q) + mset (map fst (QReturned Q))"
    using own by (simp add: txq_own_iff owners_def)
  from arg_cong [OF this, of size] have "length (QAccepted Q) =
      length (QEntries Q) + length (QBacklog Q) + length (QHeld Q) + length (QReturning Q) + length (QReturned Q)" by simp
  ultimately show ?thesis by simp
qed

section \<open>Submission\<close>

text \<open>Either the queue takes the NBL and says so, or it is left alone.\<close>

lemma submit_cases:
  assumes "CywTxSubmitWithBacklog N Q = (st, Q')" "QGate Q \<noteq> NDIS_STATUS_PENDING"
  shows "if st = NDIS_STATUS_PENDING then QAccepted Q' = QAccepted Q @ [N]
    else QAccepted Q' = QAccepted Q \<and> QEntries Q' = QEntries Q \<and> QBacklog Q' = QBacklog Q"
proof (cases "QGate Q = NDIS_STATUS_SUCCESS")
  case True
  obtain s io Q1 where p: "CywTxPrepare N Q = ((s, io), Q1)" by (metis surj_pair)
  then obtain g t where q: "Q1 = (ctr g Q)\<lparr>QTick := t\<rparr>" using CywTxPrepare_state by blast
  show ?thesis
  proof (cases io)
    case None
    have "PrepareLoop nbs f b m = (NDIS_STATUS_PENDING, r) \<Longrightarrow> False" for nbs f b m r
      by (induction nbs arbitrary: f b m) (auto simp: Let_def split: if_splits)
    then have "s \<noteq> NDIS_STATUS_PENDING"
      using p None by (auto simp: CywTxPrepare_def QueryTime_def split: prod.splits if_splits)
    then show ?thesis using assms p q None True by (auto simp: CywTxSubmitWithBacklog_def)
  next
    case (Some item)
    then have "PsNbl item = N" using CywTxPrepare_item p by blast
    then show ?thesis using assms p q Some True
      by (auto simp: CywTxSubmitWithBacklog_def SubmitLocked_def Let_def CywTxActivateLocked_def CywTxBacklogLocked_def
          split: if_splits)
  qed
qed (use assms in \<open>auto simp: CywTxSubmitWithBacklog_def\<close>)

lemma dispatch_split:
  assumes "CywDispatchSendChain b chain Q done' = (Q', done'')" "QGate Q \<noteq> NDIS_STATUS_PENDING"
  shows "\<exists>acc. QAccepted Q' = QAccepted Q @ acc \<and> mset chain + mset (map fst done') = mset acc + mset (map fst done'') \<and>
    (b \<longrightarrow> acc = [])"
  using assms
proof (induction chain arbitrary: Q done')
  case (Cons N chain)
  obtain st K where k: "CywNetworkSend b N Q = (st, K)" by force
  have g: "QGate K \<noteq> NDIS_STATUS_PENDING"
    using k Cons.prems(2) submit_fields(3) [of N Q] by (auto simp: CywNetworkSend_def split: if_splits)
  have a: "if st = NDIS_STATUS_PENDING then QAccepted K = QAccepted Q @ [N] \<and> \<not> b else QAccepted K = QAccepted Q"
    using k submit_cases [OF _ Cons.prems(2)] by (auto simp: CywNetworkSend_def split: if_splits)
  show ?case
  proof (cases "st = NDIS_STATUS_PENDING")
    case True
    then show ?thesis using Cons.IH [of K done'] Cons.prems k g a by fastforce
  next
    case False
    let ?f = "ctr (\<lambda>c. c\<lparr>TxErrors := TxErrors c + 1\<rparr>) (Rpi5CywTrafficDrop (word_of_nat (length (NblBuffers N)))
       (st = NDIS_STATUS_INVALID_LENGTH \<or> st = NDIS_STATUS_FAILURE) K)"
    have "CywDispatchSendChain b chain ?f (done' @ [(N, st)]) = (Q', done'')" using Cons.prems(1) k False by (simp add: Let_def)
    from Cons.IH [OF this] g a False show ?thesis by simp
  qed
qed simp

section \<open>A sample queue\<close>

definition sample_txq :: txq where
  "sample_txq = \<lparr>QGate = NDIS_STATUS_SUCCESS, QEntries = [], QFrames = 0, QBytes = 0, QOutstanding = 0, QCompleting = 0,
     QBacklog = [], QBacklogFrames = 0, QBacklogBytes = 0,
     QCtr = \<lparr>TxQueueFrames = 0, TxQueueHighWater = 0, TxNblAccepted = 0, TxNblCompleted = 0, TxOversizedNbl = 0,
       TxQueueFull = 0, TxQueueMaxDelayMs = 0, TxErrors = 0, TxCancelled = 0, TxExpired = 0, TxCreditWaits = 0, TxPackets = 0,
       TxBacklogCurrent = 0, TxBacklogNblCurrent = 0, TxBacklogHighWater = 0, TxBacklogAccepted = 0, TxBacklogPromoted = 0,
       TxBacklogFull = 0, TxBacklogExpired = 0, TxBacklogCancelled = 0, TxBacklogMaxDelayMs = 0, TxAdaptiveSmallFrames = 0,
       TxAdaptiveBulkFrames = 0, TxAdaptiveSmallBacklogAccepted = 0, TxAdaptiveBulkBackpressure = 0,
       TxAdaptiveSmallGlomChains = 0, TxAdaptiveSmallBurstStarts = 0, TxAdaptiveBulkFreshF1Attempts = 0,
       TrDiscards = 0, TrErrors = 0\<rparr>,
     QClock = of_nat, QTick = 0, QScript = (\<lambda>_. []), QAt = 0, QHeld = [], QReturning = [], QAccepted = [], QReturned = []\<rparr>"

definition sample_nbl :: nbl where
  "sample_nbl = \<lparr>NblId = 1, NblCancelId = 7, NblBuffers = [\<lparr>NbData = replicate 60 0, NbMapped = True\<rparr>]\<rparr>"

definition sample_port :: "unit tx_port" where
  "sample_port = \<lparr>TxGlomEnabled = (\<lambda>_. False), CywTxCanTransfer = (\<lambda>w. (True, w)), CywTxCanTransferPair = (\<lambda>w. (False, w)),
     CywTxTransferBurstStart = (\<lambda>_ _ w. (0, 0, w)), CywTxTransferBurstReuse = (\<lambda>_ _ w. (0, w)),
     CywTxTransferPair = (\<lambda>_ _ w. (0, w))\<rparr>"

lemma sample_idle: "idle (run_event (EvSubmit sample_nbl) sample_txq)"
  by (rule run_event_own [OF tx_start_own]) (simp add: tx_start_def sample_txq_def)

lemma sample_accepted: "QAccepted (run_event (EvSubmit sample_nbl) sample_txq) = [sample_nbl]"
  by (simp add: sample_nbl_def sample_txq_def CywTxSubmitWithBacklog_def CywTxPrepare_def nb_length_def QueryTime_def
      SubmitLocked_def Let_def CywTxActiveFits_def CywTxActivateLocked_def ctr_def)

section \<open>Properties\<close>

text \<open>
  C23 (safety).  The transmit pump, on every bus and under every schedule of concurrent submissions, cancellations and
  gate changes, never reads a queue slot that is not there and returns after at most its budget of frames.  Afterwards
  every NBL ever accepted is in exactly one place, still queued or given back once, the two queues hold them in
  their order of submission, and neither exceeds its limit of frames.
\<close>

theorem CywTxPump_conserves_ownership:
  assumes "txq_own [] [] Q"
  shows "\<exists>st l Q' w'. CywTxPump P budget (Q, w) = Some (Some st, l, Q', w') \<and> PlSent l \<le> budget \<and>
    mset (QAccepted Q') = mset (map PsNbl (QEntries Q' @ QBacklog Q')) + mset (map fst (QReturned Q')) \<and>
    subseq (map PsNbl (QEntries Q' @ QBacklog Q')) (QAccepted Q') \<and>
    held (QEntries Q') \<le> 64 \<and> held (QBacklog Q') \<le> 128 \<and> txq_own [] [] Q'"
proof -
  obtain K where k: "CleanupLoop 192 Q = Some K" "idle K" using CleanupLoop_own [OF assms] by blast
  let ?l = "\<lparr>PlSent = 0, PlService = 0, PlReuse = 2\<rparr>"
  obtain st l Q' w' where r: "PumpLoop budget P budget (?l, K, w) = Some (Some st, l, Q', w')" "idle Q'" "PlSent l \<le> budget"
    using PumpLoop_own [OF k(2), of ?l budget budget P w] by auto
  then have "CywTxPump P budget (Q, w) = Some (Some st, l, Q', w')" using k(1) by (simp add: CywTxPump_def)
  then show ?thesis using r(2,3) by (auto simp: txq_own_iff owners_def account_def)
qed

theorem CywTxPump_conserves_ownership_witness:
  "\<exists>st l Q' w'. CywTxPump sample_port 4 (run_event (EvSubmit sample_nbl) sample_txq, ()) = Some (Some st, l, Q', w') \<and>
    mset (QAccepted Q') = mset (map PsNbl (QEntries Q' @ QBacklog Q')) + mset (map fst (QReturned Q'))"
  using CywTxPump_conserves_ownership [OF sample_idle, of sample_port 4 "()"] by blast

text \<open>
  C24 (liveness).  Closing the gate and flushing gives every NBL back to NDIS: as long as nobody
  reopens the gate the flush ends (193 rounds are enough), every accepted NBL has been completed and
  nothing is outstanding.
\<close>

theorem CywTxFlush_returns_all:
  assumes "txq_own [] [] Q" "st \<noteq> NDIS_STATUS_SUCCESS" "\<forall>n. EvGate NDIS_STATUS_SUCCESS \<notin> set (QScript Q n)" "192 < fuel"
  shows "\<exists>Q'. CywTxFlush fuel st Q = Some (Inr Q') \<and> QEntries Q' = [] \<and> QBacklog Q' = [] \<and>
    mset (QAccepted Q') = mset (map fst (QReturned Q')) \<and> CywTxOutstanding Q' = 0"
proof -
  have c: "closed (CywTxSetGate st Q)" using assms(2,3) by (simp add: closed_def CywTxSetGate_def)
  let ?K = "interfere (CywTxSetGate st Q)"
  have k: "idle ?K" "closed ?K" using assms(1) interfere_closed [OF c] by (auto intro: interfere_own simp: CywTxSetGate_def)
  then have "length (QEntries ?K) \<le> 64" "length (QBacklog ?K) \<le> 128" by (auto simp: txq_own_iff dest: account_length)
  then have "waiting ?K < fuel" using assms(4) by (simp add: waiting_def)
  from FlushLoop_own [OF k this, of st] show ?thesis
    by (auto simp: CywTxFlush_def waiting_def txq_own_iff owners_def CywTxOutstanding_def)
qed

theorem CywTxFlush_returns_all_witness:
  "\<exists>Q'. CywTxFlush 193 NDIS_STATUS_PAUSED (run_event (EvSubmit sample_nbl) sample_txq) = Some (Inr Q') \<and>
    CywTxOutstanding Q' = 0"
proof -
  have "QScript (run_event (EvSubmit sample_nbl) sample_txq) = (\<lambda>_. [])" unfolding run_event_script by (simp add: sample_txq_def)
  then show ?thesis using CywTxFlush_returns_all [OF sample_idle, of NDIS_STATUS_PAUSED 193] by auto
qed

text \<open>
  C25 (invariant).  In every state that lock regions of the worker and of other processors can reach, in any interleaving,
  the number \<open>CywTxOutstanding\<close> that Pause and power-down wait for is exactly the number of NBLs accepted and not yet
  given back: it is never zero while NDIS still waits for one.
\<close>

theorem CywTxOutstanding_exact:
  assumes "tx_start Q0" "tx_step\<^sup>*\<^sup>* Q0 Q"
  shows "unat (CywTxOutstanding Q) + length (QReturned Q) = length (QAccepted Q)"
  using outstanding_owned [OF tx.reachable_inv [OF assms]] .

theorem CywTxOutstanding_exact_witness: "unat (CywTxOutstanding (run_event (EvSubmit sample_nbl) sample_txq)) +
    length (QReturned (run_event (EvSubmit sample_nbl) sample_txq)) = Suc 0"
proof -
  have "tx_start sample_txq" by (simp add: tx_start_def sample_txq_def)
  moreover have "tx_step\<^sup>*\<^sup>* sample_txq (run_event (EvSubmit sample_nbl) sample_txq)" by (blast intro: tx_step.event)
  ultimately show ?thesis using CywTxOutstanding_exact sample_accepted by fastforce
qed

text \<open>
  C26 (functional).  A chain of NBLs from NDIS is split without loss: each NBL is either taken by the queue or completed by the
  dispatcher, never both and never neither; a stopped adapter takes none.
\<close>

theorem CywDispatchSendChain_splits:
  assumes "CywDispatchSendChain ioStopped chain Q [] = (Q', completed)" "QGate Q \<noteq> NDIS_STATUS_PENDING"
  shows "\<exists>taken. QAccepted Q' = QAccepted Q @ taken \<and> mset chain = mset taken + mset (map fst completed) \<and>
    (ioStopped \<longrightarrow> taken = [])"
  using dispatch_split [OF assms] by auto

theorem CywDispatchSendChain_splits_witness:
  "\<exists>Q' completed taken. CywDispatchSendChain True [sample_nbl] sample_txq [] = (Q', completed) \<and>
    QAccepted Q' = taken \<and> {#sample_nbl#} = mset taken + mset (map fst completed)"
proof -
  have g: "QGate sample_txq \<noteq> NDIS_STATUS_PENDING" "QAccepted sample_txq = []" by (simp_all add: sample_txq_def)
  obtain Q' c where r: "CywDispatchSendChain True [sample_nbl] sample_txq [] = (Q', c)" by force
  show ?thesis using CywDispatchSendChain_splits [OF r g(1)] g(2) r by auto
qed

end
