(* ===== verification/Diag.thy ===== *)
theory Diag
  imports Cyw_Prelude
begin

text \<open>
  Diagnostics export: the bounded serialization of registry values (\<open>driver/diag_snapshot.h\<close>), the writer
  that replays them (\<open>Rpi5CywWriteDiagnosticBuffer\<close> in \<open>driver/driver.c\<close>) and the two-slot mailbox
  between the bus worker and the writer thread (\<open>driver/diag_mailbox.h\<close>).

  A buffer is the list of its \<open>Used\<close> bytes; bytes beyond are never read.  A name is the byte string of a
  \<open>UNICODE_STRING\<close>, whose length is a \<open>USHORT\<close>.  The mailbox steps are the four
  operations, each of which is one interlocked transition of a slot.
\<close>

section \<open>Serialized values\<close>

definition CYW_DIAG_CAPACITY :: nat where
  "CYW_DIAG_CAPACITY = 128 * 1024"

record CYW_DIAG_RECORD =
  DrNameBytes :: u32
  DrType :: u32
  DrDataBytes :: u32
  DrTotalBytes :: u32

record CYW_DIAG_BUFFER =
  DbData :: bytes
  DbFailed :: bool

definition CywDiagReset :: "CYW_DIAG_BUFFER \<Rightarrow> CYW_DIAG_BUFFER" where
  "CywDiagReset B = B\<lparr>DbData := [], DbFailed := False\<rparr>"

text \<open>\<open>(x+7)&~7\<close>.\<close>

definition align8 :: "nat \<Rightarrow> nat" where
  "align8 x = (x + 7) div 8 * 8"

definition put32 :: "u32 \<Rightarrow> bytes" where
  "put32 v = [byte_of 0 v, byte_of 1 v, byte_of 2 v, byte_of 3 v]"

definition record_bytes :: "CYW_DIAG_RECORD \<Rightarrow> bytes" where
  "record_bytes r = put32 (DrNameBytes r) @ put32 (DrType r) @ put32 (DrDataBytes r) @ put32 (DrTotalBytes r)"

definition CywDiagAppend :: "bytes \<Rightarrow> u32 \<Rightarrow> bytes \<Rightarrow> CYW_DIAG_BUFFER \<Rightarrow> CYW_DIAG_BUFFER" where
  "CywDiagAppend name type data B =
    (if DbFailed B then B
     else
       let names = align8 (length name + 2) in
       if length name = 0 \<or> length name mod 2 = 1 \<or> length data > CYW_DIAG_CAPACITY then B\<lparr>DbFailed := True\<rparr>
       else
         let body = align8 (length data);
             total = 16 + names + body;
             r = \<lparr>DrNameBytes = word_of_nat (length name), DrType = type, DrDataBytes = word_of_nat (length data),
                  DrTotalBytes = word_of_nat total\<rparr>
         in
         if length (DbData B) > CYW_DIAG_CAPACITY \<or> total > CYW_DIAG_CAPACITY - length (DbData B)
         then B\<lparr>DbFailed := True\<rparr>
         else B\<lparr>DbData := DbData B @ record_bytes r @ name @ replicate (names - length name) 0 @
                data @ replicate (body - length data) 0\<rparr>)"

definition get32 :: "bytes \<Rightarrow> nat \<Rightarrow> u32 option" where
  "get32 p i = do { a \<leftarrow> rd8 p i; b \<leftarrow> rd8 p (i + 1); c \<leftarrow> rd8 p (i + 2); d \<leftarrow> rd8 p (i + 3); Some (le32 a b c d) }"

definition read_record :: "bytes \<Rightarrow> nat \<Rightarrow> CYW_DIAG_RECORD option" where
  "read_record p i = do {
     n \<leftarrow> get32 p i; t \<leftarrow> get32 p (i + 4); d \<leftarrow> get32 p (i + 8); a \<leftarrow> get32 p (i + 12);
     Some \<lparr>DrNameBytes = n, DrType = t, DrDataBytes = d, DrTotalBytes = a\<rparr> }"

text \<open>
  The inner \<open>None\<close> is the result \<open>FALSE\<close>; otherwise the record and the offsets of name and data.
\<close>

definition CywDiagRead :: "CYW_DIAG_BUFFER \<Rightarrow> nat \<Rightarrow> (CYW_DIAG_RECORD \<times> nat \<times> nat) option option" where
  "CywDiagRead B offset =
    (let used = length (DbData B) in
     if DbFailed B \<or> used > CYW_DIAG_CAPACITY \<or> offset > used then Some None else do {
     left \<leftarrow> csub used offset;
     if left < 16 then Some None else do {
     r \<leftarrow> read_record (DbData B) offset;
     let nameBytes = unat (DrNameBytes r);
     let dataBytes = unat (DrDataBytes r);
     let total = unat (DrTotalBytes r);
     if nameBytes = 0 \<or> nameBytes mod 2 = 1 \<or> nameBytes > 65532 \<or> dataBytes > CYW_DIAG_CAPACITY then Some None else
     let names = align8 (nameBytes + 2) in
     if total \<noteq> 16 + names + align8 dataBytes \<or> total > left then Some None
     else Some (Some (r, offset + 16, offset + 16 + names)) } })"

text \<open>
  The two loops of the writer.  Each record is at least 24 bytes long, so as many rounds as there are
  bytes are enough; the outer \<open>None\<close> is an empty tank or an access outside of the buffer.
\<close>

fun ValidateLoop :: "nat \<Rightarrow> CYW_DIAG_BUFFER \<Rightarrow> nat \<Rightarrow> bool option" where
  "ValidateLoop fuel B offset =
    (if \<not> offset < length (DbData B) then Some True
     else case fuel of 0 \<Rightarrow> None
     | Suc fuel \<Rightarrow> do {
         r \<leftarrow> CywDiagRead B offset;
         case r of None \<Rightarrow> Some False
         | Some (r, _, _) \<Rightarrow> ValidateLoop fuel B (offset + unat (DrTotalBytes r)) })"

fun WriteLoop :: "nat \<Rightarrow> CYW_DIAG_BUFFER \<Rightarrow> nat \<Rightarrow> (bytes \<times> u32 \<times> bytes) list option" where
  "WriteLoop fuel B offset = do {
     r \<leftarrow> CywDiagRead B offset;
     case r of None \<Rightarrow> Some []
     | Some (r, n, d) \<Rightarrow>
       (case fuel of 0 \<Rightarrow> None
        | Suc fuel \<Rightarrow> do {
            name \<leftarrow> rdn (DbData B) n (unat (DrNameBytes r));
            data \<leftarrow> rdn (DbData B) d (unat (DrDataBytes r));
            rest \<leftarrow> WriteLoop fuel B (offset + unat (DrTotalBytes r));
            Some ((name, DrType r, data) # rest) }) }"

declare ValidateLoop.simps [simp del] WriteLoop.simps [simp del]

text \<open>The registry values written; a batch that does not validate writes none.\<close>

definition Rpi5CywWriteDiagnosticBuffer :: "CYW_DIAG_BUFFER \<Rightarrow> (bytes \<times> u32 \<times> bytes) list option" where
  "Rpi5CywWriteDiagnosticBuffer B =
    (if DbFailed B \<or> DbData B = [] then Some [] else do {
     ok \<leftarrow> ValidateLoop (length (DbData B)) B 0;
     if \<not> ok then Some [] else WriteLoop (length (DbData B)) B 0 })"

section \<open>The mailbox\<close>

record 'a CYW_DIAG_MAILBOX =
  MbState :: "nat list"
  MbProduce :: nat
  MbConsume :: nat
  MbSkipped :: u32
  MbBuffer :: "'a list"

text \<open>The operations; the flag says whether a buffer was obtained.\<close>

definition CywDiagBegin :: "'a CYW_DIAG_MAILBOX \<Rightarrow> bool \<times> 'a CYW_DIAG_MAILBOX" where
  "CywDiagBegin M =
    (if MbState M ! MbProduce M \<noteq> 0 then (False, M\<lparr>MbSkipped := MbSkipped M + 1\<rparr>)
     else (True, M\<lparr>MbState := (MbState M)[MbProduce M := 1]\<rparr>))"

definition CywDiagPublish :: "'a CYW_DIAG_MAILBOX \<Rightarrow> 'a CYW_DIAG_MAILBOX" where
  "CywDiagPublish M = M\<lparr>MbState := (MbState M)[MbProduce M := 2], MbProduce := 1 - MbProduce M\<rparr>"

definition CywDiagTake :: "'a CYW_DIAG_MAILBOX \<Rightarrow> bool \<times> 'a CYW_DIAG_MAILBOX" where
  "CywDiagTake M =
    (if MbState M ! MbConsume M \<noteq> 2 then (False, M)
     else (True, M\<lparr>MbState := (MbState M)[MbConsume M := 3]\<rparr>))"

definition CywDiagRelease :: "'a CYW_DIAG_MAILBOX \<Rightarrow> 'a CYW_DIAG_MAILBOX" where
  "CywDiagRelease M = M\<lparr>MbState := (MbState M)[MbConsume M := 0], MbConsume := 1 - MbConsume M\<rparr>"

text \<open>
  The two threads: whether the producer is capturing and the consumer writing, the snapshots published and
  consumed so far.  While it captures, the producer stores into its slot as it likes; the consumer reads its
  slot at any moment until it releases it.
\<close>

record 'a mbx =
  XBox :: "'a CYW_DIAG_MAILBOX"
  XCapturing :: bool
  XWriting :: bool
  XPublished :: "'a list"
  XConsumed :: "'a list"

inductive mbx_step :: "'a mbx \<Rightarrow> 'a mbx \<Rightarrow> bool" where
  begin': "\<not> XCapturing s \<Longrightarrow> CywDiagBegin (XBox s) = (ok, M) \<Longrightarrow> mbx_step s (s\<lparr>XBox := M, XCapturing := ok\<rparr>)"
| store: "XCapturing s \<Longrightarrow>
    mbx_step s (s\<lparr>XBox := (XBox s)\<lparr>MbBuffer := (MbBuffer (XBox s))[MbProduce (XBox s) := v]\<rparr>\<rparr>)"
| publish: "XCapturing s \<Longrightarrow>
    mbx_step s (s\<lparr>XBox := CywDiagPublish (XBox s), XCapturing := False,
      XPublished := XPublished s @ [MbBuffer (XBox s) ! MbProduce (XBox s)]\<rparr>)"
| take': "\<not> XWriting s \<Longrightarrow> CywDiagTake (XBox s) = (ok, M) \<Longrightarrow> mbx_step s (s\<lparr>XBox := M, XWriting := ok\<rparr>)"
| release: "XWriting s \<Longrightarrow>
    mbx_step s (s\<lparr>XBox := CywDiagRelease (XBox s), XWriting := False,
      XConsumed := XConsumed s @ [MbBuffer (XBox s) ! MbConsume (XBox s)]\<rparr>)"

definition mbx_init :: "'a mbx \<Rightarrow> bool" where
  "mbx_init s \<longleftrightarrow> MbState (XBox s) = [0, 0] \<and> MbProduce (XBox s) = 0 \<and> MbConsume (XBox s) = 0 \<and>
     length (MbBuffer (XBox s)) = 2 \<and> \<not> XCapturing s \<and> \<not> XWriting s \<and> XPublished s = [] \<and> XConsumed s = []"

text \<open>The snapshots waiting in the box, oldest first, and the states of the slots for that many.\<close>

definition box_ok :: "nat list \<Rightarrow> nat \<Rightarrow> nat \<Rightarrow> 'a list \<Rightarrow> bool \<Rightarrow> bool \<Rightarrow> 'a list \<Rightarrow> bool" where
  "box_ok st p c bufs cap wr waiting \<longleftrightarrow>
     (\<exists>x y b0 b1. st = [x, y] \<and> bufs = [b0, b1] \<and> (c = 0 \<or> c = 1) \<and>
       (let sc = (if c = 0 then x else y); so = (if c = 0 then y else x);
            bc = (if c = 0 then b0 else b1); bo = (if c = 0 then b1 else b0)
        in
        (waiting = [] \<and> p = c \<and> sc = (if cap then 1 else 0) \<and> so = 0 \<and> \<not> wr) \<or>
        (waiting = [bc] \<and> p = 1 - c \<and> sc = (if wr then 3 else 2) \<and> so = (if cap then 1 else 0)) \<or>
        (waiting = [bc, bo] \<and> p = c \<and> sc = (if wr then 3 else 2) \<and> so = 2 \<and> \<not> cap)))"

definition mbx_inv :: "'a mbx \<Rightarrow> bool" where
  "mbx_inv s \<longleftrightarrow> (\<exists>waiting. XPublished s = XConsumed s @ waiting \<and>
     box_ok (MbState (XBox s)) (MbProduce (XBox s)) (MbConsume (XBox s)) (MbBuffer (XBox s)) (XCapturing s) (XWriting s) waiting)"

interpretation mbx: invariant_system mbx_init mbx_step mbx_inv
proof
  show "mbx_inv s" if "mbx_init s" for s :: "'a mbx"
    using that by (auto simp: mbx_init_def mbx_inv_def box_ok_def numeral_2_eq_2 length_Suc_conv)
next
  fix s t :: "'a mbx" assume "mbx_step s t" "mbx_inv s"
  then show "mbx_inv t"
    by (cases rule: mbx_step.cases)
      (auto simp: mbx_inv_def box_ok_def CywDiagBegin_def CywDiagPublish_def CywDiagTake_def CywDiagRelease_def Let_def
        split: if_splits)
qed

section \<open>Reading back what was appended\<close>

lemma align8_le: "n \<le> align8 n" "align8 n \<le> n + 7"
  using div_mult_mod_eq [of "n + 7" 8] mod_less_divisor [of 8 "n + 7"] by (simp_all add: align8_def)

lemma get32_safe: "i + 4 \<le> length p \<Longrightarrow> \<exists>v. get32 p i = Some v"
  by (simp add: get32_def wire_simps)

lemma read_record_safe: "i + 16 \<le> length p \<Longrightarrow> \<exists>r. read_record p i = Some r"
  using get32_safe [of i p] get32_safe [of "i + 4" p] get32_safe [of "i + 8" p] get32_safe [of "i + 12" p]
  by (auto simp: read_record_def)

lemma CywDiagRead_safe:
  "\<exists>x. CywDiagRead B off = Some x \<and> (case x of None \<Rightarrow> True | Some (r, n, d) \<Rightarrow>
     n + unat (DrNameBytes r) \<le> d \<and> d + unat (DrDataBytes r) \<le> off + unat (DrTotalBytes r) \<and>
     off + unat (DrTotalBytes r) \<le> length (DbData B) \<and> 0 < unat (DrTotalBytes r))"
proof -
  let ?u = "length (DbData B)"
  show ?thesis
  proof (cases "DbFailed B \<or> ?u > CYW_DIAG_CAPACITY \<or> off > ?u \<or> ?u - off < 16")
    case True
    then show ?thesis by (auto simp: CywDiagRead_def Let_def csub_def)
  next
    case False
    then have "off + 16 \<le> ?u" by linarith
    then obtain r where r: "read_record (DbData B) off = Some r" using read_record_safe by blast
    show ?thesis
      using False r align8_le(1) [of "unat (DrNameBytes r) + 2"] align8_le(1) [of "unat (DrDataBytes r)"]
      by (auto simp: CywDiagRead_def Let_def csub_def)
  qed
qed

lemma ValidateLoop_safe:
  assumes "length (DbData B) - off \<le> fuel"
  shows "\<exists>b. ValidateLoop fuel B off = Some b"
  using assms
proof (induction fuel arbitrary: off)
  case 0
  then show ?case by (subst ValidateLoop.simps) auto
next
  case (Suc fuel)
  obtain x where x: "CywDiagRead B off = Some x" "case x of None \<Rightarrow> True | Some (r, n, d) \<Rightarrow> 0 < unat (DrTotalBytes r)"
    using CywDiagRead_safe [of B off] by (fastforce split: option.splits)
  show ?case
  proof (cases x)
    case (Some y)
    obtain r n d where y: "y = (r, n, d)" by (metis surj_pair)
    have "\<exists>b. ValidateLoop fuel B (off + unat (DrTotalBytes r)) = Some b"
      using x(2) Some y Suc.prems by (intro Suc.IH) auto
    then show ?thesis using x(1) Some y by (subst ValidateLoop.simps) auto
  qed (subst ValidateLoop.simps, use x in auto)
qed

lemma WriteLoop_safe:
  assumes "length (DbData B) - off \<le> fuel" "off \<le> length (DbData B)"
  shows "\<exists>vs. WriteLoop fuel B off = Some vs"
  using assms
proof (induction fuel arbitrary: off)
  case 0
  then show ?case using CywDiagRead_safe [of B off] by (subst WriteLoop.simps) (auto split: option.splits)
next
  case (Suc fuel)
  obtain x where x: "CywDiagRead B off = Some x" "case x of None \<Rightarrow> True | Some (r, n, d) \<Rightarrow>
      n + unat (DrNameBytes r) \<le> d \<and> d + unat (DrDataBytes r) \<le> off + unat (DrTotalBytes r) \<and>
      off + unat (DrTotalBytes r) \<le> length (DbData B) \<and> 0 < unat (DrTotalBytes r)"
    using CywDiagRead_safe [of B off] by blast
  show ?case
  proof (cases x)
    case (Some y)
    obtain r n d where y: "y = (r, n, d)" by (metis surj_pair)
    have b: "n + unat (DrNameBytes r) \<le> length (DbData B)" "d + unat (DrDataBytes r) \<le> length (DbData B)"
      using x(2) Some y by auto
    have "\<exists>vs. WriteLoop fuel B (off + unat (DrTotalBytes r)) = Some vs"
      using x(2) Some y Suc.prems by (intro Suc.IH) auto
    then show ?thesis using x(1) Some y b by (subst WriteLoop.simps) (auto simp: wire_simps)
  qed (subst WriteLoop.simps, use x in simp)
qed

text \<open>The bytes of one value, and the values that can be stored.\<close>

definition entry_total :: "bytes \<times> u32 \<times> bytes \<Rightarrow> nat" where
  "entry_total = (\<lambda>(name, type, data). 16 + align8 (length name + 2) + align8 (length data))"

definition entry_bytes :: "bytes \<times> u32 \<times> bytes \<Rightarrow> bytes" where
  "entry_bytes = (\<lambda>(name, type, data).
     record_bytes \<lparr>DrNameBytes = word_of_nat (length name), DrType = type, DrDataBytes = word_of_nat (length data),
       DrTotalBytes = word_of_nat (entry_total (name, type, data))\<rparr> @
     name @ replicate (align8 (length name + 2) - length name) 0 @ data @ replicate (align8 (length data) - length data) 0)"

definition entry_ok :: "bytes \<times> u32 \<times> bytes \<Rightarrow> bool" where
  "entry_ok = (\<lambda>(name, type, data). name \<noteq> [] \<and> even (length name) \<and> length name \<le> 65532 \<and> length data \<le> CYW_DIAG_CAPACITY)"

lemma length_record_bytes [simp]: "length (record_bytes r) = 16"
  by (simp add: record_bytes_def put32_def)

lemma length_entry_bytes: "length (entry_bytes e) = entry_total e"
  using align8_le(1) [of "length (fst e) + 2"] align8_le(1) [of "length (snd (snd e))"]
  by (auto simp: entry_bytes_def entry_total_def split: prod.split)

lemma length_put32 [simp]: "length (put32 v) = 4"
  by (simp add: put32_def)

lemma get32_put32: "get32 (pre @ put32 v @ post) (length pre) = Some v"
  by (simp add: get32_def rd8_def put32_def nth_append)

lemma read_record_bytes: "read_record (pre @ record_bytes r @ post) (length pre) = Some r"
  using get32_put32 [of pre "DrNameBytes r" "put32 (DrType r) @ put32 (DrDataBytes r) @ put32 (DrTotalBytes r) @ post"]
    get32_put32 [of "pre @ put32 (DrNameBytes r)" "DrType r" "put32 (DrDataBytes r) @ put32 (DrTotalBytes r) @ post"]
    get32_put32 [of "pre @ put32 (DrNameBytes r) @ put32 (DrType r)" "DrDataBytes r" "put32 (DrTotalBytes r) @ post"]
    get32_put32 [of "pre @ put32 (DrNameBytes r) @ put32 (DrType r) @ put32 (DrDataBytes r)" "DrTotalBytes r" post]
  by (simp add: read_record_def record_bytes_def add.assoc)

lemma CywDiagRead_entry:
  assumes "entry_ok e" "e = (name, type, data)" "DbData B = pre @ entry_bytes e @ post" "\<not> DbFailed B"
    "length (DbData B) \<le> CYW_DIAG_CAPACITY"
  shows "\<exists>r. CywDiagRead B (length pre) = Some (Some (r, length pre + 16, length pre + 16 + align8 (length name + 2))) \<and>
    DrType r = type \<and> unat (DrNameBytes r) = length name \<and> unat (DrDataBytes r) = length data \<and> unat (DrTotalBytes r) = entry_total e"
proof -
  define r where "r = \<lparr>DrNameBytes = word_of_nat (length name), DrType = type, DrDataBytes = word_of_nat (length data),
    DrTotalBytes = (word_of_nat (entry_total e) :: u32)\<rparr>"
  have len: "length pre + entry_total e \<le> length (DbData B)" using assms(3) length_entry_bytes [of e] by simp
  have u: "unat (DrNameBytes r) = length name" "unat (DrDataBytes r) = length data" "unat (DrTotalBytes r) = entry_total e"
    using assms(1,2,5) len by (simp_all add: r_def unat_word_of_nat_u32 entry_ok_def CYW_DIAG_CAPACITY_def)
  have "\<exists>rest. entry_bytes e = record_bytes r @ rest" by (auto simp: entry_bytes_def r_def assms(2))
  then have "read_record (DbData B) (length pre) = Some r" using assms(3) read_record_bytes by (metis append.assoc)
  moreover have "16 \<le> entry_total e" by (simp add: entry_total_def assms(2))
  ultimately show ?thesis
    using assms(1,2,4,5) len u
    by (auto simp: CywDiagRead_def Let_def csub_def entry_ok_def entry_total_def r_def [symmetric] odd_iff_mod_2_eq_one)
      (simp_all add: r_def)
qed

lemma entry_slices:
  assumes "e = (name, type, data)" "DbData B = pre @ entry_bytes e @ post"
  shows "rdn (DbData B) (length pre + 16) (length name) = Some name"
    "rdn (DbData B) (length pre + 16 + align8 (length name + 2)) (length data) = Some data"
proof -
  obtain r pad where b: "entry_bytes e = record_bytes r @ name @ replicate (align8 (length name + 2) - length name) 0 @ data @ pad"
    by (auto simp: entry_bytes_def assms(1))
  have l: "length name \<le> align8 (length name + 2)" using align8_le(1) [of "length name + 2"] by simp
  show "rdn (DbData B) (length pre + 16) (length name) = Some name"
    by (simp add: rdn_def sub_bytes_def assms(2) b)
  have "drop (length pre + 16 + align8 (length name + 2)) (DbData B) = data @ pad @ post"
    using l by (simp add: assms(2) b)
  then show "rdn (DbData B) (length pre + 16 + align8 (length name + 2)) (length data) = Some data"
    using l by (simp add: rdn_def sub_bytes_def) (simp add: assms(2) b)
qed

lemma loops_read_back:
  assumes "list_all entry_ok es" "DbData B = pre @ concat (map entry_bytes es)" "\<not> DbFailed B"
    "length (DbData B) \<le> CYW_DIAG_CAPACITY" "length es \<le> fuel"
  shows "ValidateLoop fuel B (length pre) = Some True \<and> WriteLoop fuel B (length pre) = Some es"
  using assms
proof (induction es arbitrary: pre fuel)
  case Nil
  then show ?case
    by (subst ValidateLoop.simps, subst WriteLoop.simps) (simp add: CywDiagRead_def Let_def csub_def)
next
  case (Cons e es)
  obtain k where k: "fuel = Suc k" using Cons.prems(5) by (cases fuel) auto
  obtain name type data where e: "e = (name, type, data)" by (metis surj_pair)
  have d: "DbData B = pre @ entry_bytes e @ concat (map entry_bytes es)" using Cons.prems(2) by simp
  obtain r where r: "CywDiagRead B (length pre) = Some (Some (r, length pre + 16, length pre + 16 + align8 (length name + 2)))"
    "DrType r = type" "unat (DrNameBytes r) = length name" "unat (DrDataBytes r) = length data" "unat (DrTotalBytes r) = entry_total e"
    using CywDiagRead_entry [OF _ e d Cons.prems(3,4)] Cons.prems(1) by auto
  have lt: "length pre < length (DbData B)" using d length_entry_bytes [of e] by (simp add: entry_total_def e)
  have "ValidateLoop k B (length (pre @ entry_bytes e)) = Some True \<and> WriteLoop k B (length (pre @ entry_bytes e)) = Some es"
    by (rule Cons.IH) (use Cons.prems k in auto)
  then show ?case
    using r lt k entry_slices [OF e d] e length_entry_bytes [of e]
    by (subst ValidateLoop.simps, subst WriteLoop.simps) simp
qed

lemma append_result:
  assumes "\<not> DbFailed (CywDiagAppend name type data B)"
  shows "\<not> DbFailed B \<and> DbData (CywDiagAppend name type data B) = DbData B @ entry_bytes (name, type, data) \<and>
    length (DbData (CywDiagAppend name type data B)) \<le> CYW_DIAG_CAPACITY \<and>
    (length name \<le> 65532 \<longrightarrow> entry_ok (name, type, data))"
proof -
  have l: "length name \<le> align8 (length name + 2)" "length data \<le> align8 (length data)"
    using align8_le(1) [of "length name + 2"] align8_le(1) [of "length data"] by simp_all
  show ?thesis using assms l
    by (auto simp: CywDiagAppend_def Let_def entry_bytes_def entry_total_def entry_ok_def odd_iff_mod_2_eq_one split: if_splits)
qed

lemma appends_result:
  assumes "\<not> DbFailed (fold (\<lambda>(n, t, d). CywDiagAppend n t d) es B)" "\<forall>(n, t, d) \<in> set es. length n \<le> 65532"
    "length (DbData B) \<le> CYW_DIAG_CAPACITY"
  shows "DbData (fold (\<lambda>(n, t, d). CywDiagAppend n t d) es B) = DbData B @ concat (map entry_bytes es) \<and>
    list_all entry_ok es \<and> length (DbData (fold (\<lambda>(n, t, d). CywDiagAppend n t d) es B)) \<le> CYW_DIAG_CAPACITY"
  using assms
proof (induction es arbitrary: B)
  case (Cons e es)
  obtain n t d where e: "e = (n, t, d)" by (metis surj_pair)
  let ?B = "CywDiagAppend n t d B"
  have f: "DbFailed B' \<Longrightarrow> DbFailed (fold (\<lambda>(n, t, d). CywDiagAppend n t d) es B')" for B' es
    by (induction es arbitrary: B') (auto simp: CywDiagAppend_def)
  have nf: "\<not> DbFailed ?B" using Cons.prems(1) f e by auto
  from append_result [OF nf] Cons.IH [of ?B] Cons.prems e show ?case by auto
qed simp

section \<open>Properties\<close>

text \<open>
  C30 (roundtrip).  What is serialized is what is written: if the values fit, the writer sets exactly the appended values, in
  their order, with their names, types and data.
\<close>

theorem diagnostics_roundtrip:
  assumes "B = fold (\<lambda>(n, t, d). CywDiagAppend n t d) es \<lparr>DbData = [], DbFailed = False\<rparr>"
    and "\<not> DbFailed B" and "\<forall>(n, t, d) \<in> set es. length n \<le> 65532"
  shows "Rpi5CywWriteDiagnosticBuffer B = Some es"
proof -
  have r: "DbData B = concat (map entry_bytes es)" "list_all entry_ok es" "length (DbData B) \<le> CYW_DIAG_CAPACITY"
    using appends_result [of es "\<lparr>DbData = [], DbFailed = False\<rparr>"] assms by auto
  have t: "0 < entry_total e" for e by (simp add: entry_total_def split: prod.split)
  have "length fs \<le> length (concat (map entry_bytes fs))" for fs
  proof (induction fs)
    case (Cons f fs)
    then show ?case using t [of f] length_entry_bytes [of f] by simp
  qed simp
  then have len: "length es \<le> length (DbData B)" using r(1) by metis
  then have "DbData B = [] \<Longrightarrow> es = []" by simp
  then show ?thesis
    using loops_read_back [OF r(2), of B "[]" "length (DbData B)"] r(1,3) assms(2) len
    by (cases "DbData B = []") (auto simp: Rpi5CywWriteDiagnosticBuffer_def)
qed

theorem diagnostics_roundtrip_witness:
  "Rpi5CywWriteDiagnosticBuffer (CywDiagAppend [65, 0] 4 [1, 2, 3, 4] \<lparr>DbData = [], DbFailed = False\<rparr>) =
     Some [([65, 0], 4, [1, 2, 3, 4])]"
proof -
  have "\<not> DbFailed (CywDiagAppend [65, 0] 4 [1, 2, 3, 4] \<lparr>DbData = [], DbFailed = False\<rparr>)"
    by (simp add: CywDiagAppend_def CYW_DIAG_CAPACITY_def align8_def)
  then show ?thesis using diagnostics_roundtrip [OF refl, of "[([65, 0], 4, [1, 2, 3, 4])]"] by simp
qed


text \<open>
  C32 (invariant).  The two-slot mailbox is a queue without locks: in every reachable state the snapshots consumed are the first
  ones published, unaltered and in order, at most two wait, and the producer never captures into the slot the consumer reads.
\<close>

theorem mailbox_is_fifo:
  assumes "mbx_init s" "mbx_step\<^sup>*\<^sup>* s t"
  shows "\<exists>waiting. XPublished t = XConsumed t @ waiting \<and> length waiting \<le> 2 \<and>
    \<not> (XCapturing t \<and> XWriting t \<and> MbProduce (XBox t) = MbConsume (XBox t))"
  using mbx.reachable_inv [OF assms] by (fastforce simp: mbx_inv_def box_ok_def Let_def split: if_splits)

definition sample_mbx :: "nat mbx" where
  "sample_mbx = \<lparr>XBox = \<lparr>MbState = [0, 0], MbProduce = 0, MbConsume = 0, MbSkipped = 0, MbBuffer = [7, 8]\<rparr>,
     XCapturing = False, XWriting = False, XPublished = [], XConsumed = []\<rparr>"

theorem mailbox_is_fifo_witness:
  "\<exists>t waiting. mbx_step\<^sup>*\<^sup>* sample_mbx t \<and> XPublished t = [7] \<and> XPublished t = XConsumed t @ waiting \<and> length waiting \<le> 2"
proof -
  let ?s1 = "sample_mbx\<lparr>XBox := (XBox sample_mbx)\<lparr>MbState := [1, 0]\<rparr>, XCapturing := True\<rparr>"
  let ?s2 = "?s1\<lparr>XBox := CywDiagPublish (XBox ?s1), XCapturing := False, XPublished := XPublished ?s1 @ [MbBuffer (XBox ?s1) ! MbProduce (XBox ?s1)]\<rparr>"
  have "mbx_step sample_mbx ?s1"
    by (rule mbx_step.begin') (simp_all add: sample_mbx_def CywDiagBegin_def)
  moreover have "mbx_step ?s1 ?s2" by (rule mbx_step.publish) simp
  ultimately have run: "mbx_step\<^sup>*\<^sup>* sample_mbx ?s2" by (meson rtranclp.rtrancl_into_rtrancl rtranclp.rtrancl_refl)
  have "mbx_init sample_mbx" by (simp add: mbx_init_def sample_mbx_def)
  from mailbox_is_fifo [OF this run] obtain waiting where "XPublished ?s2 = XConsumed ?s2 @ waiting" "length waiting \<le> 2" by blast
  moreover have "XPublished ?s2 = [7]" by (simp add: sample_mbx_def)
  ultimately show ?thesis using run by blast
qed

end
