(* ===== verification/Startup.thy ===== *)
theory Startup
  imports Bus_Session
begin

text \<open>
  Results of startup: the reader of the enumeration ROM, the inventory that a successful probe leaves, the ranges of
  RAM transfers and the state after a successful firmware start.
\<close>

section \<open>The ROM reader\<close>

interpretation chip_erom: erom_reader "CywNextEromWord H"
  "\<lambda>(r, s). unat (RdRemaining r) + unat (EromWords (ACard (fst s))) \<le> 512" "\<lambda>(r, s). unat (EromWords (ACard (fst s)))"
  for H :: "'w hw"
proof
  fix c :: "CYW_EROM_READER \<times> adapter \<times> 'w"
  obtain r s where c: "c = (r, s)" by (cases c)
  obtain st v win a w where run: "run_state (CywReadBackplane32 H (RdWindow r) (RdAddress r)) s = ((st, v, win), (a, w))"
    by (metis prod.exhaust_sel)
  have card: "ACard a = ACard (fst s)" using keepsD [OF same.ReadBackplane_keeps run] by (simp add: bus_same_def)
  assume "case c of (r, s) \<Rightarrow> unat (RdRemaining r) + unat (EromWords (ACard (fst s))) \<le> 512"
  with c have le: "unat (RdRemaining r) + unat (EromWords (ACard a)) \<le> 512" by (simp add: card)
  have "unat (EromWords (ACard a) + 1) = unat (EromWords (ACard a)) + 1" "unat (RdRemaining r - 1) = unat (RdRemaining r) - 1"
    if "RdRemaining r \<noteq> 0"
    using that le unat_add_no_wrap [of "EromWords (ACard a)" 1] by (simp_all add: unat_minus_one)
  with c run le card show "wp (CywNextEromWord H) (\<lambda>_ c'.
      (case c' of (r, s) \<Rightarrow> unat (RdRemaining r) + unat (EromWords (ACard (fst s))) \<le> 512) \<and>
      (case c' of (r, s) \<Rightarrow> unat (EromWords (ACard (fst s)))) \<le> (case c of (r, s) \<Rightarrow> unat (EromWords (ACard (fst s)))) + 1) c"
    by (auto simp: CywNextEromWord_def wp_rules Let_def unat_gt_0 [symmetric])
qed

definition erom_same :: "adapter \<Rightarrow> adapter \<Rightarrow> bool" where
  "erom_same a b \<longleftrightarrow> ABus b = ABus a \<and> AHost b = AHost a \<and> AFw b = AFw a \<and>
     (\<exists>n. ACard b = (ACard a)\<lparr>EromWords := n\<rparr>) \<and> (\<exists>x. AChip b = (AChip a)\<lparr>EromTrace := x\<rparr>)"

lemma erom_self [simp]: "\<exists>n. k = k\<lparr>EromWords := n\<rparr>" "\<exists>x. c = c\<lparr>EromTrace := x\<rparr>"
  by (cases k; auto) (cases c; auto)

interpretation esame_rel: adapter_relation erom_same
  by unfold_locales (auto simp: erom_same_def)

interpretation esame: erom_frame "\<lambda>s t. erom_same (fst s) (fst t)" H for H :: "'w hw"
  by unfold_locales (rule esame_rel.register_ops | force simp: erom_same_def)+

lemma ParseCores_wp:
  assumes "unat (EromWords (ACard (fst s))) = 0"
  shows "wp (ParseCores H window address) (\<lambda>(st, m, win) t. erom_same (fst s) (fst t) \<and>
    unat (EromWords (ACard (fst t))) \<le> 512 \<and> (NT_SUCCESS st \<longrightarrow> core_map_usable m)) s"
proof -
  define r0 where "r0 = \<lparr>RdAddress = address, RdWindow = window, RdRemaining =
    (if (0x1000 - (address AND 0xFFF)) div 4 > 512 then 512 else (0x1000 - (address AND 0xFFF)) div 4)\<rparr>"
  have "unat (RdRemaining r0) \<le> 512" by (auto simp: r0_def word_less_nat_alt not_less)
  with assms have w: "wp (CywParseErom (CywNextEromWord H)) (\<lambda>_ (r, t). unat (EromWords (ACard (fst t))) \<le> 512) (r0, s)"
    by (intro wp_mono [OF chip_erom.CywParseErom_wp]) auto
  have m: "wp (CywParseErom (CywNextEromWord H)) (\<lambda>(st, m) _. NT_SUCCESS st \<longrightarrow> core_map_usable m) (r0, s)"
    unfolding CywParseErom_def by (rule EromLoop_post [OF erom_start_inv])
  have k: "erom_same (fst s) (fst (snd (run_state (ParseCores H window address) s)))"
    by (rule esame_rel.keeps_snd [OF esame.ParseCores_keeps])
  obtain st mm r' t where run: "run_state (CywParseErom (CywNextEromWord H)) (r0, s) = ((st, mm), (r', t))"
    by (metis prod.exhaust_sel)
  have p: "run_state (ParseCores H window address) s = ((st, mm, RdWindow r'), t)"
    unfolding ParseCores_def Let_def r0_def [symmetric] by (simp add: run)
  show ?thesis using w m k by (simp add: wp_def run p)
qed

section \<open>The inventory\<close>

definition words_same :: "adapter \<Rightarrow> adapter \<Rightarrow> bool" where
  "words_same a b \<longleftrightarrow> EromWords (ACard b) = EromWords (ACard a) \<and>
     CoreInventoryComplete (ACard b) = CoreInventoryComplete (ACard a)"

interpretation words_rel: adapter_relation words_same
  by unfold_locales (simp_all add: words_same_def)

interpretation words: card_frame "\<lambda>s t. words_same (fst s) (fst t)" H for H :: "'w hw"
  by unfold_locales (rule words_rel.register_ops | simp add: words_same_def)+

definition core_bases_ok :: "chipd \<Rightarrow> bool" where
  "core_bases_ok c \<longleftrightarrow> ChipCommonBase c = 0x18000000 \<and> CywValidCoreAddress (SdioCoreBase c) \<and>
     CywValidCoreAddress (D11CoreBase c) \<and> CywValidCoreAddress (D11WrapperBase c) \<and> CywValidCoreAddress (Cr4CoreBase c) \<and>
     CywValidCoreAddress (Cr4WrapperBase c) \<and> Cr4WrapperBase c \<noteq> Cr4CoreBase c \<and> SdioCoreBase c \<noteq> Cr4CoreBase c \<and>
     4 \<le> CoreCount c \<and> CoreCount c \<le> 32"

lemma core_bases_okI:
  assumes "core_map_usable m"
  shows "core_bases_ok (c\<lparr>CoreCount := MCount m, ChipCommonBase := MChipCommon m, SdioCoreBase := MSdio m,
     D11CoreBase := MD11 m, D11WrapperBase := MD11Wrapper m, Cr4CoreBase := MCr4 m, Cr4WrapperBase := MCr4Wrapper m\<rparr>)"
proof -
  have "CywValidCoreAddress (target_get t m)" for t using assms by (simp add: core_map_usable_def)
  from this [of TSdio] this [of TD11] this [of TCr4]
  have "CywValidCoreAddress (MSdio m)" "CywValidCoreAddress (MD11 m)" "CywValidCoreAddress (MCr4 m)" by simp_all
  moreover have "MSdio m \<noteq> MCr4 m"
    using assms inj_eq [of "\<lambda>t. target_get t m" TSdio TCr4] by (simp add: core_map_usable_def)
  ultimately show ?thesis using assms by (simp add: core_map_usable_def core_bases_ok_def)
qed

definition inventory_ok :: "adapter \<Rightarrow> bool" where
  "inventory_ok a \<longleftrightarrow> ChipId (AChip a) = 0x4345 \<and> ChipRevision (AChip a) = 6 \<and> core_bases_ok (AChip a) \<and>
     RamBase (AChip a) = 0x198000 \<and> CoreInventoryComplete (ACard a) \<and> unat (EromWords (ACard a)) \<le> 512"

lemma ReadCr4_wp:
  "wp (ReadCr4 H window m) (\<lambda>st t. ACard (fst t) = ACard (fst s) \<and> ChipId (AChip (fst t)) = ChipId (AChip (fst s)) \<and>
     ChipRevision (AChip (fst t)) = ChipRevision (AChip (fst s)) \<and>
     core_bases_ok (AChip (fst t)) = core_bases_ok (AChip (fst s))) s"
  unfolding ReadCr4_def wp_rules state_defs
  by (auto simp: wp_rules core_bases_ok_def intro!: wp_same [OF same.ReadBackplane_keeps])

lemma core_bases_ok_base [simp]: "core_bases_ok (c\<lparr>RamBase := x\<rparr>) = core_bases_ok c"
    "core_bases_ok (c\<lparr>ProbeRestoreStatus := y\<rparr>) = core_bases_ok c"
  by (simp_all add: core_bases_ok_def)

lemma DiscoverCores_wp:
  assumes "EromWords (ACard (fst s)) = 0" "ChipId (AChip (fst s)) = 0x4345"
  shows "wp (CywDiscoverCores H) (\<lambda>st t. NT_SUCCESS st \<longrightarrow> inventory_ok (fst t)) s"
  unfolding CywDiscoverCores_def wp_rules state_defs Rpi5CywWriteDiagnostics_def StoreCores_def
  using assms
  by (auto simp: wp_rules inventory_ok_def erom_same_def intro!: wp_same [OF same.ReadBackplane_keeps]
      wp_mono [OF ParseCores_wp] wp_mono [OF ReadCr4_wp] core_bases_okI)

lemma IdLoop_False: "ChipId (AChip (fst s)) = 0x4345 \<Longrightarrow> wp (IdLoop H n False) (\<lambda>st t. ChipId (AChip (fst t)) = 0x4345) s"
  by (induction n arbitrary: s) (auto simp: wp_rules Let_def intro!: wp_same [OF same.Cmd53Read_keeps])

lemma IdLoop_True: "wp (IdLoop H (Suc n) True) (\<lambda>st t. NT_SUCCESS st \<longrightarrow> ChipId (AChip (fst t)) = 0x4345) s"
  by (auto simp: wp_rules Let_def state_defs intro!: wp_same [OF same.Cmd53Read_keeps] wp_mono [OF IdLoop_False])

lemma wp_words:
  assumes "keeps (\<lambda>s t. words_same (fst s) (fst t)) m"
    and "\<And>x t. EromWords (ACard (fst t)) = EromWords (ACard (fst s)) \<Longrightarrow> Q x t"
  shows "wp m Q s"
  by (rule wp_mono [OF wp_keeps [OF assms(1), of s]]) (auto simp: words_same_def intro: assms(2))

lemma ProbeIdentify_wp:
  assumes "EromWords (ACard (fst s)) = 0"
  shows "wp (ProbeIdentify H p) (\<lambda>(st, p) t. NT_SUCCESS st \<longrightarrow> inventory_ok (fst t)) s"
proof -
  have "wp (IdLoop H (Suc 15) True) (\<lambda>st t. (NT_SUCCESS st \<longrightarrow> ChipId (AChip (fst t)) = 0x4345) \<and> EromWords (ACard (fst t)) = 0) s"
    unfolding wp_conj
    by (intro conjI IdLoop_True wp_words [OF words.IdLoop_keeps]) (simp add: assms)
  then have "wp (IdLoop H 16 True) (\<lambda>st t. (NT_SUCCESS st \<longrightarrow> ChipId (AChip (fst t)) = 0x4345) \<and> EromWords (ACard (fst t)) = 0) s"
    by (simp del: IdLoop.simps)
  then show ?thesis unfolding ProbeIdentify_def wp_rules Let_def
    by (rule wp_mono) (auto simp: wp_rules intro!: wp_mono [OF DiscoverCores_wp])
qed

lemma ProbeBody_wp:
  assumes "EromWords (ACard (fst s)) = 0"
  shows "wp (ProbeBody H) (\<lambda>(st, p) t. NT_SUCCESS st \<longrightarrow> inventory_ok (fst t)) s"
  unfolding ProbeBody_def wp_rules
  using assms by (auto simp: wp_rules intro!: wp_words [OF words.ProbeEnable_keeps] wp_words [OF words.ProbeClock_keeps]
      wp_words [OF words.ProbeWindow_keeps] ProbeIdentify_wp)

lemma Probe_wp:
  assumes "EromWords (ACard (fst s)) = 0" "SdioFunctions (ACard (fst s)) \<noteq> 0"
  shows "wp (Cyw43455Probe H) (\<lambda>st t. ProbeStatus (ACard (fst t)) = st \<and>
    (NT_SUCCESS st \<longrightarrow> inventory_ok (fst t) \<and> NT_SUCCESS (ProbeRestoreStatus (AChip (fst t))))) s"
  unfolding Cyw43455Probe_def wp_rules Let_def state_defs Rpi5CywWriteDiagnostics_def
  using assms by (auto simp: wp_rules inventory_ok_def word_less_nat_alt unat_eq_zero intro!: wp_mono [OF ProbeBody_wp]
      wp_same [OF same.ProbeRestore_keeps])

text \<open>Bus mode changes leave the card's fields alone.\<close>

interpretation cards_rel: adapter_relation "\<lambda>a b. ACard b = ACard a"
  by unfold_locales simp_all

interpretation cards: bus_frame "\<lambda>s t. ACard (fst t) = ACard (fst s)" H for H :: "'w hw"
  by unfold_locales (rule cards_rel.register_ops | simp)+

lemma wp_cards:
  assumes "keeps (\<lambda>s t. ACard (fst t) = ACard (fst s)) m" and "\<And>x t. ACard (fst t) = ACard (fst s) \<Longrightarrow> Q x t"
  shows "wp m Q s"
  by (rule wp_mono [OF wp_keeps [OF assms(1), of s]]) (rule assms(2))

definition step_reported :: "cardd \<Rightarrow> cardd \<Rightarrow> NTSTATUS \<Rightarrow> bool" where
  "step_reported k k' st \<longleftrightarrow> EromWords k' = EromWords k \<and> SdioFunctions k' = SdioFunctions k \<and>
     (\<not> NT_SUCCESS st \<longrightarrow> ProbeStatus k' = st)"

lemma SelectCard_wp: "wp (SelectCard H) (\<lambda>st t. step_reported (ACard (fst s)) (ACard (fst t)) st) s"
  unfolding SelectCard_def wp_rules Let_def state_defs Rpi5CywWriteDiagnostics_def
  by (auto simp: wp_rules step_reported_def intro!: bus_specs)

lemma ProbeRegisters_wp: "wp (ProbeRegisters H) (\<lambda>st t. step_reported (ACard (fst s)) (ACard (fst t)) st) s"
  unfolding ProbeRegisters_def ProbeRead_def wp_rules state_defs Rpi5CywWriteDiagnostics_def
  by (auto simp: wp_rules step_reported_def intro!: wp_cards [OF cards.RestoreIdentificationBus_keeps] bus_specs)

lemma Negotiate_wp:
  assumes "EromWords (ACard (fst s)) = 0"
  shows "wp (SdioNegotiateOperatingConditionWithRetries H) (\<lambda>r t. cmd5_done r (ACard (fst t)) \<and> EromWords (ACard (fst t)) = 0) s"
  unfolding wp_conj
  by (intro conjI NegotiateOperatingCondition_wp wp_words [OF words.NegotiateOperatingCondition_keeps]) (simp add: assms)

definition probe_outcome :: "NTSTATUS \<Rightarrow> adapter \<Rightarrow> bool" where
  "probe_outcome st a \<longleftrightarrow> ProbeStatus (ACard a) = st \<and>
    (NT_SUCCESS st \<longrightarrow> inventory_ok a \<and> NT_SUCCESS (ProbeRestoreStatus (AChip a)))"

lemma probe_outcome_failed [simp]: "\<not> NT_SUCCESS st \<Longrightarrow> probe_outcome st a \<longleftrightarrow> ProbeStatus (ACard a) = st"
  by (simp add: probe_outcome_def)

lemma ProbeTail_wp:
  assumes "EromWords (ACard (fst s)) = 0" "SdioFunctions (ACard (fst s)) \<noteq> 0"
  shows "wp (do { st \<leftarrow> ProbeRegisters H; orelse st (Cyw43455Probe H) }) (\<lambda>st t. probe_outcome st (fst t)) s"
  unfolding wp_rules probe_outcome_def
  by (rule wp_mono [OF ProbeRegisters_wp]) (use assms in \<open>simp add: step_reported_def Probe_wp\<close>)

lemma DirectProbe_wp: "wp (Rpi5CywDirectSdioProbe H) (\<lambda>st t. probe_outcome st (fst t)) s"
proof -
  have tail: "wp (ProbeRegisters H) (\<lambda>st. wp (orelse st (Cyw43455Probe H)) (\<lambda>st t. probe_outcome st (fst t))) t"
    if "EromWords (ACard (fst t)) = 0" "SdioFunctions (ACard (fst t)) \<noteq> 0" for t
    using ProbeTail_wp [OF that, of H] by (simp only: wp_bind)
  have nz: "1 \<le> n \<Longrightarrow> n \<noteq> 0" for n :: u32 by auto
  show ?thesis
    unfolding Rpi5CywDirectSdioProbe_def wp_bind state_defs Rpi5CywWriteDiagnostics_def
    by (auto simp: wp_modify wp_if wp_return wp_asks wp_orelse [of _ "State_Monad.bind _ _"] wp_bind step_reported_def cmd5_done_def
        intro!: wp_any [of _ "SdioInitializeHost H"] wp_words [OF words.WarmReset_keeps] wp_mono [OF Negotiate_wp]
          wp_mono [OF SelectCard_wp] tail dest!: nz)
qed


section \<open>RAM transfers\<close>

lemma and_7fff: "unat (x AND 0x7fff :: u32) = unat x mod 0x8000"
proof -
  have "(x AND 0x7fff :: u32) = take_bit 15 x" by (simp add: take_bit_eq_mask mask_eq_exp_minus_1)
  also have "unat \<dots> = take_bit 15 (unat x)" by (simp only: unsigned_take_bit_eq)
  finally show ?thesis by (simp add: take_bit_eq_mod)
qed

lemma and_window: "(x AND 0xffff8000 :: u32) = push_bit 15 (drop_bit 15 x)"
proof -
  have "(0xffff8000 :: u32) = NOT (mask 15)" by (simp add: mask_eq_exp_minus_1)
  then have "x AND 0xffff8000 = x AND NOT (mask 15)" by simp
  also have "\<dots> = push_bit 15 (drop_bit 15 x)"
    by (rule bit_word_eqI) (auto simp: bit_simps)
  finally show ?thesis .
qed

lemma window_address: "unat ((x AND 0x7fff) OR 0x8000 :: u32) = 0x8000 + unat x mod 0x8000"
proof -
  have "(x AND 0x7fff) AND 0x8000 = (0 :: u32)" by (simp add: and.assoc)
  then have "(x AND 0x7fff) OR 0x8000 = (x AND 0x7fff) + (0x8000 :: u32)"
    by (rule disjunctive_add_eq_or [symmetric])
  moreover have "unat ((x AND 0x7fff) + (0x8000 :: u32)) = unat (x AND 0x7fff) + 0x8000"
    by (subst unat_add_no_wrap) (simp_all add: and_7fff)
  ultimately show ?thesis by (simp add: and_7fff)
qed

lemma same_window:
  assumes "unat x mod 0x8000 + k < 0x8000"
  shows "((x :: u32) + word_of_nat k) AND 0xffff8000 = x AND 0xffff8000"
proof -
  define q where "q = unat x div 0x8000"
  have x: "unat x = 0x8000 * q + unat x mod 0x8000" by (simp add: q_def)
  have q: "q < 131072" using unat_u32_less [of x] unfolding q_def by (simp add: div_less_iff_less_mult)
  have lt: "unat x + k < 4294967296" "k < 4294967296" using assms q x by linarith+
  have "unat (x + word_of_nat k) = unat x + k"
    using lt unat_add_no_wrap [of x "word_of_nat k"] by (simp add: unat_word_of_nat_u32)
  moreover have "(unat x + k) div 0x8000 = q" using assms x by (subst x) simp
  ultimately have "drop_bit 15 (x + word_of_nat k) = drop_bit 15 x"
    by (simp add: word_unat_eq_iff drop_bit_eq_div unat_div q_def)
  then show ?thesis by (simp add: and_window)
qed

text \<open>
  C39 (bounds).  Each chunk of a RAM transfer is one valid CMD53: not empty, at most 64 bytes, inside the 32 KiB window
  that the address selects - so that the window need not be changed within it - and within the range of function 1.
\<close>

theorem CywRam_chunk_bounds:
  assumes "0 < left"
  shows "let n = RamChunk address left in
    0 < n \<and> n \<le> 64 \<and> n \<le> left \<and> Cmd53Valid 1 ((address AND 0x7fff) OR 0x8000) n True \<and>
    (address + word_of_nat (n - 1)) AND 0xffff8000 = address AND 0xffff8000"
proof -
  define n where "n = RamChunk address left"
  have n: "0 < n" "n \<le> 64" "n \<le> left" "unat address mod 0x8000 + n \<le> 0x8000"
    using RamChunk_bounds [OF assms, of address] unfolding n_def by (auto simp: RamChunk_def and_7fff)
  have a: "unat ((address AND 0x7fff) OR 0x8000) = 0x8000 + unat address mod 0x8000" by (rule window_address)
  have u: "unat (word_of_nat n :: u32) = n" using n by (simp add: unat_word_of_nat_u32)
  have "unat (0x1FFFF - ((address AND 0x7fff) OR 0x8000)) = 0x1FFFF - (0x8000 + unat address mod 0x8000)"
    using a by (subst unat_sub) (simp_all add: word_le_nat_alt)
  moreover have "unat (word_of_nat n - 1 :: u32) = n - 1"
    using n u by (subst unat_sub) (simp_all add: word_le_nat_alt)
  ultimately have "Cmd53Valid 1 ((address AND 0x7fff) OR 0x8000) n True"
    using n a u by (simp add: Cmd53Valid_def SdioIsValidByteRead_def word_le_nat_alt word_less_nat_alt)
  then show ?thesis using n same_window [of address "n - 1"] by (simp add: Let_def n_def [symmetric])
qed

theorem CywRam_chunk_bounds_witness:
  "let n = RamChunk 0x19FFF0 512 in
    0 < n \<and> n \<le> 64 \<and> n \<le> 512 \<and> Cmd53Valid 1 ((0x19FFF0 AND 0x7fff) OR 0x8000) n True \<and>
    (0x19FFF0 + word_of_nat (n - 1)) AND 0xffff8000 = (0x19FFF0 :: u32) AND 0xffff8000"
  by (rule CywRam_chunk_bounds) simp

section \<open>Firmware start\<close>

text \<open>Phase and diagnostics bookkeeping leaves the bus alone.\<close>

lemma Snapshot_spec:
  assumes "\<And>t. ABus (fst t) = ABus (fst s) \<Longrightarrow> FwNetworkPhase (AFw (fst t)) = FwNetworkPhase (AFw (fst s)) \<Longrightarrow>
    FwNetworkStatus (AFw (fst t)) = FwNetworkStatus (AFw (fst s)) \<Longrightarrow> Q () t"
  shows "wp (CywFirmwareSnapshot H Force) Q s"
  unfolding CywFirmwareSnapshot_def Rpi5CywWriteDiagnostics_def wp_rules state_defs
  by (auto simp: wp_rules intro!: wp_same [OF same_rel.register_ops(5)] assms)

lemma VerifyReads_wp:
  "wp (VerifyReads H n) (\<lambda>st t. ABus (fst t) = (ABus (fst s))\<lparr>BusVerifyReads := BusVerifyReads (ABus (fst t))\<rparr> \<and>
     (NT_SUCCESS st \<longrightarrow> BusVerifyReads (ABus (fst t)) = BusVerifyReads (ABus (fst s)) + word_of_nat n)) s"
proof (induction n arbitrary: s)
  case 0
  show ?case by (simp add: wp_rules)
next
  case (Suc n)
  have c: "keeps (\<lambda>s t. bus_same (fst s) (fst t)) (NetworkCancelled H)"
    unfolding NetworkCancelled_def by (intro keeps_intros same_rel.keeps_bind same_rel.keeps_return same_rel.register_ops)
  show ?case unfolding VerifyReads.simps wp_rules Let_def state_defs
    by (auto simp: wp_rules intro!: wp_same [OF c] wp_same [OF same.BpRead_keeps] wp_mono [OF Suc.IH])
qed
text \<open>The state in which the network may use the bus.\<close>

definition operational :: "busd \<Rightarrow> bool" where
  "operational b \<longleftrightarrow> BusModeStage b = 6 \<and> BusVerifyReads b = 16 \<and> NT_SUCCESS (BusVerifyStatus b) \<and> (default_bus b \<or> high_speed_bus b)"

lemma bus_verify_updates [simp]:
  "default_bus (b\<lparr>BusVerifyReads := n\<rparr>) = default_bus b" "high_speed_bus (b\<lparr>BusVerifyReads := n\<rparr>) = high_speed_bus b"
  "default_bus (b\<lparr>BusModeStage := m\<rparr>) = default_bus b" "high_speed_bus (b\<lparr>BusModeStage := m\<rparr>) = high_speed_bus b"
  "default_bus (b\<lparr>BusVerifyStatus := x\<rparr>) = default_bus b" "high_speed_bus (b\<lparr>BusVerifyStatus := x\<rparr>) = high_speed_bus b"
  by (simp_all add: default_bus_def high_speed_bus_def clock_within_def)

definition verified :: "NTSTATUS \<Rightarrow> adapter \<times> 'w \<Rightarrow> bool" where
  "verified st t \<longleftrightarrow> (if NT_SUCCESS st then operational (ABus (fst t)) \<and> FwNetworkPhase (AFw (fst t)) = 450
     else recovered (ABus (fst t)))"

lemma VerifyRound_wp:
  assumes "default_bus (ABus (fst s)) \<or> high_speed_bus (ABus (fst s))"
    and "\<And>k t. retry = Some k \<Longrightarrow> default_bus (ABus (fst t)) \<Longrightarrow> wp k verified t"
  shows "wp (VerifyRound H retry) verified s"
proof -
  define s1 where "s1 = (fst s)\<lparr>ABus := (ABus (fst s))\<lparr>BusModeStage := 5, BusVerifyReads := 0\<rparr>\<rparr>"
  have ok: "default_bus (ABus s1) \<or> high_speed_bus (ABus s1)" "BusVerifyReads (ABus s1) = 0" using assms(1) by (auto simp: s1_def)
  have again: "wp (orelse st k) verified t" if "retry = Some k"
    "if NT_SUCCESS st then default_bus (ABus (fst t)) \<and> BusModeStage (ABus (fst t)) = 4 else recovered (ABus (fst t))" for st k t
    using that assms(2) [of k t] by (cases "NT_SUCCESS st") (simp_all add: wp_rules verified_def)
  show ?thesis
    unfolding VerifyRound_def wp_rules state_defs CywFirmwarePhase_def s1_def [symmetric]
    by (rule wp_mono [OF VerifyReads_wp [of H 16 "(s1, snd s)"]])
      (auto simp: wp_rules verified_def operational_def ok split: option.split simp del: wp_orelse
        intro!: Snapshot_spec bus_specs again)
qed

lemma VerifyOperatingBus_wp:
  assumes "default_bus (ABus (fst s)) \<or> high_speed_bus (ABus (fst s))"
  shows "wp (VerifyOperatingBus H) verified s"
  unfolding VerifyOperatingBus_def using assms by (auto intro!: VerifyRound_wp)

text \<open>A postcondition that every failure meets passes through the \<open>TRY\<close>s before the last step.\<close>

definition always :: "('a \<Rightarrow> 's \<Rightarrow> bool) \<Rightarrow> ('s, 'a) state \<Rightarrow> bool" where
  "always Q m \<longleftrightarrow> (\<forall>s. wp m Q s)"

lemma alwaysD: "always Q m \<Longrightarrow> wp m Q s"
  by (simp only: always_def)

lemma always_if: "always Q m \<Longrightarrow> always Q n \<Longrightarrow> always Q (if b then m else n)"
  by simp

lemma always_option: "always Q m \<Longrightarrow> (\<And>x. always Q (f x)) \<Longrightarrow> always Q (case r of None \<Rightarrow> m | Some x \<Rightarrow> f x)"
  by (cases r) simp_all

lemma always_bind: "(\<And>x. always Q (f x)) \<Longrightarrow> always Q (State_Monad.bind m f)"
  by (auto simp: always_def wp_rules intro: wp_any)

lemma always_prod: "(\<And>x y. always Q (f x y)) \<Longrightarrow> always Q (case p of (x, y) \<Rightarrow> f x y)"
  by (cases p) simp

definition failures_meet :: "(NTSTATUS \<Rightarrow> 's \<Rightarrow> bool) \<Rightarrow> bool" where
  "failures_meet Q \<longleftrightarrow> (\<forall>st t. \<not> NT_SUCCESS st \<longrightarrow> Q st t)"

lemma always_orelse: "failures_meet Q \<Longrightarrow> always Q k \<Longrightarrow> always Q (orelse st k)"
  by (simp add: always_def wp_rules failures_meet_def)

lemma always_tryWrite: "failures_meet Q \<Longrightarrow> always Q k \<Longrightarrow> always Q (tryWrite H x v k)"
  unfolding tryWrite_def by (intro always_bind always_orelse)

definition negotiated :: "NTSTATUS \<Rightarrow> adapter \<times> 'w \<Rightarrow> bool" where
  "negotiated st t \<longleftrightarrow> (NT_SUCCESS st \<longrightarrow> default_bus (ABus (fst t)) \<or> high_speed_bus (ABus (fst t)))"

lemma FwBoot_wp: "wp (FwBoot H fw nv) negotiated s"
proof -
  have f: "failures_meet (negotiated :: NTSTATUS \<Rightarrow> adapter \<times> 'a \<Rightarrow> bool)" by (simp add: failures_meet_def negotiated_def)
  have "always negotiated (SdioNegotiateOperatingSpeed H)"
    unfolding always_def by (auto simp: negotiated_def intro!: wp_mono [OF NegotiateOperatingSpeed_wp])
  then have "always negotiated (FwBoot H fw nv)"
    unfolding FwBoot_def by (intro always_bind always_prod always_orelse [OF f] always_tryWrite [OF f])
  then show ?thesis by (rule alwaysD)
qed

definition started :: "NTSTATUS \<Rightarrow> adapter \<times> 'w \<Rightarrow> bool" where
  "started st t \<longleftrightarrow> (NT_SUCCESS st \<longrightarrow> operational (ABus (fst t)) \<and> FwNetworkPhase (AFw (fst t)) = 450)"

lemma FwBody_wp: "wp (FwBody H F) started s"
proof -
  have f: "failures_meet (started :: NTSTATUS \<Rightarrow> adapter \<times> 'a \<Rightarrow> bool)" by (simp add: failures_meet_def started_def)
  have fail: "always started (ret st)" if "\<not> NT_SUCCESS st" for st
    using that by (simp add: always_def wp_rules started_def)
  have boot: "always started (do { st \<leftarrow> FwBoot H fw nv; orelse st (VerifyOperatingBus H) })" for fw nv
    unfolding always_def wp_rules
    by (auto intro!: wp_mono [OF FwBoot_wp] wp_mono [OF VerifyOperatingBus_wp] simp: started_def negotiated_def verified_def split: if_splits)
  have "always started (FwBody H F)"
    unfolding FwBody_def
    by (rule boot | rule always_bind always_prod always_if always_option always_orelse [OF f] | rule fail, simp)+
  then show ?thesis by (rule alwaysD)
qed

end
