(* ===== verification/Spec2Isabelle.thy ===== *)
theory Spec2Isabelle
  imports Scan_Protocol Configure_Safety Tx_Pump Diag Startup
begin

text \<open>
  Verification library for the CYW43455 Wi-Fi driver of the Raspberry Pi 5 (Windows on ARM,
  NDIS miniport), sources \<open>src/src/cyw43455\<close>, \<open>src/src/sdio\<close> and \<open>src/src/driver\<close>.

  \<^bold>\<open>The program.\<close> One worker thread owns the bus.  Through an SDHCI controller it talks to the SDIO card, identifies the chip,
  uploads the firmware and verifies the bus.  It then exchanges frames with the firmware over a FIFO: control frames carry
  commands and their replies, event frames change the state of the link, data frames carry Ethernet packets.  Other threads only
  leave requests (connect, disconnect, scan, radio report, power), hand packets to the transmit queue and set stop flags.

  \<^bold>\<open>Conventions\<close> (\<open>Cyw_Prelude\<close>). C integers are words of their width; lengths and offsets that the code bounds before use are natural
  numbers.  A buffer is a list of bytes, and an access outside of it is \<open>None\<close> in a pure parser and sets \<open>LFault\<close> in
  the stateful code, so memory safety is a theorem and not an assumption.  Stateful functions are computations of the state monad;
  \<open>wp\<close> is their weakest precondition, \<open>keeps R\<close> a frame condition closed under sequencing (locale \<open>frame_relation\<close>), and
  \<open>yields P\<close> a property of every result.  The locale \<open>invariant_system\<close> gives invariants of step relations.  \<open>TRY\<close> is \<open>tryS\<close>.

  \<^bold>\<open>The controller and the bus.\<close>
  \<^item> \<open>Sdio_Protocol\<close>: the pure helpers of \<open>sdio/sdio_protocol.h\<close>; the clock divider is the least one that is slow enough.
  \<^item> \<open>Sdio_Host\<close>, \<open>Sdio_Transfer\<close>, \<open>Sdio_Bus\<close>: \<open>sdio/sdio.c\<close>, \<open>fifo_blocks.h\<close>, \<open>bus_mode.h\<close>.  The registers, clocks and
    the flag \<open>IoStopped\<close> are the argument \<open>hw\<close>, over a world of any type, so every theorem holds for every controller, card and schedule of
    the other threads.
  \<^item> \<open>Sdio_Safety\<close> states as locales what a state relation needs to be kept by all of these functions (\<open>io_frame\<close>, \<open>fifo_frame\<close>,
    \<open>bus_frame\<close>, \<open>card_frame\<close>); \<open>Bus_Mode\<close> and \<open>Bus_Session\<close> interpret them.  Results: the data port gives back the bytes stored to
    it, negotiation ends in a verified mode or says how it left the bus, a FIFO failure stays latched, a stopped bus is silent.

  \<^bold>\<open>Startup.\<close>
  \<^item> \<open>Erom\<close>, \<open>Chip\<close>: \<open>cyw43455/erom.h\<close>, \<open>chip.c\<close>.  The parser is written against the locale \<open>erom_reader\<close>, which \<open>Startup\<close>
    interprets on \<open>CywNextEromWord\<close>.
  \<^item> \<open>Firmware\<close>: \<open>cyw43455/firmware.c\<close>, \<open>startup_bus.h\<close>; the files are the argument \<open>files\<close>.
  \<^item> \<open>Startup\<close>: a probe that succeeds leaves a complete inventory, a RAM transfer stays inside of a window, a firmware start that
    succeeds has read its image back and verified the bus.

  \<^bold>\<open>Formats and parsers\<close>, each proved to stay inside of what was received, for every input:
  \<open>Wire_Protocol\<close> (\<open>network_protocol.h\<close>: headers, receive filter, credit, country and connect requests, NVRAM), \<open>Rx_Glom\<close>
  (\<open>rx_performance.h\<close>: superframes), \<open>Scan_Protocol\<close> (\<open>scan_protocol.h\<close>: the report refines a bounded map),
  \<open>Radio_Band\<close> (\<open>radio_protocol.h\<close>, \<open>band_policy.h\<close>), \<open>Packet_Probe\<close> (\<open>packet_probe.h\<close>).

  \<^bold>\<open>The link to the firmware.\<close>
  \<^item> \<open>Transport\<close>: \<open>transport_protocol.h\<close>, \<open>transport_service.h\<close>, \<open>transport_poll.h\<close> and \<open>CywReceive\<close> of \<open>network.c\<close>: flow control, the status
    service, the poll and the delivery to NDIS.  \<open>Transport_Safety\<close> proves the invariant \<open>transport_ok\<close> and that only frames
    the host asked for are indicated.
  \<^item> \<open>Transport_Frames\<close>, \<open>Transport_Send\<close>: \<open>transport_send.h\<close>.  The firmware's reading of the transfers on the wire is the log of the frames
    that were accepted, numbered without a gap: every call of the link appends to that log exactly the frames it reports as sent (\<open>appended\<close>).
  \<^item> \<open>Firmware_Command\<close>: \<open>control.h\<close>.  A command is one request and its own reply, and it returns whenever the clock runs.
  \<^item> \<open>Firmware_Sequences\<close>: \<open>CywConfigure\<close> of \<open>network.c\<close>, \<open>rx_config.h\<close>, \<open>tx_glom2_config.h\<close>, \<open>join_preference.h\<close>,
    \<open>band_selection.h\<close>, \<open>connection.h\<close>.  \<open>Connect_Safety\<close> shows that connecting fails closed, \<open>Configure_Safety\<close> that the regulatory blob
    arrives whole and that the configuration stays inside of its buffers.

  \<^bold>\<open>Control and transmission.\<close>
  \<^item> \<open>Control_Plane\<close>: events, link state, transmit gate, control device, scans and power (\<open>network.c\<close>, \<open>scan_control.h\<close>,
    \<open>scan_sequence.h\<close>, \<open>stability_diag.h\<close>) as an interleaving of atomic steps; the invariants are those of the interpretation \<open>ctl\<close>.
    The transitions of \<open>CywConnect\<close> appear there with the status of their commands; \<open>Firmware_Sequences\<close> applies the same transitions where the
    code does.
  \<^item> \<open>Tx_Queue\<close>, \<open>Tx_Pump\<close>: \<open>tx_types.h\<close>, \<open>tx_queue.h\<close>, \<open>tx_dispatch.h\<close>, with arbitrary interference between the lock regions; no NBL is lost,
    duplicated or reordered, and a flush gives all of them back.
  \<^item> \<open>Policies\<close>: saturating counters, interrupt fallback, retries and recovery (\<open>timing.h\<close>, \<open>timing_clock.h\<close>, \<open>interrupt_policy.h\<close>,
    \<open>tx_retry.h\<close>, \<open>runtime_recovery.h\<close>, \<open>traffic_stats.h\<close>, \<open>tx_credit_diag.h\<close>).
  \<^item> \<open>Diag\<close>: \<open>diag_snapshot.h\<close>, \<open>diag_mailbox.h\<close> and the registry writer of \<open>driver.c\<close>.

  \<^bold>\<open>Loops and fuel.\<close> Loops over a range and polling loops with a number of rounds are total functions.  The loops that run until a deadline of
  the interrupt time (\<open>CreditWaitLoop\<close>, \<open>ReplyLoop\<close>, \<open>BandWaitLoop\<close>) have fuel and set \<open>FcHung\<close> when it runs out;
  \<open>CywFirmwareCommand_returns\<close> shows that \<open>K * 2 ^ 64\<close> rounds suffice for a 64-bit clock that advances at least once in \<open>K\<close> reads.  The
  safety theorems hold for every fuel.  The transmit pump is shown to end for every schedule.

  \<^bold>\<open>Parameters.\<close> The controller (\<open>hw\<close>), NDIS (\<open>ndis\<close>), files and pool (\<open>files\<close>), the requests of other threads (\<open>asked\<close>) and, for the
  queue, the bus port and the schedule.  No theorem but \<open>CywFirmwareCommand_returns\<close> assumes anything about them.

  \<^bold>\<open>Not modelled.\<close> The transport traces and the extra passes of the pump under pressure (\<open>transport_trace.h\<close>, \<open>tx_pressure_gate.h\<close>,
  \<open>tx_pressure_pump.h\<close>, \<open>tx_credit_pump.h\<close>, \<open>tx_credit_runtime.h\<close>, \<open>tx_retry_gate.h\<close>), the radio report \<open>radio.h\<close> (its parsers are), the
  NDIS entry points and OID tables of \<open>driver.c\<close>, the lists of exported diagnostics (\<open>diag_values.h\<close>), threads, timers, interrupts and pool as
  kernel objects, and the user-mode programs under \<open>src/native\<close>, which are calls of Windows interfaces with hardly a state of their own.
  Secrets on the stack: the clearing of \<open>pmk\<close> and \<open>ssid\<close> has no counterpart, since a buffer is a value here.
\<close>

end
